(* ===== verification/Prelude.thy ===== *)
theory Prelude
  imports Main "HOL-Library.Sublist"
begin

text \<open>
  Shared vocabulary of the development: time, the JavaScript values and string operations the
  sources use, table scans and updates, and the generic lemmas on them. Three collections carry
  the component proofs:
  \<^item> \<open>table_simps\<close>: reads of a table after a row update or an insert;
  \<^item> \<open>redis_laws\<close>: the documented behaviour of the Redis commands, as rewrite rules;
  \<^item> \<open>repo_defs\<close>: the definitions of the repository statements, unfolded together.
\<close>

named_theorems table_simps \<open>reads of a table after an update or an insert\<close>
named_theorems redis_laws \<open>effect of the Redis commands on the keyspace\<close>
named_theorems repo_defs \<open>definitions of the database statements\<close>

subsection \<open>Time\<close>

text \<open>
  JavaScript dates count milliseconds (\<open>Date.now()\<close>), PostgreSQL \<open>timestamptz\<close> values count
  microseconds. Reading a column into a \<open>Date\<close> drops the microseconds.
\<close>

type_synonym ms = int
type_synonym ts = int

definition date_of_ts :: "ts \<Rightarrow> ms" where
  "date_of_ts t = t div 1000"

definition ts_of_date :: "ms \<Rightarrow> ts" where
  "ts_of_date d = d * 1000"

lemma date_of_ts_of_date [simp]: "date_of_ts (ts_of_date d) = d"
  by (simp add: date_of_ts_def ts_of_date_def)

lemma ts_of_date_le: "ts_of_date (date_of_ts t) \<le> t"
proof -
  have "t = 1000 * (t div 1000) + t mod 1000" by simp
  moreover have "0 \<le> t mod 1000" by simp
  ultimately show ?thesis unfolding ts_of_date_def date_of_ts_def by linarith
qed

subsection \<open>JSON values\<close>

text \<open>A number is kept as the text \<open>Number.prototype.toString\<close> gives it.\<close>

datatype json =
    JNull
  | JBool bool
  | JNum string
  | JStr string
  | JArr "json list"
  | JObj "(string \<times> json) list"

subsection \<open>Decimal strings: \<open>String(n)\<close> and \<open>Number(s)\<close>\<close>

definition digit_char :: "nat \<Rightarrow> char" where
  "digit_char d = char_of (48 + d)"

fun string_of_nat :: "nat \<Rightarrow> string" where
  "string_of_nat n =
     (if n < 10 then [digit_char n] else string_of_nat (n div 10) @ [digit_char (n mod 10)])"

declare string_of_nat.simps [simp del]

definition string_of_int :: "int \<Rightarrow> string" where
  "string_of_int n = (if n < 0 then ''-'' @ string_of_nat (nat (- n)) else string_of_nat (nat n))"

definition is_digit :: "char \<Rightarrow> bool" where
  "is_digit c \<longleftrightarrow> 48 \<le> (of_char c :: nat) \<and> (of_char c :: nat) \<le> 57"

definition digit_val :: "char \<Rightarrow> nat" where
  "digit_val c = of_char c - 48"

definition digits_val :: "string \<Rightarrow> nat" where
  "digits_val s = foldl (\<lambda>n c. 10 * n + digit_val c) 0 s"

text \<open>
  \<open>Number(s)\<close> (and Lua's \<open>tonumber\<close>) on the strings Redis stores for a counter: an optional
  sign and decimal digits. \<open>None\<close> stands for \<open>NaN\<close> (Lua: \<open>nil\<close>).
\<close>

fun js_number :: "string \<Rightarrow> int option" where
  "js_number [] = None"
| "js_number (c # cs) =
     (if c = CHR ''-'' then
        (if cs \<noteq> [] \<and> list_all is_digit cs then Some (- int (digits_val cs)) else None)
      else if list_all is_digit (c # cs) then Some (int (digits_val (c # cs))) else None)"

lemma digit_char_is_digit: "d < 10 \<Longrightarrow> is_digit (digit_char d)"
  by (simp add: is_digit_def digit_char_def)

lemma digit_val_digit_char: "d < 10 \<Longrightarrow> digit_val (digit_char d) = d"
  by (simp add: digit_val_def digit_char_def)

lemma digits_val_append [simp]: "digits_val (s @ [c]) = 10 * digits_val s + digit_val c"
  by (simp add: digits_val_def)

lemma string_of_nat_digits: "string_of_nat n \<noteq> [] \<and> list_all is_digit (string_of_nat n)"
proof (induction n rule: string_of_nat.induct)
  case (1 n)
  then show ?case
    by (subst (1 2) string_of_nat.simps) (auto simp: digit_char_is_digit)
qed

lemma digits_val_string_of_nat [simp]: "digits_val (string_of_nat n) = n"
proof (induction n rule: string_of_nat.induct)
  case (1 n)
  show ?case
  proof (cases "n < 10")
    case True
    then show ?thesis
      by (subst string_of_nat.simps) (simp add: digits_val_def digit_val_digit_char)
  next
    case False
    with 1 show ?thesis
      by (subst string_of_nat.simps) (simp add: digit_val_digit_char)
  qed
qed

lemma js_number_string_of_int [simp]: "js_number (string_of_int n) = Some n"
proof (cases "n < 0")
  case True
  then show ?thesis
    using string_of_nat_digits [of "nat (- n)"] by (simp add: string_of_int_def)
next
  case False
  obtain c cs where s: "string_of_nat (nat n) = c # cs"
    using string_of_nat_digits [of "nat n"] by (cases "string_of_nat (nat n)") auto
  have digits: "list_all is_digit (c # cs)" using string_of_nat_digits [of "nat n"] s by simp
  then have "c \<noteq> CHR ''-''" by (auto simp: is_digit_def)
  moreover have "digits_val (c # cs) = nat n" using digits_val_string_of_nat [of "nat n"] s by simp
  ultimately show ?thesis using False digits s by (simp add: string_of_int_def)
qed

lemma string_of_int_inject [simp]: "string_of_int m = string_of_int n \<longleftrightarrow> m = n"
  by (metis js_number_string_of_int option.inject)

lemma string_of_nat_no_char:
  assumes "\<not> is_digit c"
  shows "c \<notin> set (string_of_nat n)"
  using string_of_nat_digits [of n] assms by (auto simp: list_all_iff)

subsection \<open>Strings\<close>

definition starts_with :: "string \<Rightarrow> string \<Rightarrow> bool" where
  "starts_with s p \<longleftrightarrow> take (length p) s = p"

definition str_includes :: "string \<Rightarrow> string \<Rightarrow> bool" where
  "str_includes s w \<longleftrightarrow> sublist w s"

lemma starts_with_append [simp]: "starts_with (p @ s) p"
  by (simp add: starts_with_def)

text \<open>A separator that the left part does not contain splits uniquely.\<close>

lemma append_sep_inject:
  assumes "a @ c # b = a' @ c # b'" and "c \<notin> set a" and "c \<notin> set a'"
  shows "a = a' \<and> b = b'"
  using assms
proof (induction a arbitrary: a')
  case Nil
  then show ?case by (cases a') auto
next
  case (Cons x a)
  then show ?case by (cases a') auto
qed

subsection \<open>Tables\<close>

text \<open>
  A table is the list of its rows in insertion order, so \<open>ORDER BY id\<close> on an identity column is
  the order of the list. \<open>find_row\<close> is \<open>SELECT ... WHERE key = k\<close> followed by \<open>rows[0]\<close>,
  \<open>upd_where\<close> is \<open>UPDATE ... SET ... WHERE\<close>.
\<close>

definition find_row :: "('a \<Rightarrow> 'k) \<Rightarrow> 'k \<Rightarrow> 'a list \<Rightarrow> 'a option" where
  "find_row key k xs = find (\<lambda>x. key x = k) xs"

definition upd_where :: "('a \<Rightarrow> bool) \<Rightarrow> ('a \<Rightarrow> 'a) \<Rightarrow> 'a list \<Rightarrow> 'a list" where
  "upd_where p f xs = map (\<lambda>x. if p x then f x else x) xs"

lemma find_row_Nil [simp]: "find_row key k [] = None"
  by (simp add: find_row_def)

lemma find_row_Cons [simp]:
  "find_row key k (x # xs) = (if key x = k then Some x else find_row key k xs)"
  by (simp add: find_row_def)

lemma find_row_append [table_simps]:
  "find_row key k (xs @ ys) = (case find_row key k xs of Some x \<Rightarrow> Some x | None \<Rightarrow> find_row key k ys)"
  by (induction xs) simp_all

lemma find_row_Some: "find_row key k xs = Some x \<Longrightarrow> x \<in> set xs \<and> key x = k"
  by (induction xs) (auto split: if_splits)

lemma find_row_known: "find_row key k xs = Some x \<Longrightarrow> k \<in> key ` set xs"
  using find_row_Some [of key k xs x] by (metis imageI)

lemma find_row_None: "find_row key k xs = None \<longleftrightarrow> k \<notin> key ` set xs"
  by (induction xs) auto

lemma find_row_unique:
  assumes "distinct (map key xs)" and "x \<in> set xs"
  shows "find_row key (key x) xs = Some x"
  using assms by (induction xs) auto

lemma find_row_upd_where [table_simps]:
  assumes "\<And>x. key (f x) = key x"
  shows "find_row key k (upd_where p f xs) =
    map_option (\<lambda>x. if p x then f x else x) (find_row key k xs)"
  using assms by (induction xs) (auto simp: upd_where_def)

lemma map_key_upd_where [table_simps]:
  assumes "\<And>x. key (f x) = key x"
  shows "map key (upd_where p f xs) = map key xs"
  using assms by (induction xs) (auto simp: upd_where_def)

lemma set_upd_where: "set (upd_where p f xs) = (\<lambda>x. if p x then f x else x) ` set xs"
  by (simp add: upd_where_def)

lemma length_upd_where [simp]: "length (upd_where p f xs) = length xs"
  by (simp add: upd_where_def)

lemma upd_where_none [simp]: "(\<And>x. x \<in> set xs \<Longrightarrow> \<not> p x) \<Longrightarrow> upd_where p f xs = xs"
  by (induction xs) (auto simp: upd_where_def)

lemma last_filter_append [table_simps]:
  "filter p (xs @ [x]) = (if p x then filter p xs @ [x] else filter p xs)"
  by simp

end
