(* ===== verification/Js_Lib.thy ===== *)
theory Js_Lib
  imports Prelude
begin

text \<open>
  The parts of the JavaScript and Node standard library the sources use on strings and dates:
  \<open>JSON.stringify\<close>, \<open>Date.prototype.toISOString\<close>, \<open>Buffer.from(s, 'hex')\<close> and
  \<open>digest('hex')\<close>, array indexing. A string is the list of its UTF-8 bytes.
\<close>

text \<open>\<open>xs[i]\<close>: \<open>undefined\<close> (here \<open>None\<close>) outside the array, at negative indices too.\<close>

definition js_index :: "'a list \<Rightarrow> int \<Rightarrow> 'a option" where
  "js_index xs i = (if 0 \<le> i \<and> i < int (length xs) then Some (xs ! nat i) else None)"

subsection \<open>Hexadecimal\<close>

definition hex_digit :: "nat \<Rightarrow> char" where
  "hex_digit n = (if n < 10 then char_of (48 + n) else char_of (87 + n))"

definition hex_val :: "char \<Rightarrow> nat option" where
  "hex_val c = (let n = (of_char c :: nat) in
     if 48 \<le> n \<and> n \<le> 57 then Some (n - 48)
     else if 97 \<le> n \<and> n \<le> 102 then Some (n - 87)
     else if 65 \<le> n \<and> n \<le> 70 then Some (n - 55)
     else None)"

fun to_hex :: "string \<Rightarrow> string" where
  "to_hex [] = []"
| "to_hex (b # bs) = hex_digit ((of_char b :: nat) div 16) # hex_digit ((of_char b :: nat) mod 16) # to_hex bs"

text \<open>Decoding stops at the first pair that is not hexadecimal; a single last digit is dropped.\<close>

fun buffer_from_hex :: "string \<Rightarrow> string" where
  "buffer_from_hex (a # b # cs) = (case (hex_val a, hex_val b) of
     (Some x, Some y) \<Rightarrow> char_of (16 * x + y) # buffer_from_hex cs
   | _ \<Rightarrow> [])"
| "buffer_from_hex _ = []"

lemma hex_val_hex_digit: "n < 16 \<Longrightarrow> hex_val (hex_digit n) = Some n"
  by (auto simp: hex_val_def hex_digit_def Let_def)

lemma buffer_from_hex_to_hex [simp]: "buffer_from_hex (to_hex bs) = bs"
proof (induction bs)
  case Nil
  then show ?case by simp
next
  case (Cons b bs)
  let ?n = "of_char b :: nat"
  have lt: "?n < 256" by simp
  have "?n div 16 < 16" using lt by linarith
  moreover have "?n mod 16 < 16" by simp
  moreover have "16 * (?n div 16) + ?n mod 16 = ?n" by simp
  moreover have "char_of ?n = b" by simp
  ultimately show ?case using Cons by (simp add: hex_val_hex_digit)
qed

lemma length_to_hex [simp]: "length (to_hex bs) = 2 * length bs"
  by (induction bs) auto

subsection \<open>\<open>JSON.stringify\<close>\<close>

definition json_escape_char :: "char \<Rightarrow> string" where
  "json_escape_char c = (let n = (of_char c :: nat) in
     if n = 34 then [CHR 0x5C, CHR 0x22]
     else if n = 92 then [CHR 0x5C, CHR 0x5C]
     else if n = 8 then [CHR 0x5C, CHR ''b'']
     else if n = 9 then [CHR 0x5C, CHR ''t'']
     else if n = 10 then [CHR 0x5C, CHR ''n'']
     else if n = 12 then [CHR 0x5C, CHR ''f'']
     else if n = 13 then [CHR 0x5C, CHR ''r'']
     else if n < 32 then [CHR 0x5C, CHR ''u'', CHR ''0'', CHR ''0'', hex_digit (n div 16), hex_digit (n mod 16)]
     else [c])"

definition json_quote :: "string \<Rightarrow> string" where
  "json_quote s = [CHR 0x22] @ concat (map json_escape_char s) @ [CHR 0x22]"

fun join_comma :: "string list \<Rightarrow> string" where
  "join_comma [] = []"
| "join_comma [x] = x"
| "join_comma (x # y # xs) = x @ '','' @ join_comma (y # xs)"

fun json_stringify :: "json \<Rightarrow> string" where
  "json_stringify JNull = ''null''"
| "json_stringify (JBool b) = (if b then ''true'' else ''false'')"
| "json_stringify (JNum n) = n"
| "json_stringify (JStr s) = json_quote s"
| "json_stringify (JArr xs) = ''['' @ join_comma (map json_stringify xs) @ '']''"
| "json_stringify (JObj kvs) =
     ''{'' @ join_comma (map (\<lambda>(k, v). json_quote k @ '':'' @ json_stringify v) kvs) @ ''}''"

subsection \<open>\<open>toISOString\<close>\<close>

text \<open>The proleptic Gregorian date of a day count from 1970-01-01.\<close>

definition civil_from_days :: "int \<Rightarrow> int \<times> int \<times> int" where
  "civil_from_days days =
     (let z = days + 719468;
          era = z div 146097;
          doe = z mod 146097;
          yoe = (doe - doe div 1460 + doe div 36524 - doe div 146096) div 365;
          doy = doe - (365 * yoe + yoe div 4 - yoe div 100);
          mp = (5 * doy + 2) div 153;
          d = doy - (153 * mp + 2) div 5 + 1;
          m = (if mp < 10 then mp + 3 else mp - 9)
      in (yoe + era * 400 + (if m \<le> 2 then 1 else 0), m, d))"

definition pad :: "nat \<Rightarrow> int \<Rightarrow> string" where
  "pad w n = (let s = string_of_int n in replicate (w - length s) (CHR ''0'') @ s)"

text \<open>Outside the years 0 to 9999 the year is printed with a sign and six digits.\<close>

definition iso_year :: "int \<Rightarrow> string" where
  "iso_year y = (if 0 \<le> y \<and> y \<le> 9999 then pad 4 y else (if y < 0 then ''-'' else ''+'') @ pad 6 \<bar>y\<bar>)"

definition toISOString :: "ms \<Rightarrow> string" where
  "toISOString t =
     (let (y, m, d) = civil_from_days (t div 86400000); r = t mod 86400000
      in iso_year y @ ''-'' @ pad 2 m @ ''-'' @ pad 2 d @ ''T'' @ pad 2 (r div 3600000) @ '':'' @
         pad 2 (r div 60000 mod 60) @ '':'' @ pad 2 (r div 1000 mod 60) @ ''.'' @ pad 3 (r mod 1000) @ ''Z'')"

end
