(* ===== verification/Config.thy ===== *)
theory Config
  imports Prelude
begin

text \<open>
  \<open>src/src/shared/config.ts\<close>: the validated configuration as a record with the schema's field
  names, its defaults, and the orderings between its numbers that \<open>SCHEMA.md\<close> section 4 demands.
  \<open>DATABASE_URL\<close>, \<open>REDIS_URL\<close> and \<open>PORT\<close> only reach the connection libraries: they and the reading of
  the environment are in \<open>Start_Up\<close>.
\<close>

record config =
  NODE_ENV :: string
  WORKER_CONCURRENCY :: int
  HTTP_TIMEOUT_MS :: int
  LOCK_TTL_MS :: int
  LOCK_HEARTBEAT_INTERVAL_MS :: int
  BULLMQ_LOCK_DURATION_MS :: int
  BULLMQ_STALLED_INTERVAL_MS :: int
  RECONCILER_INTERVAL_MS :: int
  RECONCILER_GRACE_SECONDS :: int
  RECONCILER_BATCH_SIZE :: int
  REMOVE_ON_COMPLETE_AGE_S :: int
  REMOVE_ON_COMPLETE_COUNT :: int
  BACKOFF_BASE_MS :: "int list"
  BACKPRESSURE_QUEUE_LIMIT :: int
  QUEUE_DEPTH_CACHE_MS :: int
  CB_FAIL_THRESHOLD :: int
  CB_WINDOW_SECONDS :: int
  CB_OPEN_SECONDS :: int
  CB_PROBE_SECONDS :: int
  RL_MAX_INFLIGHT :: int
  RL_TTL_SECONDS :: int
  RL_RATE_LIMITED_DELAY_MS :: int
  IDEM_TTL_SECONDS :: int
  MAX_PAYLOAD_BYTES :: int
  MAX_RESPONSE_BODY_BYTES :: int
  ALERT_WEBHOOK_URL :: "string option"

definition default_config :: config where
  "default_config = \<lparr>
     NODE_ENV = ''development'',
     WORKER_CONCURRENCY = 50,
     HTTP_TIMEOUT_MS = 10000,
     LOCK_TTL_MS = 60000,
     LOCK_HEARTBEAT_INTERVAL_MS = 20000,
     BULLMQ_LOCK_DURATION_MS = 90000,
     BULLMQ_STALLED_INTERVAL_MS = 30000,
     RECONCILER_INTERVAL_MS = 30000,
     RECONCILER_GRACE_SECONDS = 60,
     RECONCILER_BATCH_SIZE = 500,
     REMOVE_ON_COMPLETE_AGE_S = 3600,
     REMOVE_ON_COMPLETE_COUNT = 10000,
     BACKOFF_BASE_MS = [10000, 30000, 120000, 600000, 3600000],
     BACKPRESSURE_QUEUE_LIMIT = 50000,
     QUEUE_DEPTH_CACHE_MS = 1000,
     CB_FAIL_THRESHOLD = 20,
     CB_WINDOW_SECONDS = 300,
     CB_OPEN_SECONDS = 60,
     CB_PROBE_SECONDS = 10,
     RL_MAX_INFLIGHT = 50,
     RL_TTL_SECONDS = 120,
     RL_RATE_LIMITED_DELAY_MS = 5000,
     IDEM_TTL_SECONDS = 86400,
     MAX_PAYLOAD_BYTES = 256 * 1024,
     MAX_RESPONSE_BODY_BYTES = 4 * 1024,
     ALERT_WEBHOOK_URL = None \<rparr>"

text \<open>
  What \<open>schema.safeParse\<close> guarantees of the numbers the model uses: every
  \<open>z.coerce.number().int().positive()\<close> field is a positive integer, and \<open>s.split(',')\<close> never
  returns an empty list.
\<close>

definition config_ok :: "config \<Rightarrow> bool" where
  "config_ok cfg \<longleftrightarrow>
     0 < WORKER_CONCURRENCY cfg \<and> 0 < HTTP_TIMEOUT_MS cfg \<and> 0 < LOCK_TTL_MS cfg \<and>
     0 < LOCK_HEARTBEAT_INTERVAL_MS cfg \<and> 0 < BULLMQ_LOCK_DURATION_MS cfg \<and>
     0 < BULLMQ_STALLED_INTERVAL_MS cfg \<and> 0 < RECONCILER_INTERVAL_MS cfg \<and>
     0 < RECONCILER_GRACE_SECONDS cfg \<and> 0 < RECONCILER_BATCH_SIZE cfg \<and>
     0 < REMOVE_ON_COMPLETE_AGE_S cfg \<and> 0 < REMOVE_ON_COMPLETE_COUNT cfg \<and>
     BACKOFF_BASE_MS cfg \<noteq> [] \<and>
     0 < BACKPRESSURE_QUEUE_LIMIT cfg \<and> 0 < QUEUE_DEPTH_CACHE_MS cfg \<and>
     0 < CB_FAIL_THRESHOLD cfg \<and> 0 < CB_WINDOW_SECONDS cfg \<and> 0 < CB_OPEN_SECONDS cfg \<and>
     0 < CB_PROBE_SECONDS cfg \<and> 0 < RL_MAX_INFLIGHT cfg \<and> 0 < RL_TTL_SECONDS cfg \<and>
     0 < RL_RATE_LIMITED_DELAY_MS cfg \<and> 0 < IDEM_TTL_SECONDS cfg \<and>
     0 < MAX_PAYLOAD_BYTES cfg \<and> 0 < MAX_RESPONSE_BODY_BYTES cfg"

lemma config_ok_default: "config_ok default_config"
  by (simp add: config_ok_def default_config_def)

lemmas config_okD = config_ok_def [THEN iffD1]

text \<open>The orderings of \<open>SCHEMA.md\<close> section 4 that are about configuration values only.\<close>

definition ordering_ok :: "config \<Rightarrow> bool" where
  "ordering_ok cfg \<longleftrightarrow>
     HTTP_TIMEOUT_MS cfg < LOCK_TTL_MS cfg \<and>
     2 * LOCK_HEARTBEAT_INTERVAL_MS cfg < LOCK_TTL_MS cfg \<and>
     HTTP_TIMEOUT_MS cfg < BULLMQ_LOCK_DURATION_MS cfg \<and>
     CB_OPEN_SECONDS cfg < CB_WINDOW_SECONDS cfg"

lemma ordering_ok_default: "ordering_ok default_config"
  by (simp add: ordering_ok_def default_config_def)

end
