(* ===== verification/Errors.thy ===== *)
theory Errors
  imports Prelude
begin

text \<open>
  \<open>src/src/api/errors.ts\<close> and the error handler of \<open>src/src/api/app.ts\<close>: the exceptions the
  program throws as values of one type, the catalogue of API errors, and the reply each of them
  becomes.
\<close>

record app_error =
  statusCode :: int
  code :: string
  message :: string
  details :: json

text \<open>What a statement of the \<open>pg\<close> driver can throw.\<close>

datatype pg_error =
    Unique_violation string
  | Foreign_key_violation string
  | Numeric_value_out_of_range
  | Invalid_text_representation
  | Invalid_datetime_format
  | Connection_failure

datatype exn =
    AppExn app_error
  | PgExn pg_error
  | RedisExn string
  | ErrorExn string
  | DelayedError
  | BodyTooLarge
  | FastifyValidation json

definition AppError :: "int \<Rightarrow> string \<Rightarrow> string \<Rightarrow> app_error" where
  "AppError st c m = \<lparr>statusCode = st, code = c, message = m, details = JObj []\<rparr>"

definition AppErrorD :: "int \<Rightarrow> string \<Rightarrow> string \<Rightarrow> json \<Rightarrow> app_error" where
  "AppErrorD st c m d = \<lparr>statusCode = st, code = c, message = m, details = d\<rparr>"

definition idempotencyKeyMissing :: app_error where
  "idempotencyKeyMissing =
     AppError 400 ''IDEMPOTENCY_KEY_MISSING'' ''Idempotency-Key header is required''"

text \<open>The three bytes spell the sign for less-or-equal in UTF-8.\<close>

definition idempotencyKeyTooLong :: app_error where
  "idempotencyKeyTooLong =
     AppError 400 ''IDEMPOTENCY_KEY_TOO_LONG''
       (''Idempotency-Key must be '' @ [CHR 0xE2, CHR 0x89, CHR 0xA4] @ '' 255 characters'')"

definition payloadTooLarge :: app_error where
  "payloadTooLarge = AppError 413 ''PAYLOAD_TOO_LARGE'' ''Payload exceeds 256 KB limit''"

definition endpointNotFound :: "string \<Rightarrow> app_error" where
  "endpointNotFound i = AppError 404 ''ENDPOINT_NOT_FOUND'' (''Endpoint '' @ i @ '' not found'')"

definition endpointInactive :: "string \<Rightarrow> app_error" where
  "endpointInactive i = AppError 409 ''ENDPOINT_INACTIVE'' (''Endpoint '' @ i @ '' is not active'')"

definition backpressure :: app_error where
  "backpressure =
     AppError 429 ''BACKPRESSURE'' ''Queue depth exceeds threshold; retry after 5 seconds''"

definition storageUnavailable :: app_error where
  "storageUnavailable = AppError 503 ''STORAGE_UNAVAILABLE'' ''Database unavailable''"

definition deliveryNotFound :: "string \<Rightarrow> app_error" where
  "deliveryNotFound i = AppError 404 ''DELIVERY_NOT_FOUND'' (''Delivery '' @ i @ '' not found'')"

definition notInDlq :: "string \<Rightarrow> app_error" where
  "notInDlq currentStatus =
     AppErrorD 409 ''NOT_IN_DLQ''
       (''Delivery is not in DLQ (current status: '' @ currentStatus @ '')'')
       (JObj [(''current_status'', JStr currentStatus)])"

definition validationError :: "json \<Rightarrow> app_error" where
  "validationError issues =
     AppErrorD 400 ''VALIDATION_ERROR'' ''Request validation failed'' (JObj [(''issues'', issues)])"

lemmas app_error_defs = AppError_def AppErrorD_def idempotencyKeyMissing_def
  idempotencyKeyTooLong_def payloadTooLarge_def endpointNotFound_def endpointInactive_def
  backpressure_def storageUnavailable_def deliveryNotFound_def notInDlq_def validationError_def

subsection \<open>Replies\<close>

record reply =
  rp_code :: int
  rp_headers :: "(string \<times> string) list"
  rp_body :: json

definition error_envelope :: "string \<Rightarrow> string \<Rightarrow> json \<Rightarrow> json" where
  "error_envelope c m d =
     JObj [(''error'', JObj [(''code'', JStr c), (''message'', JStr m), (''details'', d)])]"

definition errorHandler :: "exn \<Rightarrow> reply" where
  "errorHandler err = (case err of
       AppExn e \<Rightarrow>
         \<lparr>rp_code = statusCode e,
          rp_headers = (if statusCode e = 429 then [(''Retry-After'', ''5'')] else []),
          rp_body = error_envelope (code e) (message e) (details e)\<rparr>
     | BodyTooLarge \<Rightarrow>
         \<lparr>rp_code = 413, rp_headers = [],
          rp_body = error_envelope ''PAYLOAD_TOO_LARGE'' ''Payload exceeds 256 KB limit'' (JObj [])\<rparr>
     | FastifyValidation v \<Rightarrow>
         \<lparr>rp_code = 400, rp_headers = [],
          rp_body = error_envelope ''VALIDATION_ERROR'' ''Request validation failed''
            (JObj [(''issues'', v)])\<rparr>
     | _ \<Rightarrow>
         \<lparr>rp_code = 500, rp_headers = [],
          rp_body = error_envelope ''INTERNAL_ERROR'' ''An unexpected error occurred'' (JObj [])\<rparr>)"

text \<open>A handler's result as the client sees it.\<close>

fun respond :: "exn + reply \<Rightarrow> reply" where
  "respond (Inr r) = r"
| "respond (Inl e) = errorHandler e"

end
