(* ===== verification/Database.thy ===== *)
theory Database
  imports Errors
begin

text \<open>
  The PostgreSQL schema of \<open>src/migrations/20260615000000_initial-schema.ts\<close> and the transaction
  wrapper of \<open>src/src/db/pool.ts\<close>. A table is the list of its rows in the order of insertion
  (the order of the identity columns); each kind of INSERT checks the constraints the migration
  declares and fails with the error the driver throws. \<open>CHECK\<close> constraints on text columns are
  the datatypes \<open>status\<close>, \<open>attempt_outcome\<close> and \<open>actor\<close>. Generated ids and \<open>now()\<close> are arguments.
\<close>

datatype status = PENDING | DELIVERING | DELIVERED | FAILED | DLQ

datatype attempt_outcome = SUCCESS | HTTP_ERROR | TIMEOUT | CONN_ERROR | CIRCUIT_OPEN | LOCK_LOST

datatype actor = Worker | Api | Reconciler | Manual_retry

primrec status_name :: "status \<Rightarrow> string" where
  "status_name PENDING = ''PENDING''"
| "status_name DELIVERING = ''DELIVERING''"
| "status_name DELIVERED = ''DELIVERED''"
| "status_name FAILED = ''FAILED''"
| "status_name DLQ = ''DLQ''"

record endpoint_row =
  ep_id :: string
  ep_client_id :: string
  ep_url :: string
  ep_signing_secret :: string
  ep_is_active :: bool
  ep_created_at :: ts

record event_row =
  ev_id :: string
  ev_client_id :: string
  ev_idempotency_key :: string
  ev_event_type :: string
  ev_payload :: json
  ev_received_at :: ts

record delivery_row =
  d_id :: string
  d_event_id :: string
  d_endpoint_id :: string
  d_status :: status
  d_attempt_count :: int
  d_next_attempt_at :: "ts option"
  d_enqueued :: bool
  d_created_at :: ts
  d_updated_at :: ts

record attempt_row =
  a_delivery_id :: string
  a_attempt_number :: int
  a_outcome :: attempt_outcome
  a_http_status :: "int option"
  a_response_body :: "string option"
  a_error_message :: "string option"
  a_latency_ms :: int
  a_started_at :: ts
  a_finished_at :: ts

record transition_row =
  t_delivery_id :: string
  t_from_status :: "status option"
  t_to_status :: status
  t_reason :: "string option"
  t_actor :: actor
  t_created_at :: ts

record db =
  endpoints :: "endpoint_row list"
  events :: "event_row list"
  deliveries :: "delivery_row list"
  delivery_attempts :: "attempt_row list"
  delivery_transitions :: "transition_row list"

definition empty_db :: db where
  "empty_db = \<lparr>endpoints = [], events = [], deliveries = [], delivery_attempts = [],
     delivery_transitions = []\<rparr>"

subsection \<open>Constraint-checked INSERTs\<close>

text \<open>\<open>attempt_number\<close> and \<open>attempt_count\<close> are \<open>int\<close> columns: 4 bytes, out of range is an error.\<close>

definition int4_max :: int where
  "int4_max = 2147483647"

definition insert_endpoint :: "endpoint_row \<Rightarrow> db \<Rightarrow> exn + db" where
  "insert_endpoint row s =
     (if ep_id row \<in> ep_id ` set (endpoints s) then Inl (PgExn (Unique_violation ''endpoints_pkey''))
      else Inr (s\<lparr>endpoints := endpoints s @ [row]\<rparr>))"

text \<open>\<open>ON CONFLICT (client_id, idempotency_key) DO NOTHING RETURNING id\<close>: no row on a conflict.\<close>

definition insert_event_on_conflict :: "event_row \<Rightarrow> db \<Rightarrow> exn + (string option \<times> db)" where
  "insert_event_on_conflict row s =
     (if \<exists>e \<in> set (events s). ev_client_id e = ev_client_id row \<and>
           ev_idempotency_key e = ev_idempotency_key row
      then Inr (None, s)
      else if ev_id row \<in> ev_id ` set (events s) then Inl (PgExn (Unique_violation ''events_pkey''))
      else Inr (Some (ev_id row), s\<lparr>events := events s @ [row]\<rparr>))"

definition insert_delivery :: "delivery_row \<Rightarrow> db \<Rightarrow> exn + db" where
  "insert_delivery row s =
     (if d_id row \<in> d_id ` set (deliveries s) then Inl (PgExn (Unique_violation ''deliveries_pkey''))
      else if \<exists>d \<in> set (deliveries s). d_event_id d = d_event_id row \<and>
                d_endpoint_id d = d_endpoint_id row
      then Inl (PgExn (Unique_violation ''uq_deliveries_event_endpoint''))
      else if d_event_id row \<notin> ev_id ` set (events s)
      then Inl (PgExn (Foreign_key_violation ''deliveries_event_id_fkey''))
      else if d_endpoint_id row \<notin> ep_id ` set (endpoints s)
      then Inl (PgExn (Foreign_key_violation ''deliveries_endpoint_id_fkey''))
      else Inr (s\<lparr>deliveries := deliveries s @ [row]\<rparr>))"

definition insert_attempt :: "attempt_row \<Rightarrow> db \<Rightarrow> exn + db" where
  "insert_attempt row s =
     (if int4_max < a_attempt_number row then Inl (PgExn Numeric_value_out_of_range)
      else if \<exists>a \<in> set (delivery_attempts s). a_delivery_id a = a_delivery_id row \<and>
                a_attempt_number a = a_attempt_number row
      then Inl (PgExn (Unique_violation ''uq_attempts''))
      else if a_delivery_id row \<notin> d_id ` set (deliveries s)
      then Inl (PgExn (Foreign_key_violation ''delivery_attempts_delivery_id_fkey''))
      else Inr (s\<lparr>delivery_attempts := delivery_attempts s @ [row]\<rparr>))"

definition insert_transition :: "transition_row \<Rightarrow> db \<Rightarrow> exn + db" where
  "insert_transition row s =
     (if t_delivery_id row \<notin> d_id ` set (deliveries s)
      then Inl (PgExn (Foreign_key_violation ''delivery_transitions_delivery_id_fkey''))
      else Inr (s\<lparr>delivery_transitions := delivery_transitions s @ [row]\<rparr>))"

lemmas insert_defs = insert_endpoint_def insert_event_on_conflict_def insert_delivery_def
  insert_attempt_def insert_transition_def

text \<open>\<open>UPDATE deliveries SET ... WHERE id = $1\<close>: one row or none, never an error by itself.\<close>

definition update_delivery :: "string \<Rightarrow> (delivery_row \<Rightarrow> delivery_row) \<Rightarrow> db \<Rightarrow> db" where
  "update_delivery i f s = s\<lparr>deliveries := upd_where (\<lambda>d. d_id d = i) f (deliveries s)\<rparr>"

abbreviation find_delivery :: "db \<Rightarrow> string \<Rightarrow> delivery_row option" where
  "find_delivery s i \<equiv> find_row d_id i (deliveries s)"

abbreviation find_endpoint :: "db \<Rightarrow> string \<Rightarrow> endpoint_row option" where
  "find_endpoint s i \<equiv> find_row ep_id i (endpoints s)"

abbreviation find_event :: "db \<Rightarrow> string \<Rightarrow> event_row option" where
  "find_event s i \<equiv> find_row ev_id i (events s)"

subsection \<open>Transactions\<close>

text \<open>
  The body of a transaction threads the database and stops at the first error. What the network
  does to the transaction is an argument: the connection can be missing, the COMMIT can fail with
  nothing applied, or the COMMIT can be applied and its acknowledgement lost. In every failing case
  \<open>withTx\<close> throws.
\<close>

type_synonym 'a tx = "db \<Rightarrow> exn + ('a \<times> db)"

datatype tx_fate = Tx_ok | Tx_no_connection | Tx_commit_failed | Tx_ack_lost

definition tx_bind :: "'a tx \<Rightarrow> ('a \<Rightarrow> 'b tx) \<Rightarrow> 'b tx" where
  "tx_bind m k = (\<lambda>s. case m s of Inl e \<Rightarrow> Inl e | Inr (a, s') \<Rightarrow> k a s')"

definition tx_stmt :: "(db \<Rightarrow> exn + db) \<Rightarrow> unit tx" where
  "tx_stmt f = (\<lambda>s. case f s of Inl e \<Rightarrow> Inl e | Inr s' \<Rightarrow> Inr ((), s'))"

definition tx_return :: "'a \<Rightarrow> 'a tx" where
  "tx_return a = (\<lambda>s. Inr (a, s))"

lemmas tx_defs = tx_bind_def tx_stmt_def tx_return_def

fun withTx :: "tx_fate \<Rightarrow> 'a tx \<Rightarrow> db \<Rightarrow> (exn + 'a) \<times> db" where
  "withTx Tx_ok fn s = (case fn s of Inl e \<Rightarrow> (Inl e, s) | Inr (a, s') \<Rightarrow> (Inr a, s'))"
| "withTx Tx_no_connection fn s = (Inl (PgExn Connection_failure), s)"
| "withTx Tx_commit_failed fn s =
     (case fn s of Inl e \<Rightarrow> (Inl e, s) | Inr _ \<Rightarrow> (Inl (PgExn Connection_failure), s))"
| "withTx Tx_ack_lost fn s =
     (case fn s of Inl e \<Rightarrow> (Inl e, s) | Inr (a, s') \<Rightarrow> (Inl (PgExn Connection_failure), s'))"

text \<open>
  All or nothing: whatever the fate, the database is as before or as the complete body leaves it,
  and a normal return means the body was applied.
\<close>

lemma withTx_cases:
  "snd (withTx fate fn s) = s \<or> (\<exists>a. fn s = Inr (a, snd (withTx fate fn s)))"
  by (cases fate) (auto split: sum.splits)

lemma withTx_Inr: "withTx fate fn s = (Inr a, s') \<Longrightarrow> fate = Tx_ok \<and> fn s = Inr (a, s')"
  by (cases fate) (auto split: sum.splits)

lemma withTx_error: "fn s = Inl e \<Longrightarrow> withTx fate fn s = (Inl e, s) \<or>
    withTx fate fn s = (Inl (PgExn Connection_failure), s)"
  by (cases fate) auto

lemma withTx_invariant:
  assumes "P s" and "\<And>a s'. fn s = Inr (a, s') \<Longrightarrow> P s'"
  shows "P (snd (withTx fate fn s))"
  using withTx_cases [of fate fn s] assms by metis

subsection \<open>Reads after updates\<close>

lemma update_delivery_simps [simp]:
  "endpoints (update_delivery i f s) = endpoints s"
  "events (update_delivery i f s) = events s"
  "delivery_attempts (update_delivery i f s) = delivery_attempts s"
  "delivery_transitions (update_delivery i f s) = delivery_transitions s"
  by (simp_all add: update_delivery_def)

lemma find_delivery_update [table_simps]:
  assumes "\<And>d. d_id (f d) = d_id d"
  shows "find_delivery (update_delivery i f s) k =
    (if k = i then map_option f (find_delivery s k) else find_delivery s k)"
proof -
  have "find_delivery (update_delivery i f s) k =
      map_option (\<lambda>d. if d_id d = i then f d else d) (find_delivery s k)"
    using assms by (simp add: update_delivery_def find_row_upd_where)
  then show ?thesis
    by (cases "find_delivery s k") (auto dest: find_row_Some)
qed

lemma ids_update_delivery [simp]:
  assumes "\<And>d. d_id (f d) = d_id d"
  shows "map d_id (deliveries (update_delivery i f s)) = map d_id (deliveries s)"
  using assms by (simp add: update_delivery_def map_key_upd_where)

lemma id_set_update_delivery [simp]:
  assumes "\<And>d. d_id (f d) = d_id d"
  shows "d_id ` set (deliveries (update_delivery i f s)) = d_id ` set (deliveries s)"
  using ids_update_delivery [OF assms, of i s] by (metis list.set_map)

end
