(* ===== verification/Outbound.thy ===== *)
theory Outbound
  imports Complex_Main Js_Lib Config Database
begin

text \<open>
  What leaves the worker: the retry backoff (\<open>src/src/queue/backoff.ts\<close>), the signature
  (\<open>src/src/worker/signature.ts\<close>), the headers (\<open>src/src/shared/headers.ts\<close>) and the HTTP client
  (\<open>src/src/worker/httpClient.ts\<close>). \<open>Math.random()\<close>, the HMAC and undici's \<open>request\<close> are arguments.
\<close>

subsection \<open>Backoff\<close>

text \<open>\<open>r\<close> is the value of \<open>Math.random()\<close>; the arithmetic is exact instead of floating-point.\<close>

definition webhookBackoff :: "config \<Rightarrow> rat \<Rightarrow> int \<Rightarrow> int" where
  "webhookBackoff cfg r attemptsMade =
     (let base = (case js_index (BACKOFF_BASE_MS cfg) (attemptsMade - 1) of
                    Some b \<Rightarrow> b | None \<Rightarrow> last (BACKOFF_BASE_MS cfg))
      in \<lfloor>of_int base / 2 + r * (of_int base / 2)\<rfloor>)"

definition backoff_base :: "config \<Rightarrow> int \<Rightarrow> int" where
  "backoff_base cfg n = BACKOFF_BASE_MS cfg !
     (if 1 \<le> n \<and> n \<le> int (length (BACKOFF_BASE_MS cfg)) then nat (n - 1)
      else length (BACKOFF_BASE_MS cfg) - 1)"

lemma webhookBackoff_base:
  assumes "BACKOFF_BASE_MS cfg \<noteq> []"
  shows "webhookBackoff cfg r n = \<lfloor>of_int (backoff_base cfg n) / 2 + r * (of_int (backoff_base cfg n) / 2)\<rfloor>"
  using assms by (auto simp: webhookBackoff_def backoff_base_def js_index_def last_conv_nth Let_def)

subsection \<open>Signature\<close>

type_synonym hmac = "string \<Rightarrow> string \<Rightarrow> string"

definition signedPayload :: "int \<Rightarrow> string \<Rightarrow> string" where
  "signedPayload timestampSeconds rawBody = string_of_int timestampSeconds @ ''.'' @ rawBody"

definition sign :: "hmac \<Rightarrow> string \<Rightarrow> int \<Rightarrow> string \<Rightarrow> string" where
  "sign hmac_sha256 secret timestampSeconds rawBody =
     to_hex (hmac_sha256 secret (signedPayload timestampSeconds rawBody))"

definition verify :: "hmac \<Rightarrow> string \<Rightarrow> int \<Rightarrow> string \<Rightarrow> string \<Rightarrow> bool" where
  "verify hmac_sha256 secret timestampSeconds rawBody signatureHex =
     (let expected = buffer_from_hex (sign hmac_sha256 secret timestampSeconds rawBody);
          actual = buffer_from_hex signatureHex
      in if length expected \<noteq> length actual then False else expected = actual)"

lemma verify_iff: "verify hm secret t body sig \<longleftrightarrow> buffer_from_hex sig = hm secret (signedPayload t body)"
  by (auto simp: verify_def sign_def Let_def)

lemma signedPayload_inject: "signedPayload t b = signedPayload t' b' \<longleftrightarrow> t = t' \<and> b = b'"
proof
  assume eq: "signedPayload t b = signedPayload t' b'"
  have nodot: "CHR ''.'' \<notin> set (string_of_int n)" for n
    by (auto simp: string_of_int_def is_digit_def dest: string_of_nat_no_char [THEN notE, rotated])
  from eq have "string_of_int t @ CHR ''.'' # b = string_of_int t' @ CHR ''.'' # b'"
    by (simp add: signedPayload_def)
  from append_sep_inject [OF this nodot nodot] show "t = t' \<and> b = b'" by simp
qed simp

subsection \<open>Headers\<close>

definition buildWebhookHeaders :: "string \<Rightarrow> int \<Rightarrow> int \<Rightarrow> string \<Rightarrow> (string \<times> string) list" where
  "buildWebhookHeaders deliveryId attempt timestampSeconds signatureHex =
     [(''content-type'', ''application/json''),
      (''x-webhook-id'', deliveryId),
      (''x-webhook-attempt'', string_of_int attempt),
      (''x-webhook-timestamp'', string_of_int timestampSeconds),
      (''x-webhook-signature'', ''sha256='' @ signatureHex)]"

subsection \<open>HTTP client\<close>

record http_request =
  hq_url :: string
  hq_headers :: "(string \<times> string) list"
  hq_body :: string

text \<open>What awaiting \<open>request(...)\<close> and the body text does: an answer, an \<open>Error\<close>, or another throw.\<close>

datatype http_result = Response int string | Threw_error string string | Threw_other string

datatype deliver_error_kind = Kind_timeout | Kind_conn_error

record deliver_result =
  dr_status :: int
  dr_body :: string

datatype deliver_outcome = Delivered_with deliver_result | Deliver_error deliver_error_kind string

definition classify :: "http_result \<Rightarrow> deliver_error_kind" where
  "classify err = (case err of
     Threw_error name msg \<Rightarrow>
       if name = ''AbortError'' \<or> str_includes msg ''UND_ERR_HEADERS_TIMEOUT'' \<or>
          str_includes msg ''UND_ERR_BODY_TIMEOUT'' \<or> str_includes msg ''UND_ERR_CONNECT_TIMEOUT''
       then Kind_timeout else Kind_conn_error
   | _ \<Rightarrow> Kind_conn_error)"

definition deliver :: "config \<Rightarrow> http_result \<Rightarrow> deliver_outcome" where
  "deliver cfg res = (case res of
     Response status raw \<Rightarrow>
       Delivered_with \<lparr>dr_status = status, dr_body = take (nat (MAX_RESPONSE_BODY_BYTES cfg)) raw\<rparr>
   | Threw_error name msg \<Rightarrow> Deliver_error (classify res) msg
   | Threw_other s \<Rightarrow> Deliver_error (classify res) s)"

subsection \<open>Properties\<close>

text \<open>
  Equal jitter. The delay after attempt \<open>n\<close> is at least half and at most the whole of the
  \<open>n\<close>-th base delay, and attempts beyond the table use its last entry.
\<close>

lemma backoff_bounds:
  assumes "BACKOFF_BASE_MS cfg \<noteq> []" and "\<forall>b \<in> set (BACKOFF_BASE_MS cfg). 0 \<le> b"
    and "0 \<le> r" and "r < 1" and "1 \<le> n"
    and "base = BACKOFF_BASE_MS cfg ! min (nat n - 1) (length (BACKOFF_BASE_MS cfg) - 1)"
  shows "base div 2 \<le> webhookBackoff cfg r n \<and> webhookBackoff cfg r n \<le> base"
proof -
  have len: "0 < length (BACKOFF_BASE_MS cfg)" using assms(1) by simp
  have base: "backoff_base cfg n = base"
    using assms(5,6) len by (auto simp: backoff_base_def min_def nat_diff_distrib' nat_le_iff)
  have "min (nat n - 1) (length (BACKOFF_BASE_MS cfg) - 1) < length (BACKOFF_BASE_MS cfg)" using len by linarith
  then have nonneg: "0 \<le> base" using assms(2,6) nth_mem by blast
  have eq: "webhookBackoff cfg r n = \<lfloor>of_int base / 2 + r * (of_int base / 2)\<rfloor>"
    using webhookBackoff_base [OF assms(1), of r n] base by simp
  have half: "0 \<le> r * (of_int base / 2)" "r * (of_int base / 2) \<le> of_int base / 2"
    using assms(3,4) nonneg by (simp_all add: mult_left_le_one_le)
  have "\<lfloor>of_int base / (2 :: rat)\<rfloor> = base div 2" by (simp add: floor_divide_of_int_eq [of base 2, simplified])
  moreover have "\<lfloor>of_int base / (2 :: rat)\<rfloor> \<le> \<lfloor>of_int base / 2 + r * (of_int base / 2)\<rfloor>"
    using half by (intro floor_mono) simp
  moreover have "\<lfloor>of_int base / 2 + r * (of_int base / 2)\<rfloor> \<le> \<lfloor>of_int base :: rat\<rfloor>"
    using half by (intro floor_mono) simp
  ultimately show ?thesis by (simp add: eq)
qed



end
