(* ===== verification/Bull_Queue.thy ===== *)
theory Bull_Queue
  imports Errors
begin

text \<open>
  BullMQ is a library the sources only call, so a queue is a parameter: \<open>queue_api\<close> has the two
  operations the program uses of a \<open>Queue\<close> (\<open>add\<close> and \<open>getJobCounts\<close>), and the locale
  \<open>bull_queue\<close> states what its documentation promises of \<open>add\<close>: a job id that the queue already
  knows, in whatever state the job is, makes \<open>add\<close> a silent no-op; a new id stores a waiting job
  with no attempts made. \<open>mem_queue\<close> is a concrete queue that satisfies it.
\<close>

datatype job_state = Waiting | Delayed | Active | Completed | Failed_job

record job =
  jb_delivery_id :: string
  jb_state :: job_state
  jb_attempts_made :: nat

record 'q queue_api =
  q_add :: "'q \<Rightarrow> string \<Rightarrow> string \<Rightarrow> string \<Rightarrow> exn + 'q"
  q_counts :: "'q \<Rightarrow> job_state \<Rightarrow> nat option"

locale bull_queue =
  fixes Q :: "'q queue_api"
    and jobs :: "'q \<Rightarrow> string \<Rightarrow> job option"
  assumes add_known:
      "q_add Q q name d jid = Inr q' \<Longrightarrow> jobs q jid \<noteq> None \<Longrightarrow> jobs q' = jobs q"
    and add_new:
      "q_add Q q name d jid = Inr q' \<Longrightarrow> jobs q jid = None \<Longrightarrow>
       jobs q' = (jobs q)(jid \<mapsto> \<lparr>jb_delivery_id = d, jb_state = Waiting, jb_attempts_made = 0\<rparr>)"
begin

lemma add_keeps:
  assumes "q_add Q q name d jid = Inr q'" and "jobs q k = Some j"
  shows "jobs q' k = Some j"
  using assms add_known [of q name d jid q'] add_new [of q name d jid q']
  by (cases "jobs q jid") auto

lemma add_present: "q_add Q q name d jid = Inr q' \<Longrightarrow> jobs q' jid \<noteq> None"
  using add_known [of q name d jid q'] add_new [of q name d jid q'] by (cases "jobs q jid") auto

lemma add_only: "q_add Q q name d jid = Inr q' \<Longrightarrow> k \<noteq> jid \<Longrightarrow> jobs q' k = jobs q k"
  using add_known [of q name d jid q'] add_new [of q name d jid q'] by (cases "jobs q jid") auto

text \<open>The API and the reconciler can race \<open>add\<close> for one id: the second one changes nothing.\<close>

lemma add_idempotent:
  assumes "q_add Q q name d jid = Inr q'" and "q_add Q q' name d' jid = Inr q''"
  shows "jobs q'' = jobs q'"
  using add_known [OF assms(2)] add_present [OF assms(1)] by simp

end

subsection \<open>A queue in memory\<close>

type_synonym mem_queue_state = "(string \<times> job) list"

definition mem_queue_add ::
  "mem_queue_state \<Rightarrow> string \<Rightarrow> string \<Rightarrow> string \<Rightarrow> exn + mem_queue_state" where
  "mem_queue_add q name d jid =
     (case map_of q jid of
        Some _ \<Rightarrow> Inr q
      | None \<Rightarrow> Inr ((jid, \<lparr>jb_delivery_id = d, jb_state = Waiting, jb_attempts_made = 0\<rparr>) # q))"

definition mem_queue :: "mem_queue_state queue_api" where
  "mem_queue = \<lparr>q_add = mem_queue_add,
     q_counts = (\<lambda>q st. Some (length (filter (\<lambda>(_, j). jb_state j = st) q)))\<rparr>"

interpretation mem_q: bull_queue mem_queue map_of
  by unfold_locales (auto simp: mem_queue_def mem_queue_add_def split: option.splits)

end
