(* ===== verification/Deliveries_Repo.thy ===== *)
theory Deliveries_Repo
  imports Database Config Bull_Queue
begin

text \<open>
  \<open>src/src/db/attempts.repo.ts\<close>, the write path and the worker's read of
  \<open>src/src/db/deliveries.repo.ts\<close>, and \<open>src/src/queue/enqueue.ts\<close>. \<open>now\<close> is the transaction's
  \<open>now()\<close>, \<open>fate\<close> what the network does to the transaction.
\<close>

subsection \<open>\<open>recordAttempt\<close>\<close>

record record_attempt_input =
  ra_deliveryId :: string
  ra_attemptNumber :: int
  ra_outcome :: attempt_outcome
  ra_httpStatus :: "int option"
  ra_responseBody :: "string option"
  ra_errorMessage :: "string option"
  ra_latencyMs :: int
  ra_startedAt :: ms
  ra_finishedAt :: ms
  ra_fromStatus :: status
  ra_toStatus :: status
  ra_reason :: string
  ra_nextAttemptAt :: "ms option"

definition attempt_row_of :: "record_attempt_input \<Rightarrow> attempt_row" where
  "attempt_row_of input = \<lparr>
     a_delivery_id = ra_deliveryId input,
     a_attempt_number = ra_attemptNumber input,
     a_outcome = ra_outcome input,
     a_http_status = ra_httpStatus input,
     a_response_body = ra_responseBody input,
     a_error_message = ra_errorMessage input,
     a_latency_ms = ra_latencyMs input,
     a_started_at = ts_of_date (ra_startedAt input),
     a_finished_at = ts_of_date (ra_finishedAt input)\<rparr>"

text \<open>\<open>SET attempt_count = attempt_count + 1\<close> is out of range on a full \<open>int\<close> column.\<close>

definition update_after_attempt :: "ts \<Rightarrow> record_attempt_input \<Rightarrow> db \<Rightarrow> exn + db" where
  "update_after_attempt now input s =
     (case find_delivery s (ra_deliveryId input) of
        Some d \<Rightarrow>
          if int4_max \<le> d_attempt_count d then Inl (PgExn Numeric_value_out_of_range)
          else Inr (update_delivery (ra_deliveryId input)
            (\<lambda>d. d\<lparr>d_status := ra_toStatus input, d_attempt_count := d_attempt_count d + 1,
                   d_next_attempt_at := map_option ts_of_date (ra_nextAttemptAt input),
                   d_updated_at := now\<rparr>) s)
      | None \<Rightarrow> Inr s)"

definition recordAttempt_tx :: "ts \<Rightarrow> record_attempt_input \<Rightarrow> unit tx" where
  "recordAttempt_tx now input =
     tx_bind (tx_stmt (insert_attempt (attempt_row_of input))) (\<lambda>_.
     tx_bind (tx_stmt (update_after_attempt now input)) (\<lambda>_.
     tx_stmt (insert_transition
       \<lparr>t_delivery_id = ra_deliveryId input, t_from_status = Some (ra_fromStatus input),
        t_to_status = ra_toStatus input, t_reason = Some (ra_reason input), t_actor = Worker,
        t_created_at = now\<rparr>)))"

definition recordAttempt :: "tx_fate \<Rightarrow> ts \<Rightarrow> record_attempt_input \<Rightarrow> db \<Rightarrow> (exn + unit) \<times> db" where
  "recordAttempt fate now input s = withTx fate (recordAttempt_tx now input) s"

subsection \<open>\<open>getForDelivery\<close>\<close>

record delivery_for_worker =
  w_id :: string
  w_status :: status
  w_attemptCount :: int
  w_endpointId :: string
  w_endpointUrl :: string
  w_signingSecret :: string
  w_endpointActive :: bool
  w_eventId :: string
  w_eventType :: string
  w_payload :: json
  w_receivedAt :: ms

definition getForDelivery :: "db \<Rightarrow> string \<Rightarrow> delivery_for_worker option" where
  "getForDelivery s i =
     (case find_delivery s i of None \<Rightarrow> None | Some d \<Rightarrow>
     (case find_endpoint s (d_endpoint_id d) of None \<Rightarrow> None | Some e \<Rightarrow>
     (case find_event s (d_event_id d) of None \<Rightarrow> None | Some ev \<Rightarrow>
        Some \<lparr>w_id = d_id d, w_status = d_status d, w_attemptCount = d_attempt_count d,
              w_endpointId = ep_id e, w_endpointUrl = ep_url e,
              w_signingSecret = ep_signing_secret e, w_endpointActive = ep_is_active e,
              w_eventId = ev_id ev, w_eventType = ev_event_type ev, w_payload = ev_payload ev,
              w_receivedAt = date_of_ts (ev_received_at ev)\<rparr>)))"

subsection \<open>\<open>transition\<close>\<close>

definition transition_tx ::
  "ts \<Rightarrow> string \<Rightarrow> status \<Rightarrow> status \<Rightarrow> actor \<Rightarrow> string \<Rightarrow> unit tx" where
  "transition_tx now deliveryId fromStatus toStatus act reason =
     tx_bind (tx_stmt (\<lambda>s. Inr (update_delivery deliveryId
        (\<lambda>d. d\<lparr>d_status := toStatus, d_updated_at := now\<rparr>) s))) (\<lambda>_.
     tx_stmt (insert_transition
       \<lparr>t_delivery_id = deliveryId, t_from_status = Some fromStatus, t_to_status = toStatus,
        t_reason = Some reason, t_actor = act, t_created_at = now\<rparr>))"

definition transition ::
  "tx_fate \<Rightarrow> ts \<Rightarrow> string \<Rightarrow> status \<Rightarrow> status \<Rightarrow> actor \<Rightarrow> string \<Rightarrow> db \<Rightarrow> (exn + unit) \<times> db" where
  "transition fate now deliveryId fromStatus toStatus act reason s =
     withTx fate (transition_tx now deliveryId fromStatus toStatus act reason) s"

subsection \<open>\<open>claimUnenqueued\<close>\<close>

text \<open>
  The rows the sweep selects. The query has no \<open>ORDER BY\<close>, and \<open>SKIP LOCKED\<close> leaves out the rows
  another transaction holds: \<open>scan\<close> lists the ids of the rows the server visits and can lock, in the
  order in which it visits them, and each row once.
\<close>

definition needs_recovery :: "config \<Rightarrow> ts \<Rightarrow> delivery_row \<Rightarrow> bool" where
  "needs_recovery cfg now d \<longleftrightarrow>
     (d_status d = PENDING \<or>
      d_status d = FAILED \<and> (case d_next_attempt_at d of None \<Rightarrow> False | Some t \<Rightarrow> t < now)) \<and>
     d_updated_at d < now - RECONCILER_GRACE_SECONDS cfg * 1000000"

definition due :: "config \<Rightarrow> ts \<Rightarrow> db \<Rightarrow> string \<Rightarrow> bool" where
  "due cfg now s i = (case find_delivery s i of None \<Rightarrow> False | Some d \<Rightarrow> needs_recovery cfg now d)"

definition claim_select :: "config \<Rightarrow> ts \<Rightarrow> string list \<Rightarrow> nat \<Rightarrow> db \<Rightarrow> string list" where
  "claim_select cfg now scan limit s = take limit (filter (due cfg now s) (remdups scan))"

definition mark_enqueued :: "ts \<Rightarrow> string \<Rightarrow> db \<Rightarrow> db" where
  "mark_enqueued now i s = update_delivery i (\<lambda>d. d\<lparr>d_enqueued := True, d_updated_at := now\<rparr>) s"

text \<open>
  The loop adds a job and marks its row, one id after the other. Jobs already added stay in the
  queue when a later \<open>add\<close> throws; the row updates are rolled back with the transaction.
\<close>

fun claim_loop :: "'q queue_api \<Rightarrow> ts \<Rightarrow> string list \<Rightarrow> 'q \<Rightarrow> db \<Rightarrow> (exn + unit) \<times> 'q \<times> db" where
  "claim_loop Q now [] q s = (Inr (), q, s)"
| "claim_loop Q now (i # is) q s =
     (case q_add Q q ''deliver'' i i of
        Inl e \<Rightarrow> (Inl e, q, s)
      | Inr q' \<Rightarrow> claim_loop Q now is q' (mark_enqueued now i s))"

definition claimUnenqueued ::
  "config \<Rightarrow> 'q queue_api \<Rightarrow> tx_fate \<Rightarrow> ts \<Rightarrow> string list \<Rightarrow> nat \<Rightarrow> 'q \<Rightarrow> db \<Rightarrow>
   (exn + nat) \<times> 'q \<times> db" where
  "claimUnenqueued cfg Q fate now scan limit q s =
     (if fate = Tx_no_connection then (Inl (PgExn Connection_failure), q, s) else
      let is = claim_select cfg now scan limit s;
          (r, q', s') = claim_loop Q now is q s
      in case withTx fate (\<lambda>_. case r of Inl e \<Rightarrow> Inl e | Inr _ \<Rightarrow> Inr (length is, s')) s of
           (r', s'') \<Rightarrow> (r', q', s''))"

subsection \<open>\<open>retryFromDlq\<close>\<close>

datatype retry_result = Retry_ok | Retry_not_found | Retry_not_in_dlq status

text \<open>\<open>uuid_in\<close> is PostgreSQL's reading of a text as a \<open>uuid\<close>; a malformed text makes the query throw.\<close>

definition retryFromDlq_tx :: "(string \<Rightarrow> string option) \<Rightarrow> ts \<Rightarrow> string \<Rightarrow> retry_result tx" where
  "retryFromDlq_tx uuid_in now raw = (\<lambda>s.
     case uuid_in raw of
       None \<Rightarrow> Inl (PgExn Invalid_text_representation)
     | Some i \<Rightarrow>
         (case find_delivery s i of
            None \<Rightarrow> Inr (Retry_not_found, s)
          | Some d \<Rightarrow>
              if d_status d \<noteq> DLQ then Inr (Retry_not_in_dlq (d_status d), s)
              else tx_bind (tx_stmt (\<lambda>s. Inr (update_delivery i
                     (\<lambda>d. d\<lparr>d_status := PENDING, d_updated_at := now\<rparr>) s))) (\<lambda>_.
                   tx_bind (tx_stmt (insert_transition
                     \<lparr>t_delivery_id = i, t_from_status = Some DLQ, t_to_status = PENDING,
                      t_reason = Some ''manual_retry'', t_actor = Manual_retry,
                      t_created_at = now\<rparr>)) (\<lambda>_.
                   tx_return Retry_ok)) s))"

definition retryFromDlq ::
  "(string \<Rightarrow> string option) \<Rightarrow> tx_fate \<Rightarrow> ts \<Rightarrow> string \<Rightarrow> db \<Rightarrow> (exn + retry_result) \<times> db" where
  "retryFromDlq uuid_in fate now raw s = withTx fate (retryFromDlq_tx uuid_in now raw) s"

subsection \<open>\<open>enqueueDelivery\<close>\<close>

definition enqueueDelivery ::
  "'q queue_api \<Rightarrow> tx_fate \<Rightarrow> ts \<Rightarrow> string \<Rightarrow> 'q \<Rightarrow> db \<Rightarrow> (exn + unit) \<times> 'q \<times> db" where
  "enqueueDelivery Q fate now deliveryId q s =
     (case q_add Q q ''deliver'' deliveryId deliveryId of
        Inl e \<Rightarrow> (Inl e, q, s)
      | Inr q' \<Rightarrow>
          (case withTx fate (\<lambda>s. Inr ((), mark_enqueued now deliveryId s)) s of
             (r, s') \<Rightarrow> (r, q', s')))"

lemmas repo_tx_defs = recordAttempt_tx_def transition_tx_def retryFromDlq_tx_def tx_defs

end
