(* ===== verification/Redis_Service.thy ===== *)
theory Redis_Service
  imports Errors
begin

text \<open>
  Redis is a service, so it is a parameter: \<open>redis_api\<close> has the commands the sources send, over an
  abstract server state. The locale \<open>redis_service\<close> states their documented effect on the keyspace
  (\<open>ks\<close>: key to value and expiry time) and on the script cache (\<open>scripts\<close>). The Lua scripts of
  \<open>src/src/redis/scripts/\<close> are translated over the same commands (\<open>lua_run\<close>), and
  \<open>src/src/redis/scripts.ts\<close> (\<open>LoadedScript.eval\<close> with its NOSCRIPT reload) on top of them.
  \<open>mem_redis\<close> is a concrete server that satisfies the locale.
\<close>

datatype redis_value = RString string | RHash "string \<Rightarrow> string option"

type_synonym entry = "redis_value \<times> ms option"
type_synonym keyspace = "string \<Rightarrow> entry option"

definition live :: "keyspace \<Rightarrow> ms \<Rightarrow> string \<Rightarrow> redis_value option" where
  "live m now k = (case m k of
       None \<Rightarrow> None
     | Some (v, None) \<Rightarrow> Some v
     | Some (v, Some d) \<Rightarrow> if now < d then Some v else None)"

text \<open>The three script files of \<open>src/src/redis/scripts\<close>, by name.\<close>

datatype lua_script = Release_lock | Extend_lock | Token_bucket

record 'r redis_api =
  rd_get :: "'r \<Rightarrow> ms \<Rightarrow> string \<Rightarrow> string option"
  rd_exists :: "'r \<Rightarrow> ms \<Rightarrow> string \<Rightarrow> int"
  rd_set :: "'r \<Rightarrow> ms \<Rightarrow> string \<Rightarrow> string \<Rightarrow> ms \<Rightarrow> 'r"
  rd_set_nx :: "'r \<Rightarrow> ms \<Rightarrow> string \<Rightarrow> string \<Rightarrow> ms \<Rightarrow> bool \<times> 'r"
  rd_del :: "'r \<Rightarrow> ms \<Rightarrow> string list \<Rightarrow> int \<times> 'r"
  rd_incr :: "'r \<Rightarrow> ms \<Rightarrow> string \<Rightarrow> int \<times> 'r"
  rd_pexpire :: "'r \<Rightarrow> ms \<Rightarrow> string \<Rightarrow> ms \<Rightarrow> int \<times> 'r"
  rd_hget :: "'r \<Rightarrow> ms \<Rightarrow> string \<Rightarrow> string \<Rightarrow> string option"
  rd_hset :: "'r \<Rightarrow> ms \<Rightarrow> string \<Rightarrow> string \<Rightarrow> string \<Rightarrow> 'r"
  rd_hincrby :: "'r \<Rightarrow> ms \<Rightarrow> string \<Rightarrow> string \<Rightarrow> int \<Rightarrow> int \<times> 'r"
  rd_script_load :: "'r \<Rightarrow> lua_script \<Rightarrow> string \<times> 'r"
  rd_evalsha :: "'r \<Rightarrow> ms \<Rightarrow> string \<Rightarrow> string \<Rightarrow> string list \<Rightarrow> (exn + int) \<times> 'r"

subsection \<open>The Lua scripts\<close>

text \<open>
  A script runs atomically inside the server, over the same commands. \<open>KEYS[1]\<close> is the key,
  \<open>ARGV\<close> the list of arguments; an argument that is not a number where a number is needed is a
  script error.
\<close>

definition release_lock_lua :: "'r redis_api \<Rightarrow> ms \<Rightarrow> string \<Rightarrow> string \<Rightarrow> 'r \<Rightarrow> (exn + int) \<times> 'r" where
  "release_lock_lua R now key tok r =
     (if rd_get R r now key = Some tok
      then (case rd_del R r now [key] of (n, r') \<Rightarrow> (Inr n, r'))
      else (Inr 0, r))"

definition extend_lock_lua ::
  "'r redis_api \<Rightarrow> ms \<Rightarrow> string \<Rightarrow> string \<Rightarrow> string \<Rightarrow> 'r \<Rightarrow> (exn + int) \<times> 'r" where
  "extend_lock_lua R now key tok ttl_ms r =
     (if rd_get R r now key = Some tok
      then (case js_number ttl_ms of
              None \<Rightarrow> (Inl (RedisExn ''ERR value is not an integer or out of range''), r)
            | Some ttl \<Rightarrow> (case rd_pexpire R r now key ttl of (n, r') \<Rightarrow> (Inr n, r')))
      else (Inr 0, r))"

definition token_bucket_lua ::
  "'r redis_api \<Rightarrow> ms \<Rightarrow> string \<Rightarrow> string \<Rightarrow> string \<Rightarrow> 'r \<Rightarrow> (exn + int) \<times> 'r" where
  "token_bucket_lua R now key max_tokens ttl_s r =
     (case js_number (case rd_hget R r now key ''tokens'' of Some t \<Rightarrow> t | None \<Rightarrow> max_tokens) of
        None \<Rightarrow> (Inl (RedisExn ''ERR attempt to compare nil with number''), r)
      | Some tokens \<Rightarrow>
          if tokens \<le> 0 then (Inr (- 1), r)
          else
            let r1 = rd_hset R r now key ''tokens'' (string_of_int (tokens - 1))
            in case js_number ttl_s of
                 None \<Rightarrow> (Inl (RedisExn ''ERR value is not an integer or out of range''), r1)
               | Some ttl \<Rightarrow>
                   (case rd_pexpire R r1 now key (ttl * 1000) of (_, r2) \<Rightarrow> (Inr (tokens - 1), r2)))"

fun lua_run ::
  "'r redis_api \<Rightarrow> lua_script \<Rightarrow> ms \<Rightarrow> string \<Rightarrow> string list \<Rightarrow> 'r \<Rightarrow> (exn + int) \<times> 'r" where
  "lua_run R Release_lock now key [tok] r = release_lock_lua R now key tok r"
| "lua_run R Extend_lock now key [tok, ttl] r = extend_lock_lua R now key tok ttl r"
| "lua_run R Token_bucket now key [mx, ttl] r = token_bucket_lua R now key mx ttl r"
| "lua_run R _ now key args r = (Inl (RedisExn ''ERR wrong number of arguments''), r)"

subsection \<open>\<open>LoadedScript\<close>\<close>

text \<open>
  The client side: the connection and the SHA each \<open>LoadedScript\<close> remembers (\<open>None\<close> until the
  constructor's SCRIPT LOAD has answered; \<open>await this.ready\<close> then throws what that load threw).
\<close>

record 'r client =
  conn :: 'r
  shas :: "lua_script \<Rightarrow> string option"

definition isNoScriptError :: "exn \<Rightarrow> bool" where
  "isNoScriptError err = (case err of RedisExn m \<Rightarrow> str_includes m ''NOSCRIPT''
     | ErrorExn m \<Rightarrow> str_includes m ''NOSCRIPT'' | _ \<Rightarrow> False)"

definition construct_script :: "'r redis_api \<Rightarrow> lua_script \<Rightarrow> 'r client \<Rightarrow> 'r client" where
  "construct_script R sc c = (case rd_script_load R (conn c) sc of
     (sha, r) \<Rightarrow> \<lparr>conn = r, shas = (shas c)(sc \<mapsto> sha)\<rparr>)"

definition eval_script ::
  "'r redis_api \<Rightarrow> lua_script \<Rightarrow> ms \<Rightarrow> string \<Rightarrow> string list \<Rightarrow> 'r client \<Rightarrow>
   (exn + int) \<times> 'r client" where
  "eval_script R sc now key args c =
     (case shas c sc of
        None \<Rightarrow> (Inl (RedisExn ''SCRIPT LOAD failed''), c)
      | Some sha \<Rightarrow>
          (case rd_evalsha R (conn c) now sha key args of
             (Inr n, r) \<Rightarrow> (Inr n, c\<lparr>conn := r\<rparr>)
           | (Inl err, r) \<Rightarrow>
               if \<not> isNoScriptError err then (Inl err, c\<lparr>conn := r\<rparr>)
               else
                 (case rd_script_load R r sc of
                    (sha', r') \<Rightarrow>
                      (case rd_evalsha R r' now sha' key args of
                         (res, r'') \<Rightarrow> (res, \<lparr>conn = r'', shas = (shas c)(sc \<mapsto> sha')\<rparr>)))))"

definition evalReleaseLock ::
  "'r redis_api \<Rightarrow> ms \<Rightarrow> string \<Rightarrow> string \<Rightarrow> 'r client \<Rightarrow> (exn + int) \<times> 'r client" where
  "evalReleaseLock R now key tok c = eval_script R Release_lock now key [tok] c"

definition evalExtendLock ::
  "'r redis_api \<Rightarrow> ms \<Rightarrow> string \<Rightarrow> string \<Rightarrow> ms \<Rightarrow> 'r client \<Rightarrow> (exn + int) \<times> 'r client" where
  "evalExtendLock R now key tok ttlMs c =
     eval_script R Extend_lock now key [tok, string_of_int ttlMs] c"

definition evalTokenBucket ::
  "'r redis_api \<Rightarrow> ms \<Rightarrow> string \<Rightarrow> int \<Rightarrow> int \<Rightarrow> 'r client \<Rightarrow> (exn + int) \<times> 'r client" where
  "evalTokenBucket R now key maxTokens ttlSeconds c =
     eval_script R Token_bucket now key [string_of_int maxTokens, string_of_int ttlSeconds] c"

lemmas script_defs = evalReleaseLock_def evalExtendLock_def evalTokenBucket_def

subsection \<open>What the sources rely on\<close>

text \<open>The counter INCR works on: a decimal string, or nothing yet.\<close>

fun counter_of :: "redis_value option \<Rightarrow> int option" where
  "counter_of None = Some 0"
| "counter_of (Some (RString s)) = js_number s"
| "counter_of (Some (RHash h)) = None"

text \<open>The hash a hash command works on, and the value of one of its integer fields.\<close>

fun hash_of :: "redis_value option \<Rightarrow> (string \<Rightarrow> string option) option" where
  "hash_of None = Some Map.empty"
| "hash_of (Some (RHash h)) = Some h"
| "hash_of (Some (RString s)) = None"

definition field_int :: "(string \<Rightarrow> string option) \<Rightarrow> string \<Rightarrow> int option" where
  "field_int h f = (case h f of None \<Rightarrow> Some 0 | Some s \<Rightarrow> js_number s)"

text \<open>The expiry a write that keeps the TTL leaves on a key: none if the key was not live.\<close>

definition kept_ttl :: "keyspace \<Rightarrow> ms \<Rightarrow> string \<Rightarrow> ms option" where
  "kept_ttl m now k =
     (case live m now k of None \<Rightarrow> None | Some _ \<Rightarrow> (case m k of None \<Rightarrow> None | Some (_, d) \<Rightarrow> d))"

lemma live_kept [simp]: "live (m(k \<mapsto> (v, kept_ttl m now k))) now k = Some v"
  by (auto simp: live_def kept_ttl_def split: option.splits if_splits)

lemma live_upd_same [simp]: "live (m(k \<mapsto> (v, Some d))) now k = (if now < d then Some v else None)"
  by (simp add: live_def)

lemma live_upd_other [simp]: "k \<noteq> k' \<Longrightarrow> live (m(k := e)) now k' = live m now k'"
  by (simp add: live_def)

lemma live_del [simp]: "live (m(k := None)) now k = None"
  by (simp add: live_def)

locale redis_service =
  fixes R :: "'r redis_api"
    and ks :: "'r \<Rightarrow> keyspace"
    and scripts :: "'r \<Rightarrow> string \<Rightarrow> lua_script option"
    and sha1 :: "lua_script \<Rightarrow> string"
  assumes get [redis_laws]: "rd_get R r now k =
      (case live (ks r) now k of Some (RString v) \<Rightarrow> Some v | _ \<Rightarrow> None)"
    and exists [redis_laws]: "rd_exists R r now k = (if live (ks r) now k = None then 0 else 1)"
    and set [redis_laws]: "ks (rd_set R r now k v ttl) = (ks r)(k \<mapsto> (RString v, Some (now + ttl)))"
    and set_nx_fst [redis_laws]: "fst (rd_set_nx R r now k v ttl) \<longleftrightarrow> live (ks r) now k = None"
    and set_nx_snd [redis_laws]: "ks (snd (rd_set_nx R r now k v ttl)) =
      (if live (ks r) now k = None then (ks r)(k \<mapsto> (RString v, Some (now + ttl))) else ks r)"
    and del_fst [redis_laws]: "fst (rd_del R r now keys) =
      int (card {k \<in> List.set keys. live (ks r) now k \<noteq> None})"
    and del_snd [redis_laws]:
      "ks (snd (rd_del R r now keys)) = (\<lambda>k. if k \<in> List.set keys then None else ks r k)"
    and incr [redis_laws]: "counter_of (live (ks r) now k) = Some n \<Longrightarrow>
      fst (rd_incr R r now k) = n + 1 \<and>
      ks (snd (rd_incr R r now k)) =
        (ks r)(k \<mapsto> (RString (string_of_int (n + 1)), kept_ttl (ks r) now k))"
    and pexpire_fst [redis_laws]:
      "fst (rd_pexpire R r now k ttl) = (if live (ks r) now k = None then 0 else 1)"
    and pexpire_snd [redis_laws]: "ks (snd (rd_pexpire R r now k ttl)) =
      (case live (ks r) now k of None \<Rightarrow> ks r | Some v \<Rightarrow> (ks r)(k \<mapsto> (v, Some (now + ttl))))"
    and hget [redis_laws]: "rd_hget R r now k f =
      (case live (ks r) now k of Some (RHash h) \<Rightarrow> h f | _ \<Rightarrow> None)"
    and hset [redis_laws]: "hash_of (live (ks r) now k) = Some h \<Longrightarrow>
      ks (rd_hset R r now k f v) = (ks r)(k \<mapsto> (RHash (h(f \<mapsto> v)), kept_ttl (ks r) now k))"
    and hincrby [redis_laws]:
      "hash_of (live (ks r) now k) = Some h \<Longrightarrow> field_int h f = Some m \<Longrightarrow>
       fst (rd_hincrby R r now k f n) = m + n \<and>
       ks (snd (rd_hincrby R r now k f n)) =
         (ks r)(k \<mapsto> (RHash (h(f \<mapsto> string_of_int (m + n))), kept_ttl (ks r) now k))"
    and load_sha: "fst (rd_script_load R r sc) = sha1 sc"
    and load_cached: "scripts (snd (rd_script_load R r sc)) (sha1 sc) = Some sc"
    and load_ks [redis_laws]: "ks (snd (rd_script_load R r sc)) = ks r"
    and sha1_cached: "scripts r sha = Some sc \<Longrightarrow> sha = sha1 sc"
    and sha1_inj: "sha1 sc = sha1 sc' \<Longrightarrow> sc = sc'"
    and evalsha_missing: "scripts r sha = None \<Longrightarrow>
      \<exists>m. rd_evalsha R r now sha key args = (Inl (RedisExn m), r) \<and> str_includes m ''NOSCRIPT''"
    and evalsha_run: "scripts r sha = Some sc \<Longrightarrow>
      rd_evalsha R r now sha key args = lua_run R sc now key args r"

text \<open>Every \<open>LoadedScript\<close> has answered its constructor's SCRIPT LOAD.\<close>

definition client_ready :: "(lua_script \<Rightarrow> string) \<Rightarrow> 'r client \<Rightarrow> bool" where
  "client_ready sha1 c \<longleftrightarrow> (\<forall>sc. shas c sc = Some (sha1 sc))"

context redis_service
begin

lemma construct_script_ready:
  "client_ready sha1
     (construct_script R Token_bucket (construct_script R Extend_lock (construct_script R Release_lock c)))"
proof -
  have "\<And>sc. sc = Release_lock \<or> sc = Extend_lock \<or> sc = Token_bucket" by (rule lua_script.exhaust) auto
  then show ?thesis
    by (auto simp: client_ready_def construct_script_def load_sha split: prod.splits)
      (metis fst_conv load_sha)+
qed

text \<open>
  Whether the server still has the script or answers NOSCRIPT first, \<open>eval\<close> has the effect of one
  run of the script on the keyspace, and the client keeps its SHA.
\<close>

lemma eval_script_run:
  assumes ready: "client_ready sha1 c"
    and no_ns: "\<And>r e. ks r = ks (conn c) \<Longrightarrow> fst (lua_run R sc now key args r) = Inl e \<Longrightarrow> \<not> isNoScriptError e"
  shows "\<exists>r. ks r = ks (conn c) \<and>
    fst (eval_script R sc now key args c) = fst (lua_run R sc now key args r) \<and>
    ks (conn (snd (eval_script R sc now key args c))) = ks (snd (lua_run R sc now key args r)) \<and>
    client_ready sha1 (snd (eval_script R sc now key args c))"
proof (cases "scripts (conn c) (sha1 sc)")
  case None
  then obtain m where m: "rd_evalsha R (conn c) now (sha1 sc) key args = (Inl (RedisExn m), conn c)"
    "str_includes m ''NOSCRIPT''"
    using evalsha_missing by blast
  obtain r where load: "rd_script_load R (conn c) sc = (sha1 sc, r)"
    using load_sha [of "conn c" sc] by (metis prod.collapse)
  have cached: "scripts r (sha1 sc) = Some sc" and same: "ks r = ks (conn c)"
    using load_cached [of "conn c" sc] load_ks [of "conn c" sc] load by simp_all
  have sha: "shas c sc = Some (sha1 sc)" using ready by (simp add: client_ready_def)
  obtain res r'' where run: "lua_run R sc now key args r = (res, r'')" by fastforce
  have "eval_script R sc now key args c = (res, \<lparr>conn = r'', shas = (shas c)(sc \<mapsto> sha1 sc)\<rparr>)"
    using m run by (simp add: eval_script_def sha load evalsha_run [OF cached] isNoScriptError_def)
  moreover have "client_ready sha1 \<lparr>conn = r'', shas = (shas c)(sc \<mapsto> sha1 sc)\<rparr>"
    using ready by (simp add: client_ready_def)
  ultimately show ?thesis using same run by (intro exI [of _ r]) simp
next
  case (Some sc')
  then have "sc' = sc" using sha1_cached sha1_inj by blast
  with Some have run: "rd_evalsha R (conn c) now (sha1 sc) key args = lua_run R sc now key args (conn c)"
    using evalsha_run by blast
  have sha: "shas c sc = Some (sha1 sc)" using ready by (simp add: client_ready_def)
  obtain res r'' where lua: "lua_run R sc now key args (conn c) = (res, r'')" by fastforce
  have "eval_script R sc now key args c = (res, c\<lparr>conn := r''\<rparr>)"
    using no_ns [of "conn c"] by (cases res) (simp_all add: eval_script_def sha run lua)
  moreover have "client_ready sha1 (c\<lparr>conn := r''\<rparr>)" using ready by (simp add: client_ready_def)
  ultimately show ?thesis using lua by (intro exI [of _ "conn c"]) simp
qed

lemma get_Some: "rd_get R r now k = Some v \<longleftrightarrow> live (ks r) now k = Some (RString v)"
  by (simp add: get split: option.splits redis_value.splits)

lemma release_lock_effect [redis_laws]:
  "fst (release_lock_lua R now key tok r) =
     (if live (ks r) now key = Some (RString tok) then Inr 1 else Inr 0)"
  "ks (snd (release_lock_lua R now key tok r)) =
     (if live (ks r) now key = Some (RString tok) then (ks r)(key := None) else ks r)"
proof -
  have "fst (rd_del R r now [key]) = 1" if "live (ks r) now key = Some (RString tok)"
  proof -
    have "{k \<in> List.set [key]. live (ks r) now k \<noteq> None} = {key}" using that by auto
    then show ?thesis by (simp only: del_fst) simp
  qed
  then show "fst (release_lock_lua R now key tok r) =
      (if live (ks r) now key = Some (RString tok) then Inr 1 else Inr 0)"
    by (simp add: release_lock_lua_def get_Some split_beta)
  show "ks (snd (release_lock_lua R now key tok r)) =
      (if live (ks r) now key = Some (RString tok) then (ks r)(key := None) else ks r)"
    by (simp add: release_lock_lua_def get_Some split_beta del_snd fun_eq_iff)
qed

lemma extend_lock_effect [redis_laws]:
  "fst (extend_lock_lua R now key tok (string_of_int ttl) r) =
     (if live (ks r) now key = Some (RString tok) then Inr 1 else Inr 0)"
  "ks (snd (extend_lock_lua R now key tok (string_of_int ttl) r)) =
     (if live (ks r) now key = Some (RString tok)
      then (ks r)(key \<mapsto> (RString tok, Some (now + ttl))) else ks r)"
  by (simp_all add: extend_lock_lua_def get_Some split_beta pexpire_fst pexpire_snd)

text \<open>The token bucket on a key that holds a bucket (or nothing: a full bucket).\<close>

lemma token_bucket_effect:
  assumes "hash_of (live (ks r) now key) = Some h"
    and "js_number (case h ''tokens'' of Some t \<Rightarrow> t | None \<Rightarrow> string_of_int mx) = Some n"
  shows "fst (token_bucket_lua R now key (string_of_int mx) (string_of_int ttl) r) =
      Inr (if n \<le> 0 then - 1 else n - 1)"
    and "ks (snd (token_bucket_lua R now key (string_of_int mx) (string_of_int ttl) r)) =
      (if n \<le> 0 then ks r
       else (ks r)(key \<mapsto> (RHash (h(''tokens'' \<mapsto> string_of_int (n - 1))), Some (now + ttl * 1000))))"
proof -
  have hget': "rd_hget R r now key ''tokens'' = h ''tokens''"
    using assms(1) by (auto simp: hget split: option.splits elim: hash_of.elims)
  have hset': "ks (rd_hset R r now key ''tokens'' v) =
      (ks r)(key \<mapsto> (RHash (h(''tokens'' \<mapsto> v)), kept_ttl (ks r) now key))" for v
    using hset [OF assms(1)] .
  show "fst (token_bucket_lua R now key (string_of_int mx) (string_of_int ttl) r) =
      Inr (if n \<le> 0 then - 1 else n - 1)"
    using assms(2) by (simp add: token_bucket_lua_def hget' Let_def split_beta)
  show "ks (snd (token_bucket_lua R now key (string_of_int mx) (string_of_int ttl) r)) =
      (if n \<le> 0 then ks r
       else (ks r)(key \<mapsto> (RHash (h(''tokens'' \<mapsto> string_of_int (n - 1))), Some (now + ttl * 1000))))"
    using assms(2) by (simp add: token_bucket_lua_def hget' Let_def hset' split_beta pexpire_snd)
qed

end

subsection \<open>A Redis server in memory\<close>

record mem_state =
  mem_ks :: keyspace
  mem_cache :: "string \<Rightarrow> lua_script option"

primrec mem_sha1 :: "lua_script \<Rightarrow> string" where
  "mem_sha1 Release_lock = ''sha-release''"
| "mem_sha1 Extend_lock = ''sha-extend''"
| "mem_sha1 Token_bucket = ''sha-bucket''"

text \<open>An empty server with a flushed script cache, and a client whose scripts were loaded before.\<close>

definition mem_empty :: mem_state where
  "mem_empty = \<lparr>mem_ks = Map.empty, mem_cache = Map.empty\<rparr>"

definition mem_client :: "mem_state client" where
  "mem_client = \<lparr>conn = mem_empty, shas = (\<lambda>sc. Some (mem_sha1 sc))\<rparr>"

definition mem_upd :: "mem_state \<Rightarrow> string \<Rightarrow> redis_value \<Rightarrow> ms option \<Rightarrow> mem_state" where
  "mem_upd r k v d = r\<lparr>mem_ks := (mem_ks r)(k \<mapsto> (v, d))\<rparr>"

definition mem_commands :: "mem_state redis_api" where
  "mem_commands = \<lparr>
     rd_get = (\<lambda>r now k. case live (mem_ks r) now k of Some (RString v) \<Rightarrow> Some v | _ \<Rightarrow> None),
     rd_exists = (\<lambda>r now k. if live (mem_ks r) now k = None then 0 else 1),
     rd_set = (\<lambda>r now k v ttl. mem_upd r k (RString v) (Some (now + ttl))),
     rd_set_nx = (\<lambda>r now k v ttl.
       if live (mem_ks r) now k = None then (True, mem_upd r k (RString v) (Some (now + ttl)))
       else (False, r)),
     rd_del = (\<lambda>r now keys.
       (int (length (filter (\<lambda>k. live (mem_ks r) now k \<noteq> None) (remdups keys))),
        r\<lparr>mem_ks := (\<lambda>k. if k \<in> set keys then None else mem_ks r k)\<rparr>)),
     rd_incr = (\<lambda>r now k. case counter_of (live (mem_ks r) now k) of
         None \<Rightarrow> (0, r)
       | Some n \<Rightarrow> (n + 1, mem_upd r k (RString (string_of_int (n + 1))) (kept_ttl (mem_ks r) now k))),
     rd_pexpire = (\<lambda>r now k ttl. case live (mem_ks r) now k of
         None \<Rightarrow> (0, r) | Some v \<Rightarrow> (1, mem_upd r k v (Some (now + ttl)))),
     rd_hget = (\<lambda>r now k f. case live (mem_ks r) now k of Some (RHash h) \<Rightarrow> h f | _ \<Rightarrow> None),
     rd_hset = (\<lambda>r now k f v. case hash_of (live (mem_ks r) now k) of
         None \<Rightarrow> r | Some h \<Rightarrow> mem_upd r k (RHash (h(f \<mapsto> v))) (kept_ttl (mem_ks r) now k)),
     rd_hincrby = (\<lambda>r now k f n. case hash_of (live (mem_ks r) now k) of
         None \<Rightarrow> (0, r)
       | Some h \<Rightarrow> (case field_int h f of
             None \<Rightarrow> (0, r)
           | Some m \<Rightarrow> (m + n,
               mem_upd r k (RHash (h(f \<mapsto> string_of_int (m + n)))) (kept_ttl (mem_ks r) now k)))),
     rd_script_load = (\<lambda>r sc. (mem_sha1 sc, r\<lparr>mem_cache := (mem_cache r)(mem_sha1 sc \<mapsto> sc)\<rparr>)),
     rd_evalsha = (\<lambda>r now sha key args. (Inl (RedisExn ''NOSCRIPT''), r))\<rparr>"

text \<open>EVALSHA runs the cached script over the other commands; the cache is keyed by content.\<close>

definition mem_scripts :: "mem_state \<Rightarrow> string \<Rightarrow> lua_script option" where
  "mem_scripts r sha = (case mem_cache r sha of
     None \<Rightarrow> None | Some sc \<Rightarrow> if sha = mem_sha1 sc then Some sc else None)"

definition mem_redis :: "mem_state redis_api" where
  "mem_redis = mem_commands\<lparr>rd_evalsha := (\<lambda>r now sha key args.
     case mem_scripts r sha of
       None \<Rightarrow> (Inl (RedisExn ''NOSCRIPT No matching script''), r)
     | Some sc \<Rightarrow> lua_run mem_commands sc now key args r)\<rparr>"

lemma lua_run_evalsha_irrelevant:
  "lua_run (R\<lparr>rd_evalsha := f\<rparr>) sc now key args r = lua_run R sc now key args r"
  by (induction R sc now key args r rule: lua_run.induct)
    (simp_all add: release_lock_lua_def extend_lock_lua_def token_bucket_lua_def Let_def
      split: option.split)

lemma mem_sha1_inj: "mem_sha1 sc = mem_sha1 sc' \<Longrightarrow> sc = sc'"
  by (cases sc; cases sc') simp_all

lemma card_filter_keys:
  "int (length (filter P (remdups keys))) = int (card {k \<in> set keys. P k})"
proof -
  have "length (filter P (remdups keys)) = card (set (filter P (remdups keys)))"
    using distinct_card [of "filter P (remdups keys)"] by simp
  then show ?thesis by simp
qed

interpretation mem: redis_service mem_redis mem_ks mem_scripts mem_sha1
proof (unfold_locales, goal_cases)
  case (6 r now keys)
  show ?case by (simp add: mem_redis_def mem_commands_def card_filter_keys)
next
  case (18 sc sc')
  then show ?case by (rule mem_sha1_inj)
next
  case (19 r sha now key args)
  have "str_includes ''NOSCRIPT No matching script'' ''NOSCRIPT''"
    unfolding str_includes_def by code_simp
  with 19 show ?case by (simp add: mem_redis_def)
next
  case (20 r sha sc now key args)
  then show ?case by (simp add: mem_redis_def lua_run_evalsha_irrelevant)
qed (auto simp: mem_redis_def mem_commands_def mem_upd_def mem_scripts_def
    split: option.splits redis_value.splits if_splits)

subsection \<open>Property\<close>

text \<open>
  Losing Redis's script cache is invisible. Whatever scripts the two servers have cached, the
  release script gives the same answer and the same keyspace on both, and the client stays usable.
\<close>

lemma script_flush_invisible:
  fixes R :: "'r redis_api"
  assumes "redis_service R ks scripts sha1" and "client_ready sha1 c" and "client_ready sha1 c'"
    and "ks (conn c) = ks (conn c')"
  shows "fst (evalReleaseLock R now key tok c) = fst (evalReleaseLock R now key tok c') \<and>
    ks (conn (snd (evalReleaseLock R now key tok c))) = ks (conn (snd (evalReleaseLock R now key tok c'))) \<and>
    client_ready sha1 (snd (evalReleaseLock R now key tok c))"
proof -
  have no_ns: "\<not> isNoScriptError e" if "fst (lua_run R Release_lock now key [tok] r) = Inl e" for r e
    using that by (simp add: redis_service.release_lock_effect [OF assms(1)] split: if_splits)
  have run: "\<exists>r. ks r = ks (conn c0) \<and>
      fst (eval_script R Release_lock now key [tok] c0) = fst (lua_run R Release_lock now key [tok] r) \<and>
      ks (conn (snd (eval_script R Release_lock now key [tok] c0))) = ks (snd (lua_run R Release_lock now key [tok] r)) \<and>
      client_ready sha1 (snd (eval_script R Release_lock now key [tok] c0))" if "client_ready sha1 c0" for c0
    using redis_service.eval_script_run [OF assms(1) that, of Release_lock now key "[tok]"] no_ns by blast
  show ?thesis
    using run [OF assms(2)] run [OF assms(3)] assms(4)
    by (auto simp: evalReleaseLock_def redis_service.release_lock_effect [OF assms(1)])
qed

end
