(* ===== verification/Lock.thy ===== *)
theory Lock
  imports Redis_Service Config
begin

text \<open>
  \<open>src/src/redis/lock.ts\<close>: the per-delivery lock. The abstract contract is a table of leases
  (delivery to token and deadline) with three operations; the locale \<open>lease_lock\<close> says that a
  provider implements it, and its clients reason about leases only. Every Redis service gives such
  a provider (\<open>lock_provides_leases\<close>), so the properties of this theory hold of \<open>acquire\<close>, \<open>release\<close> and
  \<open>extend\<close> themselves.
\<close>

definition lockKey :: "string \<Rightarrow> string" where
  "lockKey deliveryId = ''wh:lock:'' @ deliveryId"

record acquire_result =
  acquired :: bool
  token :: string

text \<open>\<open>tok\<close> is the \<open>randomBytes(16).toString('hex')\<close> of the call.\<close>

definition acquire ::
  "'r redis_api \<Rightarrow> config \<Rightarrow> ms \<Rightarrow> string \<Rightarrow> string \<Rightarrow> 'r client \<Rightarrow> acquire_result \<times> 'r client" where
  "acquire R cfg now tok deliveryId c =
     (case rd_set_nx R (conn c) now (lockKey deliveryId) tok (LOCK_TTL_MS cfg) of
        (ok, r) \<Rightarrow> (\<lparr>acquired = ok, token = tok\<rparr>, c\<lparr>conn := r\<rparr>))"

definition release ::
  "'r redis_api \<Rightarrow> ms \<Rightarrow> string \<Rightarrow> string \<Rightarrow> 'r client \<Rightarrow> (exn + bool) \<times> 'r client" where
  "release R now deliveryId tok c =
     (case evalReleaseLock R now (lockKey deliveryId) tok c of
        (Inl e, c') \<Rightarrow> (Inl e, c')
      | (Inr n, c') \<Rightarrow> (Inr (n = 1), c'))"

definition extend_lock ::
  "'r redis_api \<Rightarrow> config \<Rightarrow> ms \<Rightarrow> string \<Rightarrow> string \<Rightarrow> 'r client \<Rightarrow> (exn + bool) \<times> 'r client" where
  "extend_lock R cfg now deliveryId tok c =
     (case evalExtendLock R now (lockKey deliveryId) tok (LOCK_TTL_MS cfg) c of
        (Inl e, c') \<Rightarrow> (Inl e, c')
      | (Inr n, c') \<Rightarrow> (Inr (n = 1), c'))"

lemma lockKey_inject [simp]: "lockKey d = lockKey d' \<longleftrightarrow> d = d'"
  by (simp add: lockKey_def)

subsection \<open>The contract: a table of leases\<close>

type_synonym leases = "string \<Rightarrow> (string \<times> ms) option"

definition held :: "leases \<Rightarrow> ms \<Rightarrow> string \<Rightarrow> string option" where
  "held l now d = (case l d of None \<Rightarrow> None | Some (t, dl) \<Rightarrow> if now < dl then Some t else None)"

definition lease_acquire :: "ms \<Rightarrow> ms \<Rightarrow> string \<Rightarrow> string \<Rightarrow> leases \<Rightarrow> bool \<times> leases" where
  "lease_acquire ttl now t d l =
     (if held l now d = None then (True, l(d \<mapsto> (t, now + ttl))) else (False, l))"

definition lease_release :: "ms \<Rightarrow> string \<Rightarrow> string \<Rightarrow> leases \<Rightarrow> bool \<times> leases" where
  "lease_release now d t l =
     (if held l now d = Some t then (True, l(d := None)) else (False, l))"

definition lease_extend :: "ms \<Rightarrow> ms \<Rightarrow> string \<Rightarrow> string \<Rightarrow> leases \<Rightarrow> bool \<times> leases" where
  "lease_extend ttl now d t l =
     (if held l now d = Some t then (True, l(d \<mapsto> (t, now + ttl))) else (False, l))"

lemma held_upd: "held (l(d \<mapsto> (t, dl))) now d' =
    (if d' = d then (if now < dl then Some t else None) else held l now d')"
  by (simp add: held_def)

lemma held_del: "held (l(d := None)) now d' = (if d' = d then None else held l now d')"
  by (simp add: held_def)

lemmas lease_defs = lease_acquire_def lease_release_def lease_extend_def

text \<open>Operations on one lock, by one of many clients.\<close>

datatype lock_op = Acquire string | Release string | Extend string

primrec op_token :: "lock_op \<Rightarrow> string" where
  "op_token (Acquire t) = t" | "op_token (Release t) = t" | "op_token (Extend t) = t"

fun lease_run :: "ms \<Rightarrow> string \<Rightarrow> (ms \<times> lock_op) list \<Rightarrow> leases \<Rightarrow> bool list \<times> leases" where
  "lease_run ttl d [] l = ([], l)"
| "lease_run ttl d ((now, op) # ops) l =
     (let (b, l') = (case op of Acquire t \<Rightarrow> lease_acquire ttl now t d l
                       | Release t \<Rightarrow> lease_release now d t l
                       | Extend t \<Rightarrow> lease_extend ttl now d t l);
          (bs, l'') = lease_run ttl d ops l'
      in (b # bs, l''))"

text \<open>
  While a lease runs, nothing other tokens do succeeds or changes it.
\<close>

lemma lease_run_foreign:
  assumes "l d = Some (tok, dl)"
    and "\<And>now op. (now, op) \<in> set ops \<Longrightarrow> op_token op \<noteq> tok \<and> now < dl"
  shows "lease_run ttl d ops l = (replicate (length ops) False, l)"
  using assms(2)
proof (induction ops)
  case Nil
  then show ?case by simp
next
  case (Cons x ops)
  obtain now op where x: "x = (now, op)" by fastforce
  have "op_token op \<noteq> tok" "now < dl" using Cons.prems [of now op] x by auto
  then have "held l now d = Some tok" using assms(1) by (simp add: held_def)
  moreover have "lease_run ttl d ops l = (replicate (length ops) False, l)"
    using Cons by auto
  ultimately show ?case
    using x \<open>op_token op \<noteq> tok\<close> by (cases op) (auto simp: lease_defs)
qed

text \<open>The same sequence of calls on a provider of locks.\<close>

fun lock_run ::
  "(ms \<Rightarrow> string \<Rightarrow> string \<Rightarrow> 's \<Rightarrow> bool \<times> 's) \<Rightarrow> (ms \<Rightarrow> string \<Rightarrow> string \<Rightarrow> 's \<Rightarrow> bool \<times> 's) \<Rightarrow>
   (ms \<Rightarrow> string \<Rightarrow> string \<Rightarrow> 's \<Rightarrow> bool \<times> 's) \<Rightarrow> string \<Rightarrow> (ms \<times> lock_op) list \<Rightarrow> 's \<Rightarrow> bool list \<times> 's"
where
  "lock_run acq rel ext d [] s = ([], s)"
| "lock_run acq rel ext d ((now, op) # ops) s =
     (let (b, s') = (case op of Acquire t \<Rightarrow> acq now t d s | Release t \<Rightarrow> rel now d t s
                       | Extend t \<Rightarrow> ext now d t s);
          (bs, s'') = lock_run acq rel ext d ops s'
      in (b # bs, s''))"

lemma lock_run_length: "length (fst (lock_run acq rel ext d ops s)) = length ops"
  by (induction acq rel ext d ops s rule: lock_run.induct) (auto simp: Let_def split: prod.splits)

text \<open>Heartbeats that each come before the deadline the one before has set.\<close>

fun on_time :: "ms \<Rightarrow> ms \<Rightarrow> ms list \<Rightarrow> bool" where
  "on_time ttl dl [] = True"
| "on_time ttl dl (t # ts) = (t < dl \<and> on_time ttl (t + ttl) ts)"

lemma lease_run_extends:
  assumes "l d = Some (tok, dl)" and "on_time ttl dl ts"
    and "lease_run ttl d (map (\<lambda>t. (t, Extend tok)) ts) l = (bs, l')"
  shows "False \<notin> set bs \<and> l' d = Some (tok, if ts = [] then dl else last ts + ttl)"
  using assms
proof (induction ts arbitrary: l dl bs l')
  case Nil
  then show ?case by simp
next
  case (Cons t ts)
  then have h: "held l t d = Some tok" by (simp add: held_def)
  obtain bs1 l1 where run: "lease_run ttl d (map (\<lambda>t. (t, Extend tok)) ts) (l(d \<mapsto> (tok, t + ttl))) = (bs1, l1)"
    by fastforce
  have "False \<notin> set bs1 \<and> l1 d = Some (tok, if ts = [] then t + ttl else last ts + ttl)"
    using Cons.IH [of "l(d \<mapsto> (tok, t + ttl))" "t + ttl" bs1 l1, OF _ _ run] Cons.prems(2) by simp
  then show ?case using Cons.prems(3) run h by (auto simp: lease_extend_def)
qed

locale lease_lock =
  fixes ttl :: ms
    and acq :: "ms \<Rightarrow> string \<Rightarrow> string \<Rightarrow> 's \<Rightarrow> bool \<times> 's"
    and rel :: "ms \<Rightarrow> string \<Rightarrow> string \<Rightarrow> 's \<Rightarrow> bool \<times> 's"
    and ext :: "ms \<Rightarrow> string \<Rightarrow> string \<Rightarrow> 's \<Rightarrow> bool \<times> 's"
    and leases_of :: "'s \<Rightarrow> leases"
    and ok :: "'s \<Rightarrow> bool"
  assumes acq_refines: "ok s \<Longrightarrow> acq now t d s = (b, s') \<Longrightarrow>
      ok s' \<and> lease_acquire ttl now t d (leases_of s) = (b, leases_of s')"
    and rel_refines: "ok s \<Longrightarrow> rel now d t s = (b, s') \<Longrightarrow>
      ok s' \<and> lease_release now d t (leases_of s) = (b, leases_of s')"
    and ext_refines: "ok s \<Longrightarrow> ext now d t s = (b, s') \<Longrightarrow>
      ok s' \<and> lease_extend ttl now d t (leases_of s) = (b, leases_of s')"
begin

lemma lock_run_refines:
  assumes "ok s" and "lock_run acq rel ext d ops s = (bs, s')"
  shows "ok s' \<and> lease_run ttl d ops (leases_of s) = (bs, leases_of s')"
  using assms
proof (induction ops arbitrary: s bs)
  case Nil
  then show ?case by simp
next
  case (Cons x ops)
  obtain now op where x: "x = (now, op)" by fastforce
  obtain b s1 where st: "(case op of Acquire t \<Rightarrow> acq now t d s | Release t \<Rightarrow> rel now d t s
      | Extend t \<Rightarrow> ext now d t s) = (b, s1)" by fastforce
  have ok1: "ok s1" and l1: "(case op of Acquire t \<Rightarrow> lease_acquire ttl now t d (leases_of s)
       | Release t \<Rightarrow> lease_release now d t (leases_of s)
       | Extend t \<Rightarrow> lease_extend ttl now d t (leases_of s)) = (b, leases_of s1)"
    using st acq_refines [OF Cons.prems(1)] rel_refines [OF Cons.prems(1)]
      ext_refines [OF Cons.prems(1)] by (auto split: lock_op.splits)
  obtain bs1 s2 where run: "lock_run acq rel ext d ops s1 = (bs1, s2)" by fastforce
  have bs: "bs = b # bs1" "s' = s2" using Cons.prems(2) x st run by simp_all
  have "ok s2 \<and> lease_run ttl d ops (leases_of s1) = (bs1, leases_of s2)"
    using Cons.IH [OF ok1] run bs by simp
  then show ?case by (simp add: x l1 bs)
qed

text \<open>Mutual exclusion over every interleaving of other clients within the lease.\<close>

lemma exclusive:
  assumes "ok s" and "acq now tok d s = (True, s')"
    and "\<And>t op. (t, op) \<in> set ops \<Longrightarrow> op_token op \<noteq> tok \<and> t < now + ttl"
    and "lock_run acq rel ext d ops s' = (bs, s'')"
  shows "True \<notin> set bs \<and> leases_of s'' d = Some (tok, now + ttl)"
proof -
  have s': "ok s'" "leases_of s' d = Some (tok, now + ttl)"
    using acq_refines [OF assms(1,2)]
    by (auto simp: lease_acquire_def fun_eq_iff split: if_splits)
  have "lease_run ttl d ops (leases_of s') = (replicate (length ops) False, leases_of s')"
    using lease_run_foreign [of "leases_of s'" d tok "now + ttl" ops ttl] s'(2) assms(3) by blast
  with lock_run_refines [OF s'(1) assms(4)]
  have "bs = replicate (length ops) False" "leases_of s'' = leases_of s'" by auto
  then show ?thesis using s'(2) by auto
qed

text \<open>Heartbeats on time keep the lease and push its deadline on.\<close>

lemma heartbeats_keep:
  assumes "ok s" and "acq now tok d s = (True, s')" and "on_time ttl (now + ttl) ts"
    and "lock_run acq rel ext d (map (\<lambda>t. (t, Extend tok)) ts) s' = (bs, s'')"
  shows "False \<notin> set bs \<and> leases_of s'' d = Some (tok, (if ts = [] then now else last ts) + ttl)"
proof -
  have s': "ok s'" "leases_of s' d = Some (tok, now + ttl)"
    using acq_refines [OF assms(1,2)]
    by (auto simp: lease_acquire_def fun_eq_iff split: if_splits)
  show ?thesis
    using lease_run_extends [of "leases_of s'" d tok "now + ttl" ttl ts bs "leases_of s''"]
      s'(2) assms(3) lock_run_refines [OF s'(1) assms(4)] by auto
qed

end

subsection \<open>\<open>lock.ts\<close> provides leases\<close>

text \<open>A throwing script call counts as "not held", as the callers treat it.\<close>

definition acquire_op ::
  "'r redis_api \<Rightarrow> config \<Rightarrow> ms \<Rightarrow> string \<Rightarrow> string \<Rightarrow> 'r client \<Rightarrow> bool \<times> 'r client" where
  "acquire_op R cfg now tok d c = map_prod acquired id (acquire R cfg now tok d c)"

definition release_op ::
  "'r redis_api \<Rightarrow> ms \<Rightarrow> string \<Rightarrow> string \<Rightarrow> 'r client \<Rightarrow> bool \<times> 'r client" where
  "release_op R now d tok c = map_prod (\<lambda>r. r = Inr True) id (release R now d tok c)"

definition extend_op ::
  "'r redis_api \<Rightarrow> config \<Rightarrow> ms \<Rightarrow> string \<Rightarrow> string \<Rightarrow> 'r client \<Rightarrow> bool \<times> 'r client" where
  "extend_op R cfg now d tok c = map_prod (\<lambda>r. r = Inr True) id (extend_lock R cfg now d tok c)"

text \<open>The leases a keyspace holds: every lock key is a string with a deadline.\<close>

definition leases_in :: "keyspace \<Rightarrow> leases" where
  "leases_in m d = (case m (lockKey d) of Some (RString t, Some dl) \<Rightarrow> Some (t, dl) | _ \<Rightarrow> None)"

definition lock_keys_ok :: "keyspace \<Rightarrow> bool" where
  "lock_keys_ok m \<longleftrightarrow> (\<forall>d e. m (lockKey d) = Some e \<longrightarrow> (\<exists>t dl. e = (RString t, Some dl)))"

lemma live_lockKey:
  assumes "lock_keys_ok m"
  shows "live m now (lockKey d) = map_option RString (held (leases_in m) now d)"
proof (cases "m (lockKey d)")
  case None
  then show ?thesis by (simp add: live_def held_def leases_in_def)
next
  case (Some e)
  then obtain t dl where "e = (RString t, Some dl)" using assms unfolding lock_keys_ok_def by blast
  with Some show ?thesis by (simp add: live_def held_def leases_in_def)
qed

lemma lock_keys_ok_upd [simp]: "lock_keys_ok m \<Longrightarrow> lock_keys_ok (m(lockKey d \<mapsto> (RString t, Some dl)))"
  by (simp add: lock_keys_ok_def)

lemma lock_keys_ok_del [simp]: "lock_keys_ok m \<Longrightarrow> lock_keys_ok (m(k := None))"
  by (simp add: lock_keys_ok_def)

lemma leases_in_upd [simp]:
  "leases_in (m(lockKey d \<mapsto> (RString t, Some dl))) = (leases_in m)(d \<mapsto> (t, dl))"
  by (auto simp: leases_in_def fun_eq_iff)

lemma leases_in_del [simp]: "leases_in (m(lockKey d := None)) = (leases_in m)(d := None)"
  by (auto simp: leases_in_def fun_eq_iff)

context redis_service
begin

lemma acquire_effect:
  assumes "acquire R cfg now tok d c = (a, c')"
  shows "token a = tok"
    and "acquired a \<longleftrightarrow> live (ks (conn c)) now (lockKey d) = None"
    and "ks (conn c') = (if acquired a
       then (ks (conn c))(lockKey d \<mapsto> (RString tok, Some (now + LOCK_TTL_MS cfg))) else ks (conn c))"
    and "shas c' = shas c"
  using assms set_nx_fst [of "conn c" now "lockKey d" tok "LOCK_TTL_MS cfg"]
    set_nx_snd [of "conn c" now "lockKey d" tok "LOCK_TTL_MS cfg"]
  by (auto simp: acquire_def split: prod.splits)

lemma release_effect:
  assumes "client_ready sha1 c" and "release R now d tok c = (res, c')"
  shows "res = Inr (live (ks (conn c)) now (lockKey d) = Some (RString tok))"
    and "ks (conn c') = (if live (ks (conn c)) now (lockKey d) = Some (RString tok)
       then (ks (conn c))(lockKey d := None) else ks (conn c))"
    and "client_ready sha1 c'"
proof -
  have run: "\<exists>r. ks r = ks (conn c) \<and>
      fst (eval_script R Release_lock now (lockKey d) [tok] c) =
        fst (lua_run R Release_lock now (lockKey d) [tok] r) \<and>
      ks (conn (snd (eval_script R Release_lock now (lockKey d) [tok] c))) =
        ks (snd (lua_run R Release_lock now (lockKey d) [tok] r)) \<and>
      client_ready sha1 (snd (eval_script R Release_lock now (lockKey d) [tok] c))"
    by (rule eval_script_run [OF assms(1)]) (simp add: release_lock_effect split: if_splits)
  then show "res = Inr (live (ks (conn c)) now (lockKey d) = Some (RString tok))"
    and "ks (conn c') = (if live (ks (conn c)) now (lockKey d) = Some (RString tok)
       then (ks (conn c))(lockKey d := None) else ks (conn c))"
    and "client_ready sha1 c'"
    using assms(2)
    by (auto simp: release_def evalReleaseLock_def release_lock_effect split: prod.splits sum.splits if_splits)
qed

lemma extend_effect:
  assumes "client_ready sha1 c" and "extend_lock R cfg now d tok c = (res, c')"
  shows "res = Inr (live (ks (conn c)) now (lockKey d) = Some (RString tok))"
    and "ks (conn c') = (if live (ks (conn c)) now (lockKey d) = Some (RString tok)
       then (ks (conn c))(lockKey d \<mapsto> (RString tok, Some (now + LOCK_TTL_MS cfg))) else ks (conn c))"
    and "client_ready sha1 c'"
proof -
  let ?args = "[tok, string_of_int (LOCK_TTL_MS cfg)]"
  have run: "\<exists>r. ks r = ks (conn c) \<and>
      fst (eval_script R Extend_lock now (lockKey d) ?args c) =
        fst (lua_run R Extend_lock now (lockKey d) ?args r) \<and>
      ks (conn (snd (eval_script R Extend_lock now (lockKey d) ?args c))) =
        ks (snd (lua_run R Extend_lock now (lockKey d) ?args r)) \<and>
      client_ready sha1 (snd (eval_script R Extend_lock now (lockKey d) ?args c))"
    by (rule eval_script_run [OF assms(1)]) (simp add: extend_lock_effect split: if_splits)
  then show "res = Inr (live (ks (conn c)) now (lockKey d) = Some (RString tok))"
    and "ks (conn c') = (if live (ks (conn c)) now (lockKey d) = Some (RString tok)
       then (ks (conn c))(lockKey d \<mapsto> (RString tok, Some (now + LOCK_TTL_MS cfg))) else ks (conn c))"
    and "client_ready sha1 c'"
    using assms(2)
    by (auto simp: extend_lock_def evalExtendLock_def extend_lock_effect split: prod.splits sum.splits if_splits)
qed

lemma lock_provides_leases:
  "lease_lock (LOCK_TTL_MS cfg) (acquire_op R cfg) (release_op R) (extend_op R cfg)
     (\<lambda>c. leases_in (ks (conn c))) (\<lambda>c. client_ready sha1 c \<and> lock_keys_ok (ks (conn c)))"
proof (unfold_locales, goal_cases)
  case (1 c now t d b c')
  obtain a where acq: "acquire R cfg now t d c = (a, c')" and b: "b = acquired a"
    using 1(2) by (auto simp: acquire_op_def map_prod_def split: prod.splits)
  then show ?case
    using 1(1) acquire_effect [OF acq] live_lockKey [of "ks (conn c)" now d]
    by (auto simp: lease_acquire_def client_ready_def)
next
  case (2 c now d t b c')
  obtain res where rel: "release R now d t c = (res, c')" and b: "b = (res = Inr True)"
    using 2(2) by (auto simp: release_op_def map_prod_def split: prod.splits)
  have ready: "client_ready sha1 c" using 2(1) by simp
  show ?case
    using 2(1) b release_effect [OF ready rel] live_lockKey [of "ks (conn c)" now d]
    by (auto simp: lease_release_def split: if_splits)
next
  case (3 c now d t b c')
  obtain res where ext: "extend_lock R cfg now d t c = (res, c')" and b: "b = (res = Inr True)"
    using 3(2) by (auto simp: extend_op_def map_prod_def split: prod.splits)
  have ready: "client_ready sha1 c" using 3(1) by simp
  show ?case
    using 3(1) b extend_effect [OF ready ext] live_lockKey [of "ks (conn c)" now d]
    by (auto simp: lease_extend_def split: if_splits)
qed

end

sublocale redis_service \<subseteq> lease: lease_lock "LOCK_TTL_MS cfg" "acquire_op R cfg" "release_op R"
    "extend_op R cfg" "\<lambda>c. leases_in (ks (conn c))"
    "\<lambda>c. client_ready sha1 c \<and> lock_keys_ok (ks (conn c))"
  for cfg
  by (rule lock_provides_leases)

context redis_service
begin

lemmas lock_exclusive = lease.exclusive
lemmas lock_heartbeats_keep = lease.heartbeats_keep

end

subsection \<open>Properties\<close>

text \<open>
  C11: mutual exclusion. Once a token has acquired the lock of a delivery, no sequence of acquires,
  releases and extends by other tokens succeeds before the lease runs out, and none of them changes
  the lease.
\<close>

theorem lock_mutual_exclusion:
  fixes R :: "'r redis_api"
  assumes "redis_service R ks scripts sha1"
    and "client_ready sha1 c" and "lock_keys_ok (ks (conn c))"
    and "acquire_op R cfg now tok d c = (True, c')"
    and "\<And>t op. (t, op) \<in> set ops \<Longrightarrow> op_token op \<noteq> tok \<and> t < now + LOCK_TTL_MS cfg"
    and "lock_run (acquire_op R cfg) (release_op R) (extend_op R cfg) d ops c' = (bs, c'')"
  shows "bs = replicate (length ops) False \<and>
    leases_in (ks (conn c'')) d = Some (tok, now + LOCK_TTL_MS cfg)"
proof -
  have ok: "client_ready sha1 c \<and> lock_keys_ok (ks (conn c))" using assms(2,3) by simp
  have excl: "True \<notin> set bs \<and> leases_in (ks (conn c'')) d = Some (tok, now + LOCK_TTL_MS cfg)"
    using redis_service.lock_exclusive [OF assms(1) ok assms(4) _ assms(6)] assms(5) by blast
  have "length bs = length ops" using lock_run_length [of "acquire_op R cfg" "release_op R" "extend_op R cfg" d ops c'] assms(6) by simp
  then show ?thesis using excl by (metis (full_types) replicate_eqI)
qed

lemma demo_lock_ready: "client_ready mem_sha1 mem_client" "lock_keys_ok (mem_ks (conn mem_client))"
  by (simp_all add: client_ready_def lock_keys_ok_def mem_client_def mem_empty_def)

lemma demo_lock_acquired: "acquire_op mem_redis default_config 0 ''a'' ''d1'' mem_client =
    (True, snd (acquire_op mem_redis default_config 0 ''a'' ''d1'' mem_client))"
  using mem.set_nx_fst [of mem_empty 0 "lockKey ''d1''" "''a''" "LOCK_TTL_MS default_config"]
  by (simp add: acquire_op_def acquire_def split_beta mem_client_def mem_empty_def live_def)

definition demo_ops :: "(ms \<times> lock_op) list" where
  "demo_ops = [(1000, Acquire ''b''), (30000, Release ''b''), (59999, Extend ''b'')]"

theorem lock_mutual_exclusion_witness:
  "fst (lock_run (acquire_op mem_redis default_config) (release_op mem_redis) (extend_op mem_redis default_config)
     ''d1'' demo_ops (snd (acquire_op mem_redis default_config 0 ''a'' ''d1'' mem_client))) = [False, False, False]"
proof -
  have ops: "op_token op \<noteq> ''a'' \<and> t < 0 + LOCK_TTL_MS default_config" if "(t, op) \<in> set demo_ops" for t op
    using that by (auto simp: demo_ops_def default_config_def)
  have len: "length demo_ops = 3" by (simp add: demo_ops_def)
  show ?thesis
    using lock_mutual_exclusion [OF mem.redis_service_axioms demo_lock_ready demo_lock_acquired ops
        prod.collapse [symmetric]]
    by (simp add: len numeral_3_eq_3)
qed

text \<open>
  C23: a holder that extends before each deadline keeps the lock for as long as it goes on: every
  extend succeeds and the deadline moves with the last one.
\<close>

theorem heartbeats_keep_lock:
  fixes R :: "'r redis_api"
  assumes "redis_service R ks scripts sha1"
    and "client_ready sha1 c" and "lock_keys_ok (ks (conn c))"
    and "acquire_op R cfg now tok d c = (True, c')"
    and "on_time (LOCK_TTL_MS cfg) (now + LOCK_TTL_MS cfg) ts"
    and "lock_run (acquire_op R cfg) (release_op R) (extend_op R cfg) d (map (\<lambda>t. (t, Extend tok)) ts) c' = (bs, c'')"
  shows "False \<notin> set bs \<and>
    leases_in (ks (conn c'')) d = Some (tok, (if ts = [] then now else last ts) + LOCK_TTL_MS cfg)"
  using redis_service.lock_heartbeats_keep [OF assms(1) _ assms(4,5,6)] assms(2,3) by blast

theorem heartbeats_keep_lock_witness:
  "False \<notin> set (fst (lock_run (acquire_op mem_redis default_config) (release_op mem_redis)
     (extend_op mem_redis default_config) ''d1'' (map (\<lambda>t. (t, Extend ''a'')) [20000, 40000, 60000, 80000])
     (snd (acquire_op mem_redis default_config 0 ''a'' ''d1'' mem_client))))"
proof -
  have "on_time (LOCK_TTL_MS default_config) (0 + LOCK_TTL_MS default_config) [20000, 40000, 60000, 80000]"
    by (simp add: default_config_def)
  from heartbeats_keep_lock [OF mem.redis_service_axioms demo_lock_ready demo_lock_acquired this prod.collapse [symmetric]]
  show ?thesis by blast
qed

text \<open>
  C12: refinement. On a Redis that keeps its contract the lock functions behave as a table of leases:
  any sequence of calls gives the same answers as the specification, and the keyspace represents the
  specification's table.
\<close>

theorem lock_refines_leases:
  fixes R :: "'r redis_api"
  assumes "redis_service R ks scripts sha1"
    and "client_ready sha1 c" and "lock_keys_ok (ks (conn c))"
    and "lock_run (acquire_op R cfg) (release_op R) (extend_op R cfg) d ops c = (bs, c')"
  shows "lease_run (LOCK_TTL_MS cfg) d ops (leases_in (ks (conn c))) = (bs, leases_in (ks (conn c')))"
  using lease_lock.lock_run_refines [OF redis_service.lock_provides_leases [OF assms(1)] _ assms(4)] assms(2,3)
  by blast

theorem lock_refines_leases_witness:
  "fst (lock_run (acquire_op mem_redis default_config) (release_op mem_redis) (extend_op mem_redis default_config)
     ''d1'' [(0, Acquire ''a''), (1, Acquire ''b''), (2, Release ''a''), (3, Acquire ''b'')] mem_client) =
   [True, False, True, True]"
proof -
  have "leases_in (mem_ks (conn mem_client)) = Map.empty"
    by (simp add: leases_in_def [abs_def] mem_client_def mem_empty_def)
  then show ?thesis
    using lock_refines_leases [OF mem.redis_service_axioms demo_lock_ready prod.collapse [symmetric], of default_config "''d1''"
        "[(0, Acquire ''a''), (1, Acquire ''b''), (2, Release ''a''), (3, Acquire ''b'')]"]
    by (simp add: lease_defs held_def default_config_def)
qed

end
