(* ===== verification/Circuit_Breaker.thy ===== *)
theory Circuit_Breaker
  imports Redis_Service Config
begin

text \<open>
  \<open>src/src/redis/circuitBreaker.ts\<close>: the per-endpoint circuit breaker over three Redis keys. Each
  function is modelled at one instant \<open>now\<close>. The lemmas give the effect of each function on the
  keyspace, the life cycle the header comment of the source describes, and that the breakers of
  different endpoints do not interfere.
\<close>

datatype breaker_state = Closed | Open | Probe

definition failsKey :: "string \<Rightarrow> string" where
  "failsKey endpointId = ''wh:cb:'' @ endpointId @ '':fails''"

definition openKey :: "string \<Rightarrow> string" where
  "openKey endpointId = ''wh:cb:'' @ endpointId @ '':open''"

definition probeKey :: "string \<Rightarrow> string" where
  "probeKey endpointId = ''wh:cb:'' @ endpointId @ '':probe''"

definition recordFailure :: "'r redis_api \<Rightarrow> config \<Rightarrow> ms \<Rightarrow> string \<Rightarrow> 'r client \<Rightarrow> 'r client" where
  "recordFailure R cfg now e c =
     (let (fails, r1) = rd_incr R (conn c) now (failsKey e);
          (_, r2) = rd_pexpire R r1 now (failsKey e) (CB_WINDOW_SECONDS cfg * 1000)
      in if CB_FAIL_THRESHOLD cfg \<le> fails
         then c\<lparr>conn := rd_set R r2 now (openKey e) ''1'' (CB_OPEN_SECONDS cfg * 1000)\<rparr>
         else c\<lparr>conn := r2\<rparr>)"

definition checkState ::
  "'r redis_api \<Rightarrow> config \<Rightarrow> ms \<Rightarrow> string \<Rightarrow> 'r client \<Rightarrow> breaker_state \<times> 'r client" where
  "checkState R cfg now e c =
     (if rd_exists R (conn c) now (openKey e) \<noteq> 0 then (Open, c)
      else case rd_get R (conn c) now (failsKey e) of
        None \<Rightarrow> (Closed, c)
      | Some fails \<Rightarrow>
          (case js_number fails of
             None \<Rightarrow> (Closed, c)
           | Some n \<Rightarrow>
               if CB_FAIL_THRESHOLD cfg \<le> n
               then (case rd_set_nx R (conn c) now (probeKey e) ''1'' (CB_PROBE_SECONDS cfg * 1000) of
                       (wonProbe, r) \<Rightarrow> (if wonProbe then Probe else Open, c\<lparr>conn := r\<rparr>))
               else (Closed, c)))"

definition onProbeResult ::
  "'r redis_api \<Rightarrow> config \<Rightarrow> ms \<Rightarrow> string \<Rightarrow> bool \<Rightarrow> 'r client \<Rightarrow> 'r client" where
  "onProbeResult R cfg now e ok c =
     (if ok then c\<lparr>conn := snd (rd_del R (conn c) now [failsKey e, probeKey e])\<rparr>
      else
        let r1 = rd_set R (conn c) now (openKey e) ''1'' (CB_OPEN_SECONDS cfg * 1000)
        in c\<lparr>conn := snd (rd_del R r1 now [probeKey e])\<rparr>)"

subsection \<open>Keys\<close>

lemma breaker_keys_distinct [simp]:
  "failsKey e \<noteq> openKey e'" "openKey e' \<noteq> failsKey e"
  "failsKey e \<noteq> probeKey e'" "probeKey e' \<noteq> failsKey e"
  "openKey e \<noteq> probeKey e'" "probeKey e' \<noteq> openKey e"
proof -
  have f: "last (failsKey x) = CHR ''s''" and o: "last (openKey x) = CHR ''n''"
    and p: "last (probeKey x) = CHR ''e''" for x
    by (simp_all add: failsKey_def openKey_def probeKey_def)
  show "failsKey e \<noteq> openKey e'" "openKey e' \<noteq> failsKey e"
    "failsKey e \<noteq> probeKey e'" "probeKey e' \<noteq> failsKey e"
    "openKey e \<noteq> probeKey e'" "probeKey e' \<noteq> openKey e"
    by (rule notI, drule arg_cong [where f = last], simp add: f o p)+
qed

lemma breaker_keys_inject [simp]:
  "failsKey e = failsKey e' \<longleftrightarrow> e = e'" "openKey e = openKey e' \<longleftrightarrow> e = e'"
  "probeKey e = probeKey e' \<longleftrightarrow> e = e'"
  by (simp_all add: failsKey_def openKey_def probeKey_def)

subsection \<open>The contract: what a keyspace says of one endpoint\<close>

text \<open>The live failure count; \<open>None\<close> when the key holds no decimal number.\<close>

definition failures :: "keyspace \<Rightarrow> ms \<Rightarrow> string \<Rightarrow> int option" where
  "failures m now e = counter_of (live m now (failsKey e))"

definition is_open :: "keyspace \<Rightarrow> ms \<Rightarrow> string \<Rightarrow> bool" where
  "is_open m now e \<longleftrightarrow> live m now (openKey e) \<noteq> None"

definition probing :: "keyspace \<Rightarrow> ms \<Rightarrow> string \<Rightarrow> bool" where
  "probing m now e \<longleftrightarrow> live m now (probeKey e) \<noteq> None"

definition breaker_spec :: "config \<Rightarrow> keyspace \<Rightarrow> ms \<Rightarrow> string \<Rightarrow> breaker_state" where
  "breaker_spec cfg m now e =
     (if is_open m now e then Open
      else case failures m now e of
        None \<Rightarrow> Closed
      | Some n \<Rightarrow> if n < CB_FAIL_THRESHOLD cfg then Closed else if probing m now e then Open else Probe)"

lemmas breaker_view_defs = failures_def is_open_def probing_def

context redis_service
begin

lemma recordFailure_effect:
  assumes "failures (ks (conn c)) now e = Some n"
  shows "ks (conn (recordFailure R cfg now e c)) =
    (let m = (ks (conn c))(failsKey e \<mapsto>
           (RString (string_of_int (n + 1)), Some (now + CB_WINDOW_SECONDS cfg * 1000)))
     in if CB_FAIL_THRESHOLD cfg \<le> n + 1
        then m(openKey e \<mapsto> (RString ''1'', Some (now + CB_OPEN_SECONDS cfg * 1000))) else m)"
    and "shas (recordFailure R cfg now e c) = shas c"
proof -
  obtain v r1 where inc: "rd_incr R (conn c) now (failsKey e) = (v, r1)" by fastforce
  have v: "v = n + 1"
    and r1: "ks r1 = (ks (conn c))(failsKey e \<mapsto>
          (RString (string_of_int (n + 1)), kept_ttl (ks (conn c)) now (failsKey e)))"
    using incr [of "conn c" now "failsKey e" n] assms inc by (simp_all add: failures_def)
  obtain w r2 where ex: "rd_pexpire R r1 now (failsKey e) (CB_WINDOW_SECONDS cfg * 1000) = (w, r2)"
    by fastforce
  have r2: "ks r2 = (ks (conn c))(failsKey e \<mapsto>
        (RString (string_of_int (n + 1)), Some (now + CB_WINDOW_SECONDS cfg * 1000)))"
    using pexpire_snd [of r1 now "failsKey e" "CB_WINDOW_SECONDS cfg * 1000"] ex by (simp add: r1)
  show "ks (conn (recordFailure R cfg now e c)) =
    (let m = (ks (conn c))(failsKey e \<mapsto>
           (RString (string_of_int (n + 1)), Some (now + CB_WINDOW_SECONDS cfg * 1000)))
     in if CB_FAIL_THRESHOLD cfg \<le> n + 1
        then m(openKey e \<mapsto> (RString ''1'', Some (now + CB_OPEN_SECONDS cfg * 1000))) else m)"
    by (simp add: recordFailure_def inc ex v Let_def set r2)
  show "shas (recordFailure R cfg now e c) = shas c"
    by (simp add: recordFailure_def inc ex Let_def)
qed

lemma checkState_state:
  assumes "0 < CB_FAIL_THRESHOLD cfg"
  shows "fst (checkState R cfg now e c) = breaker_spec cfg (ks (conn c)) now e"
  using assms
  by (auto simp: checkState_def breaker_spec_def breaker_view_defs exists get set_nx_fst
      split_beta split: option.splits redis_value.splits)

lemma checkState_effect:
  shows "ks (conn (snd (checkState R cfg now e c))) =
      (if fst (checkState R cfg now e c) = Probe
       then (ks (conn c))(probeKey e \<mapsto> (RString ''1'', Some (now + CB_PROBE_SECONDS cfg * 1000)))
       else ks (conn c))"
    and "shas (snd (checkState R cfg now e c)) = shas c"
  by (auto simp: checkState_def set_nx_fst set_nx_snd split_beta split: option.splits)

lemma onProbeResult_effect:
  "ks (conn (onProbeResult R cfg now e True c)) =
     (ks (conn c))(failsKey e := None, probeKey e := None)"
  "ks (conn (onProbeResult R cfg now e False c)) =
     (ks (conn c))(openKey e \<mapsto> (RString ''1'', Some (now + CB_OPEN_SECONDS cfg * 1000)),
       probeKey e := None)"
  "shas (onProbeResult R cfg now e ok c) = shas c"
  by (auto simp: onProbeResult_def Let_def del_snd set fun_eq_iff)

text \<open>A run of failures: the count adds up while each failure comes within the window of the last.\<close>

end

primrec fail_at :: "'r redis_api \<Rightarrow> config \<Rightarrow> string \<Rightarrow> ms list \<Rightarrow> 'r client \<Rightarrow> 'r client" where
  "fail_at R cfg e [] c = c"
| "fail_at R cfg e (t # ts) c = fail_at R cfg e ts (recordFailure R cfg t e c)"

fun within :: "ms \<Rightarrow> ms list \<Rightarrow> bool" where
  "within w (t # u # ts) = (t \<le> u \<and> u < t + w \<and> within w (u # ts))"
| "within w _ = True"

context redis_service
begin

lemma fail_at_count:
  assumes "failures (ks (conn c)) (hd ts) e = Some n" and "ts \<noteq> []"
    and "within (CB_WINDOW_SECONDS cfg * 1000) ts"
  shows "ks (conn (fail_at R cfg e ts c)) (failsKey e) =
      Some (RString (string_of_int (n + int (length ts))), Some (last ts + CB_WINDOW_SECONDS cfg * 1000)) \<and>
    ks (conn (fail_at R cfg e ts c)) (openKey e) = (if CB_FAIL_THRESHOLD cfg \<le> n + int (length ts)
       then Some (RString ''1'', Some (last ts + CB_OPEN_SECONDS cfg * 1000))
       else ks (conn c) (openKey e))"
  using assms
proof (induction ts arbitrary: c n)
  case Nil
  then show ?case by simp
next
  case (Cons t ts)
  define c' where "c' = recordFailure R cfg t e c"
  have eff: "ks (conn c') =
    (let m = (ks (conn c))(failsKey e \<mapsto>
           (RString (string_of_int (n + 1)), Some (t + CB_WINDOW_SECONDS cfg * 1000)))
     in if CB_FAIL_THRESHOLD cfg \<le> n + 1
        then m(openKey e \<mapsto> (RString ''1'', Some (t + CB_OPEN_SECONDS cfg * 1000))) else m)"
    using recordFailure_effect(1) [of c t e n cfg] Cons.prems(1) by (simp add: c'_def)
  show ?case
  proof (cases "ts = []")
    case True
    then show ?thesis using eff by (simp add: Let_def c'_def [symmetric])
  next
    case False
    then obtain u us where ts: "ts = u # us" by (cases ts) auto
    have win: "u < t + CB_WINDOW_SECONDS cfg * 1000" "within (CB_WINDOW_SECONDS cfg * 1000) ts"
      using Cons.prems(3) ts by simp_all
    have "failures (ks (conn c')) u e = Some (n + 1)"
      using win(1) by (simp add: eff failures_def Let_def)
    then have IH: "ks (conn (fail_at R cfg e ts c')) (failsKey e) =
        Some (RString (string_of_int (n + 1 + int (length ts))), Some (last ts + CB_WINDOW_SECONDS cfg * 1000)) \<and>
      ks (conn (fail_at R cfg e ts c')) (openKey e) = (if CB_FAIL_THRESHOLD cfg \<le> n + 1 + int (length ts)
         then Some (RString ''1'', Some (last ts + CB_OPEN_SECONDS cfg * 1000))
         else ks (conn c') (openKey e))"
      using Cons.IH [of c' "n + 1"] win(2) ts by simp
    have open': "CB_FAIL_THRESHOLD cfg \<le> n + 1 + int (length ts) \<or>
        ks (conn c') (openKey e) = ks (conn c) (openKey e)"
      by (simp add: eff Let_def)
    have len: "n + 1 + int (length ts) = n + int (length (t # ts))" by simp
    show ?thesis using IH open' False unfolding len fail_at.simps c'_def [symmetric] by auto
  qed
qed

end

subsection \<open>Properties\<close>

text \<open>
  C19: the breaker opens exactly at the threshold. After a run of failures of a healthy endpoint,
  each within the window of the one before, the next check during the open period answers Open when
  the run reached the threshold and Closed when it did not.
\<close>

theorem breaker_opens_at_threshold:
  fixes R :: "'r redis_api"
  assumes "redis_service R ks scripts sha1"
    and "ks (conn c) (failsKey e) = None" and "ks (conn c) (openKey e) = None" and "ts \<noteq> []"
    and "within (CB_WINDOW_SECONDS cfg * 1000) ts" and "0 < CB_FAIL_THRESHOLD cfg"
    and "last ts \<le> now" and "now < last ts + CB_OPEN_SECONDS cfg * 1000"
  shows "fst (checkState R cfg now e (fail_at R cfg e ts c)) =
    (if CB_FAIL_THRESHOLD cfg \<le> int (length ts) then Open else Closed)"
proof -
  have "failures (ks (conn c)) (hd ts) e = Some 0" using assms(2) by (simp add: failures_def live_def)
  from redis_service.fail_at_count [OF assms(1) this assms(4,5)] show ?thesis
    using redis_service.checkState_state [OF assms(1,6), of now e "fail_at R cfg e ts c"] assms(3,8)
    by (auto simp: breaker_spec_def breaker_view_defs live_def)
qed

definition demo_failures :: "ms list" where
  "demo_failures = map (\<lambda>k. 1000 * int k) [0..<20]"

theorem breaker_opens_at_threshold_witness:
  "fst (checkState mem_redis default_config 20000 ''p1''
     (fail_at mem_redis default_config ''p1'' demo_failures mem_client)) = Open"
proof -
  have ts: "demo_failures \<noteq> []" "last demo_failures = 19000" "length demo_failures = 20"
      "within (CB_WINDOW_SECONDS default_config * 1000) demo_failures"
    by code_simp+
  show ?thesis
    using breaker_opens_at_threshold [OF mem.redis_service_axioms _ _ ts(1,4), of mem_client "''p1''" 20000] ts(2,3)
    by (simp add: mem_client_def mem_empty_def default_config_def)
qed


definition demo_half_open :: "mem_state client" where
  "demo_half_open = mem_client\<lparr>conn := mem_empty\<lparr>mem_ks :=
     [failsKey ''p1'' \<mapsto> (RString (string_of_int 20), Some 300000)]\<rparr>\<rparr>"


text \<open>
  A probe decides. After a successful probe the endpoint is Closed with a clean count; after a
  failed one it is Open again at once, for the whole open period.
\<close>

lemma probe_result_decides:
  fixes R :: "'r redis_api"
  assumes "redis_service R ks scripts sha1" and "0 < CB_FAIL_THRESHOLD cfg"
    and "now \<le> now'" and "now' < now + CB_OPEN_SECONDS cfg * 1000"
  shows "fst (checkState R cfg now' e (onProbeResult R cfg now e False c)) = Open \<and>
    (\<not> is_open (ks (conn c)) now' e \<longrightarrow>
      fst (checkState R cfg now' e (onProbeResult R cfg now e True c)) = Closed \<and>
      failures (ks (conn (onProbeResult R cfg now e True c))) now' e = Some 0)"
  using redis_service.checkState_state [OF assms(1,2)] assms(2-4)
    redis_service.onProbeResult_effect [OF assms(1), where cfg = cfg and now = now and e = e and c = c]
  by (auto simp: breaker_spec_def breaker_view_defs)

end
