(* ===== verification/Token_Bucket.thy ===== *)
theory Token_Bucket
  imports Redis_Service Config
begin

text \<open>
  \<open>src/src/redis/tokenBucket.ts\<close> over \<open>token_bucket.lua\<close>: the per-endpoint cap on deliveries in
  flight. The lemmas give the effect of both operations on the number of tokens, the bounds every
  sequence of calls keeps, and the cap within one lifetime of the key.
\<close>

definition bucketKey :: "string \<Rightarrow> string" where
  "bucketKey endpointId = ''wh:rl:'' @ endpointId"

definition tryAcquire ::
  "'r redis_api \<Rightarrow> config \<Rightarrow> ms \<Rightarrow> string \<Rightarrow> 'r client \<Rightarrow> (exn + bool) \<times> 'r client" where
  "tryAcquire R cfg now endpointId c =
     (case evalTokenBucket R now (bucketKey endpointId) (RL_MAX_INFLIGHT cfg) (RL_TTL_SECONDS cfg) c of
        (Inl e, c') \<Rightarrow> (Inl e, c')
      | (Inr remaining, c') \<Rightarrow> (Inr (remaining \<noteq> - 1), c'))"

definition releaseBucketToken ::
  "'r redis_api \<Rightarrow> config \<Rightarrow> ms \<Rightarrow> string \<Rightarrow> 'r client \<Rightarrow> 'r client" where
  "releaseBucketToken R cfg now endpointId c =
     (let key = bucketKey endpointId;
          (current, r1) = rd_hincrby R (conn c) now key ''tokens'' 1;
          r2 = (if RL_MAX_INFLIGHT cfg < current
                then rd_hset R r1 now key ''tokens'' (string_of_int (RL_MAX_INFLIGHT cfg)) else r1)
      in c\<lparr>conn := snd (rd_pexpire R r2 now key (RL_TTL_SECONDS cfg * 1000))\<rparr>)"

lemma bucketKey_inject [simp]: "bucketKey e = bucketKey e' \<longleftrightarrow> e = e'"
  by (simp add: bucketKey_def)

subsection \<open>The number of tokens\<close>

text \<open>
  What the bucket of a live key holds: the hash and its \<open>tokens\<close>. \<open>bucket_ok\<close> says that the key
  is missing or holds a number of tokens between 0 and the cap.
\<close>

definition bucket_at :: "keyspace \<Rightarrow> ms \<Rightarrow> string \<Rightarrow> int option" where
  "bucket_at m now e = (case live m now (bucketKey e) of
     Some (RHash h) \<Rightarrow> (case h ''tokens'' of Some s \<Rightarrow> js_number s | None \<Rightarrow> None)
   | _ \<Rightarrow> None)"

definition bucket_ok :: "config \<Rightarrow> keyspace \<Rightarrow> string \<Rightarrow> bool" where
  "bucket_ok cfg m e \<longleftrightarrow>
     (case m (bucketKey e) of
        None \<Rightarrow> True
      | Some (RHash h, d) \<Rightarrow>
          (\<exists>n. h ''tokens'' = Some (string_of_int n) \<and> 0 \<le> n \<and> n \<le> RL_MAX_INFLIGHT cfg)
      | Some (RString s, d) \<Rightarrow> False)"

text \<open>Tokens a caller can count on: a missing bucket is a full one.\<close>

definition tokens_at :: "config \<Rightarrow> keyspace \<Rightarrow> ms \<Rightarrow> string \<Rightarrow> int" where
  "tokens_at cfg m now e = (case bucket_at m now e of None \<Rightarrow> RL_MAX_INFLIGHT cfg | Some n \<Rightarrow> n)"

lemma bucket_ok_cases:
  assumes "bucket_ok cfg m e"
  obtains (absent) "live m now (bucketKey e) = None" "bucket_at m now e = None"
  | (present) h n where "live m now (bucketKey e) = Some (RHash h)"
      "h ''tokens'' = Some (string_of_int n)" "0 \<le> n" "n \<le> RL_MAX_INFLIGHT cfg"
      "bucket_at m now e = Some n"
proof (cases "live m now (bucketKey e)")
  case None
  then show ?thesis using absent by (simp add: bucket_at_def)
next
  case (Some v)
  then obtain d where "m (bucketKey e) = Some (v, d)"
    by (auto simp: live_def split: option.splits if_splits)
  then obtain h n where "v = RHash h" "h ''tokens'' = Some (string_of_int n)" "0 \<le> n"
    "n \<le> RL_MAX_INFLIGHT cfg"
    using assms by (auto simp: bucket_ok_def split: redis_value.splits)
  then show ?thesis using present Some by (simp add: bucket_at_def)
qed

context redis_service
begin

lemma tryAcquire_effect:
  assumes ready: "client_ready sha1 c" and ok: "bucket_ok cfg (ks (conn c)) e"
    and "tryAcquire R cfg now e c = (res, c')" and pos: "0 < RL_MAX_INFLIGHT cfg"
  defines "n \<equiv> tokens_at cfg (ks (conn c)) now e"
  shows "res = Inr (0 < n)"
    and "\<exists>h. ks (conn c') = (if 0 < n
       then (ks (conn c))(bucketKey e \<mapsto> (RHash (h(''tokens'' \<mapsto> string_of_int (n - 1))),
              Some (now + RL_TTL_SECONDS cfg * 1000)))
       else ks (conn c))"
    and "client_ready sha1 c'"
proof -
  let ?k = "bucketKey e"
  let ?mx = "string_of_int (RL_MAX_INFLIGHT cfg)" and ?ttl = "string_of_int (RL_TTL_SECONDS cfg)"
  let ?ev = "eval_script R Token_bucket now ?k [?mx, ?ttl] c"
  obtain h where h: "hash_of (live (ks (conn c)) now ?k) = Some h"
    and n: "js_number (case h ''tokens'' of Some t \<Rightarrow> t | None \<Rightarrow> ?mx) = Some n"
    using ok by (cases rule: bucket_ok_cases [where now = now]) (auto simp: n_def tokens_at_def)
  have lua: "fst (lua_run R Token_bucket now ?k [?mx, ?ttl] r) = Inr (if n \<le> 0 then - 1 else n - 1)"
      "ks (snd (lua_run R Token_bucket now ?k [?mx, ?ttl] r)) = (if n \<le> 0 then ks r
        else (ks r)(?k \<mapsto> (RHash (h(''tokens'' \<mapsto> string_of_int (n - 1))),
               Some (now + RL_TTL_SECONDS cfg * 1000))))"
    if "ks r = ks (conn c)" for r
    using token_bucket_effect [of r now ?k h "RL_MAX_INFLIGHT cfg" n "RL_TTL_SECONDS cfg"] h n that
    by simp_all
  have "\<exists>r. ks r = ks (conn c) \<and> fst ?ev = fst (lua_run R Token_bucket now ?k [?mx, ?ttl] r) \<and>
      ks (conn (snd ?ev)) = ks (snd (lua_run R Token_bucket now ?k [?mx, ?ttl] r)) \<and>
      client_ready sha1 (snd ?ev)"
    by (rule eval_script_run [OF ready]) (use lua(1) in fastforce)
  then obtain r where r: "ks r = ks (conn c)"
    and fst_ev: "fst ?ev = Inr (if n \<le> 0 then - 1 else n - 1)"
    and snd_ev: "ks (conn (snd ?ev)) = (if n \<le> 0 then ks (conn c)
        else (ks (conn c))(?k \<mapsto> (RHash (h(''tokens'' \<mapsto> string_of_int (n - 1))),
               Some (now + RL_TTL_SECONDS cfg * 1000))))"
    and "client_ready sha1 (snd ?ev)"
    using lua by auto
  moreover have "res = Inr (0 < n) \<and> c' = snd ?ev"
    using assms(3) fst_ev by (cases ?ev) (auto simp: tryAcquire_def evalTokenBucket_def split: if_splits)
  ultimately show "res = Inr (0 < n)" and "client_ready sha1 c'"
    and "\<exists>h. ks (conn c') = (if 0 < n
       then (ks (conn c))(bucketKey e \<mapsto> (RHash (h(''tokens'' \<mapsto> string_of_int (n - 1))),
              Some (now + RL_TTL_SECONDS cfg * 1000)))
       else ks (conn c))"
    by auto
qed

text \<open>
  Returning a token: one more, capped. On a key that has expired (or was flushed) HINCRBY starts a
  new hash at 0, so the bucket then holds a single token.
\<close>

lemma releaseBucketToken_effect:
  fixes now :: ms
  assumes ok: "bucket_ok cfg (ks (conn c)) e" and pos: "0 < RL_MAX_INFLIGHT cfg"
  defines "n \<equiv> (case bucket_at (ks (conn c)) now e of None \<Rightarrow> 0 | Some n \<Rightarrow> n)"
  shows "\<exists>h. ks (conn (releaseBucketToken R cfg now e c)) =
      (ks (conn c))(bucketKey e \<mapsto>
        (RHash (h(''tokens'' \<mapsto> string_of_int (min (n + 1) (RL_MAX_INFLIGHT cfg)))),
         Some (now + RL_TTL_SECONDS cfg * 1000)))"
    and "shas (releaseBucketToken R cfg now e c) = shas c"
proof -
  let ?k = "bucketKey e"
  obtain h where h: "hash_of (live (ks (conn c)) now ?k) = Some h"
    and n: "field_int h ''tokens'' = Some n"
    using ok by (cases rule: bucket_ok_cases [where now = now]) (auto simp: n_def field_int_def)
  obtain v r1 where inc: "rd_hincrby R (conn c) now ?k ''tokens'' 1 = (v, r1)" by fastforce
  have v: "v = n + 1" and r1: "ks r1 = (ks (conn c))(?k \<mapsto>
      (RHash (h(''tokens'' \<mapsto> string_of_int (n + 1))), kept_ttl (ks (conn c)) now ?k))"
    using hincrby [OF h n, of 1] inc by simp_all
  define r2 where "r2 = (if RL_MAX_INFLIGHT cfg < v
      then rd_hset R r1 now ?k ''tokens'' (string_of_int (RL_MAX_INFLIGHT cfg)) else r1)"
  have hash1: "hash_of (live (ks r1) now ?k) = Some (h(''tokens'' \<mapsto> string_of_int (n + 1)))"
    by (simp add: r1)
  have r2: "\<exists>h' d. ks r2 = (ks (conn c))(?k \<mapsto>
      (RHash (h'(''tokens'' \<mapsto> string_of_int (min (n + 1) (RL_MAX_INFLIGHT cfg)))), d)) \<and>
      live (ks r2) now ?k \<noteq> None"
  proof (cases "RL_MAX_INFLIGHT cfg < v")
    case True
    then have "ks r2 = (ks (conn c))(?k \<mapsto>
        (RHash (h(''tokens'' \<mapsto> string_of_int (RL_MAX_INFLIGHT cfg))), kept_ttl (ks r1) now ?k))"
      by (simp add: r2_def hset [OF hash1]) (simp add: r1)
    moreover have "live (ks r2) now ?k \<noteq> None" using True by (simp add: r2_def hset [OF hash1])
    ultimately show ?thesis using True v by (auto simp: min_def)
  next
    case False
    then show ?thesis using r1 v by (auto simp: r2_def min_def)
  qed
  then obtain h' d where r2': "ks r2 = (ks (conn c))(?k \<mapsto>
      (RHash (h'(''tokens'' \<mapsto> string_of_int (min (n + 1) (RL_MAX_INFLIGHT cfg)))), d))"
      "live (ks r2) now ?k \<noteq> None" by blast
  then have live2: "live (ks r2) now ?k =
      Some (RHash (h'(''tokens'' \<mapsto> string_of_int (min (n + 1) (RL_MAX_INFLIGHT cfg)))))"
    by (auto simp: live_def split: option.splits if_splits)
  have rel: "releaseBucketToken R cfg now e c =
      c\<lparr>conn := snd (rd_pexpire R r2 now ?k (RL_TTL_SECONDS cfg * 1000))\<rparr>"
    by (simp add: releaseBucketToken_def inc r2_def Let_def)
  have "ks (conn (releaseBucketToken R cfg now e c)) =
      (ks (conn c))(?k \<mapsto>
        (RHash (h'(''tokens'' \<mapsto> string_of_int (min (n + 1) (RL_MAX_INFLIGHT cfg)))),
         Some (now + RL_TTL_SECONDS cfg * 1000)))"
    unfolding rel by (simp add: pexpire_snd live2) (simp add: r2'(1))
  then show "\<exists>h. ks (conn (releaseBucketToken R cfg now e c)) =
      (ks (conn c))(bucketKey e \<mapsto>
        (RHash (h(''tokens'' \<mapsto> string_of_int (min (n + 1) (RL_MAX_INFLIGHT cfg)))),
         Some (now + RL_TTL_SECONDS cfg * 1000)))" by blast
  show "shas (releaseBucketToken R cfg now e c) = shas c" by (simp add: rel)
qed

end

subsection \<open>Sequences of calls\<close>

datatype bucket_op = Take | Give

fun bucket_step :: "'r redis_api \<Rightarrow> config \<Rightarrow> string \<Rightarrow> ms \<times> bucket_op \<Rightarrow> 'r client \<Rightarrow> bool \<times> 'r client" where
  "bucket_step R cfg e (now, Take) c = map_prod (\<lambda>r. r = Inr True) id (tryAcquire R cfg now e c)"
| "bucket_step R cfg e (now, Give) c = (False, releaseBucketToken R cfg now e c)"

fun bucket_run :: "'r redis_api \<Rightarrow> config \<Rightarrow> string \<Rightarrow> (ms \<times> bucket_op) list \<Rightarrow> 'r client \<Rightarrow> bool list \<times> 'r client" where
  "bucket_run R cfg e [] c = ([], c)"
| "bucket_run R cfg e (x # xs) c =
     (let (b, c') = bucket_step R cfg e x c; (bs, c'') = bucket_run R cfg e xs c' in (b # bs, c''))"

definition takes :: "bool list \<Rightarrow> int" where
  "takes bs = int (length (filter id bs))"

definition gives :: "(ms \<times> bucket_op) list \<Rightarrow> int" where
  "gives ops = int (length (filter (\<lambda>x. snd x = Give) ops))"

lemma takes_simps [simp]: "takes [] = 0" "takes (b # bs) = (if b then 1 else 0) + takes bs"
  by (simp_all add: takes_def)

lemma gives_simps [simp]: "gives [] = 0" "gives (x # xs) = (if snd x = Give then 1 else 0) + gives xs"
  by (simp_all add: gives_def)

context redis_service
begin

lemma tokens_at_bounds:
  assumes "bucket_ok cfg m e" and "0 < RL_MAX_INFLIGHT cfg"
  shows "0 \<le> tokens_at cfg m now e \<and> tokens_at cfg m now e \<le> RL_MAX_INFLIGHT cfg"
  using assms by (elim bucket_ok_cases [where now = now]) (simp_all add: tokens_at_def)

lemma bucket_step_ok:
  assumes ready: "client_ready sha1 c" and ok: "bucket_ok cfg (ks (conn c)) e"
    and pos: "0 < RL_MAX_INFLIGHT cfg" and step: "bucket_step R cfg e (now, op) c = (b, c')"
  shows "client_ready sha1 c' \<and> bucket_ok cfg (ks (conn c')) e"
proof (cases op)
  case Take
  then obtain res where t: "tryAcquire R cfg now e c = (res, c')"
    using step by (auto simp: map_prod_def split: prod.splits)
  show ?thesis
    using tryAcquire_effect(2,3) [OF ready ok t pos] ok tokens_at_bounds [OF ok pos, of now]
    by (auto simp: bucket_ok_def)
next
  case Give
  then have c': "c' = releaseBucketToken R cfg now e c" using step by auto
  have "0 \<le> (case bucket_at (ks (conn c)) now e of None \<Rightarrow> 0 | Some n \<Rightarrow> n)"
    using ok by (elim bucket_ok_cases [where now = now]) auto
  then show ?thesis
    using releaseBucketToken_effect [OF ok pos, where now = now] ready c' pos
    by (auto simp: client_ready_def bucket_ok_def)
qed

text \<open>One call on a bucket that has not expired: what it does to the count and to the deadline.\<close>

lemma bucket_step_tokens:
  assumes ready: "client_ready sha1 c" and ok: "bucket_ok cfg (ks (conn c)) e"
    and pos: "0 < RL_MAX_INFLIGHT cfg" and step: "bucket_step R cfg e (now, op) c = (b, c')"
    and key: "ks (conn c) (bucketKey e) = Some (RHash h, Some dl)"
    and n: "h ''tokens'' = Some (string_of_int n)"
    and dl: "now < dl" "dl \<le> now + RL_TTL_SECONDS cfg * 1000"
  shows "(b \<longleftrightarrow> op = Take \<and> 0 < n) \<and> (\<exists>h' dl'. dl \<le> dl' \<and> dl' \<le> now + RL_TTL_SECONDS cfg * 1000 \<and>
      ks (conn c') (bucketKey e) = Some (RHash h', Some dl') \<and>
      h' ''tokens'' = Some (string_of_int
        (if op = Give then min (n + 1) (RL_MAX_INFLIGHT cfg) else if b then n - 1 else n)))"
proof -
  let ?m = "ks (conn c)"
  have at: "bucket_at ?m now e = Some n" using key n dl(1) by (simp add: bucket_at_def live_def)
  then have tk: "tokens_at cfg ?m now e = n" by (simp add: tokens_at_def)
  show ?thesis
  proof (cases op)
    case Take
    then obtain res where t: "tryAcquire R cfg now e c = (res, c')" and b: "b = (res = Inr True)"
      using step by (auto simp: map_prod_def split: prod.splits)
    show ?thesis
      using tryAcquire_effect(1,2) [OF ready ok t pos] key n dl b Take
      by (cases "0 < n") (auto simp: tk)
  next
    case Give
    then have c': "c' = releaseBucketToken R cfg now e c" and b: "\<not> b" using step by auto
    show ?thesis
      using releaseBucketToken_effect(1) [OF ok pos, where now = now] dl b Give by (auto simp: at c')
  qed
qed

lemma bucket_run_ok:
  assumes "client_ready sha1 c" and "bucket_ok cfg (ks (conn c)) e" and "0 < RL_MAX_INFLIGHT cfg"
    and "bucket_run R cfg e ops c = (bs, c')"
  shows "client_ready sha1 c' \<and> bucket_ok cfg (ks (conn c')) e"
  using assms
proof (induction ops arbitrary: c bs)
  case Nil
  then show ?case by simp
next
  case (Cons x ops)
  obtain now op b c1 bs1 where x: "x = (now, op)" and st: "bucket_step R cfg e x c = (b, c1)"
    and run: "bucket_run R cfg e ops c1 = (bs1, c')"
    using Cons.prems(4) by (cases x) (auto simp: Let_def split: prod.splits)
  show ?case
    using Cons.IH [OF _ _ Cons.prems(3) run] bucket_step_ok [OF Cons.prems(1-3)] st x by blast
qed

text \<open>Within one lifetime of the key, the successful takes never exceed the tokens put in.\<close>

lemma bucket_run_cap:
  assumes "client_ready sha1 c" and "bucket_ok cfg (ks (conn c)) e" and "0 < RL_MAX_INFLIGHT cfg"
    and "ks (conn c) (bucketKey e) = Some (RHash h, Some dl)"
    and "h ''tokens'' = Some (string_of_int n)" and "0 \<le> n"
    and "sorted (map fst ops)" and "\<And>t. t \<in> fst ` set ops \<Longrightarrow> t < dl \<and> dl \<le> t + RL_TTL_SECONDS cfg * 1000"
    and "bucket_run R cfg e ops c = (bs, c')"
  shows "takes bs \<le> n + gives ops"
  using assms
proof (induction ops arbitrary: c h dl n bs)
  case Nil
  then show ?case by simp
next
  case (Cons x ops)
  obtain now op b c1 bs1 where x: "x = (now, op)" and st: "bucket_step R cfg e (now, op) c = (b, c1)"
    and run: "bucket_run R cfg e ops c1 = (bs1, c')" and bs: "bs = b # bs1"
    using Cons.prems(9) by (cases x) (auto simp: Let_def split: prod.splits)
  have dl: "now < dl" "dl \<le> now + RL_TTL_SECONDS cfg * 1000" using Cons.prems(8) [of now] x by auto
  let ?n = "if op = Give then min (n + 1) (RL_MAX_INFLIGHT cfg) else if b then n - 1 else n"
  obtain h' dl' where b: "b \<longleftrightarrow> op = Take \<and> 0 < n"
    and next_key: "dl \<le> dl'" "dl' \<le> now + RL_TTL_SECONDS cfg * 1000"
      "ks (conn c1) (bucketKey e) = Some (RHash h', Some dl')"
      "h' ''tokens'' = Some (string_of_int ?n)"
    using bucket_step_tokens [OF Cons.prems(1-3) st Cons.prems(4,5) dl] by blast
  have c1: "client_ready sha1 c1" "bucket_ok cfg (ks (conn c1)) e"
    using bucket_step_ok [OF Cons.prems(1-3) st] by auto
  have later: "t < dl' \<and> dl' \<le> t + RL_TTL_SECONDS cfg * 1000" if "t \<in> fst ` set ops" for t
  proof -
    have "t < dl" using Cons.prems(8) [of t] that by auto
    moreover have "now \<le> t" using Cons.prems(7) that x by auto
    ultimately show ?thesis using next_key by linarith
  qed
  have nonneg: "0 \<le> ?n" using Cons.prems(3,6) b by auto
  have srt: "sorted (map fst ops)" using Cons.prems(7) by simp
  have "takes bs1 \<le> ?n + gives ops"
    by (rule Cons.IH [OF c1 Cons.prems(3) next_key(3,4) nonneg srt later run])
  then show ?case using b bs x by (cases op) (auto split: if_splits)
qed

end

subsection \<open>Properties\<close>

text \<open>
  The bucket stays within its bounds: after any sequence of takes and gives, at any times, the
  tokens a caller can see are between 0 and the cap, and a take succeeds exactly when one is there.
\<close>

lemma bucket_bounds:
  fixes R :: "'r redis_api"
  assumes "redis_service R ks scripts sha1" and "client_ready sha1 c"
    and "bucket_ok cfg (ks (conn c)) e" and "0 < RL_MAX_INFLIGHT cfg"
    and "bucket_run R cfg e ops c = (bs, c')"
  shows "0 \<le> tokens_at cfg (ks (conn c')) now e \<and> tokens_at cfg (ks (conn c')) now e \<le> RL_MAX_INFLIGHT cfg \<and>
    fst (tryAcquire R cfg now e c') = Inr (0 < tokens_at cfg (ks (conn c')) now e)"
proof -
  have ok: "client_ready sha1 c'" "bucket_ok cfg (ks (conn c')) e"
    using redis_service.bucket_run_ok [OF assms] by auto
  show ?thesis
    using redis_service.tokens_at_bounds [OF assms(1) ok(2) assms(4)]
      redis_service.tryAcquire_effect(1) [OF assms(1) ok prod.collapse [symmetric] assms(4)] by simp
qed


definition demo_bucket :: "mem_state client" where
  "demo_bucket = mem_client\<lparr>conn := mem_empty\<lparr>mem_ks :=
     [bucketKey ''p1'' \<mapsto> (RHash [''tokens'' \<mapsto> string_of_int 1], Some 120000)]\<rparr>\<rparr>"

definition demo_takes :: "(ms \<times> bucket_op) list" where
  "demo_takes = [(1, Take), (2, Take), (3, Give), (4, Take)]"


end
