(* ===== verification/Worker.thy ===== *)
theory Worker
  imports Outbound Deliveries_Repo Lock Circuit_Breaker Token_Bucket
begin

text \<open>
  \<open>src/src/worker/processor.ts\<close>, \<open>heartbeat.ts\<close>: one run of the BullMQ processor for one job, from
  the lock acquisition to the \<open>finally\<close> block. The world is the database, the Redis client, the
  clock and the log of what the run did outside (HTTP requests sent, \<open>moveToDelayed\<close> calls). The
  environment of the run says what each awaited call does that the program does not control: which
  awaits throw, what happens to each transaction, what the endpoint answers, when the heartbeat
  timer fires during the request and what other Redis clients did before each beat.
\<close>

record 'r world =
  wd_db :: db
  wd_redis :: "'r client"
  wd_now :: ts
  wd_sent :: "http_request list"
  wd_delayed :: "(string \<times> rat) list"

definition ms_now :: "'r world \<Rightarrow> ms" where
  "ms_now w = date_of_ts (wd_now w)"

datatype site =
    At_acquire | At_lock_delay | At_read | At_inactive_delay | At_checkState | At_circuit_record
  | At_tryAcquire | At_rate_delay | At_transition | At_breaker | At_record
  | At_release_bucket | At_release_lock

record 'r run_env =
  en_token :: string
  en_fault :: "site \<Rightarrow> exn option"
  en_tx :: "site \<Rightarrow> tx_fate"
  en_http :: "http_request \<Rightarrow> http_result"
  en_http_done :: ts
  en_beats :: "(ms \<times> ('r \<Rightarrow> 'r)) list"
  en_random :: rat

record bull_job =
  jobId :: string
  deliveryId :: string
  attemptsMade :: int

datatype flow = Return | Throw exn | Crash

definition INACTIVE_ENDPOINT_DELAY_MS :: int where "INACTIVE_ENDPOINT_DELAY_MS = 60000"
definition RATE_LIMIT_DELAY_MS :: int where "RATE_LIMIT_DELAY_MS = 5000"
definition RATE_LIMIT_JITTER_MS :: int where "RATE_LIMIT_JITTER_MS = 2000"
definition LOCK_CONTENTION_DELAY_MS :: int where "LOCK_CONTENTION_DELAY_MS = 5000"

fun isRealFailureOutcome :: "attempt_outcome \<Rightarrow> bool" where
  "isRealFailureOutcome outcome = (outcome = HTTP_ERROR \<or> outcome = TIMEOUT \<or> outcome = CONN_ERROR)"

text \<open>\<open>await job.moveToDelayed(...)\<close> followed by \<open>throw new DelayedError()\<close>.\<close>

definition moveToDelayed :: "'r run_env \<Rightarrow> site \<Rightarrow> bull_job \<Rightarrow> rat \<Rightarrow> 'r world \<Rightarrow> flow \<times> 'r world" where
  "moveToDelayed env site job until w = (case en_fault env site of
     Some e \<Rightarrow> (Throw e, w)
   | None \<Rightarrow> (Throw DelayedError, w\<lparr>wd_delayed := wd_delayed w @ [(jobId job, until)]\<rparr>))"

subsection \<open>\<open>withLockHeartbeat\<close>\<close>

text \<open>
  The timer callback at each beat: \<open>extend\<close>, and \<open>onLockLost\<close> when it answers false. The promise
  of a throwing \<open>extend\<close> has no handler, so it takes the process down (\<open>Beat_rejected\<close>).
\<close>

datatype beat_result = Beat_held | Beat_lost | Beat_rejected

fun heartbeat ::
  "'r redis_api \<Rightarrow> config \<Rightarrow> string \<Rightarrow> string \<Rightarrow> (ms \<times> ('r \<Rightarrow> 'r)) list \<Rightarrow> 'r client \<Rightarrow> beat_result \<times> 'r client"
where
  "heartbeat R cfg d tok [] c = (Beat_held, c)"
| "heartbeat R cfg d tok ((t, others) # beats) c =
     (case extend_lock R cfg t d tok (c\<lparr>conn := others (conn c)\<rparr>) of
        (Inl e, c') \<Rightarrow> (Beat_rejected, c')
      | (Inr stillHeld, c') \<Rightarrow>
          (case heartbeat R cfg d tok beats c' of
             (Beat_rejected, c'') \<Rightarrow> (Beat_rejected, c'')
           | (Beat_lost, c'') \<Rightarrow> (Beat_lost, c'')
           | (Beat_held, c'') \<Rightarrow> (if stillHeld then Beat_held else Beat_lost, c'')))"

subsection \<open>The outcome of one attempt\<close>

record attempt_result =
  ar_outcome :: attempt_outcome
  ar_httpStatus :: "int option"
  ar_responseBody :: "string option"
  ar_errorMessage :: "string option"
  ar_reason :: string

text \<open>\<open>${n / 1000}\<close>: the number of seconds, with up to three decimals and no trailing zeros.\<close>

definition seconds_str :: "int \<Rightarrow> string" where
  "seconds_str n = string_of_int (n div 1000) @
     (if n mod 1000 = 0 then []
      else ''.'' @ rev (dropWhile (\<lambda>c. c = CHR ''0'') (rev (pad 3 (n mod 1000)))))"

definition attempt_result_of :: "config \<Rightarrow> bool \<Rightarrow> deliver_outcome \<Rightarrow> attempt_result" where
  "attempt_result_of cfg lockLost res =
     (if lockLost then
        \<lparr>ar_outcome = LOCK_LOST, ar_httpStatus = None, ar_responseBody = None,
         ar_errorMessage = Some ''lock_lost'', ar_reason = ''lock_lost''\<rparr>
      else case res of
        Delivered_with r \<Rightarrow>
          \<lparr>ar_outcome = (if 200 \<le> dr_status r \<and> dr_status r < 300 then SUCCESS else HTTP_ERROR),
           ar_httpStatus = Some (dr_status r), ar_responseBody = Some (dr_body r),
           ar_errorMessage = (if 200 \<le> dr_status r \<and> dr_status r < 300 then None
                              else Some (''HTTP '' @ string_of_int (dr_status r))),
           ar_reason = ''http_'' @ string_of_int (dr_status r)\<rparr>
      | Deliver_error kind msg \<Rightarrow>
          \<lparr>ar_outcome = (case kind of Kind_timeout \<Rightarrow> TIMEOUT | Kind_conn_error \<Rightarrow> CONN_ERROR),
           ar_httpStatus = None, ar_responseBody = None, ar_errorMessage = Some msg,
           ar_reason = (case kind of
              Kind_timeout \<Rightarrow> ''timeout_'' @ seconds_str (HTTP_TIMEOUT_MS cfg) @ ''s''
            | Kind_conn_error \<Rightarrow> ''conn_error'')\<rparr>)"

definition outboundBody :: "delivery_for_worker \<Rightarrow> string" where
  "outboundBody d = json_stringify (JObj
     [(''event_id'', JStr (w_eventId d)),
      (''event_type'', JStr (w_eventType d)),
      (''created_at'', JStr (toISOString (w_receivedAt d))),
      (''data'', w_payload d)])"

definition outbound_request ::
  "hmac \<Rightarrow> ms \<Rightarrow> string \<Rightarrow> int \<Rightarrow> delivery_for_worker \<Rightarrow> http_request" where
  "outbound_request hm now did attemptNumber d =
     (let body = outboundBody d; timestampSeconds = now div 1000
      in \<lparr>hq_url = w_endpointUrl d,
          hq_headers = buildWebhookHeaders did attemptNumber timestampSeconds
            (sign hm (w_signingSecret d) timestampSeconds body),
          hq_body = body\<rparr>)"

subsection \<open>The try block\<close>

text \<open>Circuit open: record a failed attempt without touching the endpoint, and throw.\<close>

definition circuit_open_input ::
  "config \<Rightarrow> rat \<Rightarrow> string \<Rightarrow> int \<Rightarrow> ms \<Rightarrow> status \<Rightarrow> record_attempt_input" where
  "circuit_open_input cfg rnd did attemptNumber now fromStatus =
     \<lparr>ra_deliveryId = did, ra_attemptNumber = attemptNumber, ra_outcome = CIRCUIT_OPEN,
      ra_httpStatus = None, ra_responseBody = None, ra_errorMessage = Some ''circuit_open'',
      ra_latencyMs = 0, ra_startedAt = now, ra_finishedAt = now,
      ra_fromStatus = fromStatus, ra_toStatus = FAILED, ra_reason = ''circuit_open'',
      ra_nextAttemptAt = Some (now + webhookBackoff cfg rnd attemptNumber)\<rparr>"

definition fail_fast ::
  "config \<Rightarrow> 'r run_env \<Rightarrow> bull_job \<Rightarrow> int \<Rightarrow> status \<Rightarrow> 'r world \<Rightarrow> flow \<times> 'r world" where
  "fail_fast cfg env job attemptNumber fromStatus w =
     (case recordAttempt (en_tx env At_circuit_record) (wd_now w)
        (circuit_open_input cfg (en_random env) (deliveryId job) attemptNumber (ms_now w) fromStatus)
        (wd_db w) of
        (Inl e, s) \<Rightarrow> (Throw e, w\<lparr>wd_db := s\<rparr>)
      | (Inr _, s) \<Rightarrow> (Throw (ErrorExn ''circuit_open''), w\<lparr>wd_db := s\<rparr>))"

text \<open>The breaker bookkeeping after the request.\<close>

definition breaker_bookkeeping ::
  "'r redis_api \<Rightarrow> config \<Rightarrow> ms \<Rightarrow> string \<Rightarrow> breaker_state \<Rightarrow> attempt_outcome \<Rightarrow> 'r client \<Rightarrow> 'r client" where
  "breaker_bookkeeping R cfg now e breakerState outcome c =
     (if breakerState = Probe then onProbeResult R cfg now e (outcome = SUCCESS) c
      else if isRealFailureOutcome outcome then recordFailure R cfg now e c
      else c)"

definition attempt_input ::
  "config \<Rightarrow> rat \<Rightarrow> string \<Rightarrow> int \<Rightarrow> ms \<Rightarrow> ms \<Rightarrow> attempt_result \<Rightarrow> record_attempt_input" where
  "attempt_input cfg rnd did attemptNumber startedAt finishedAt ar =
     \<lparr>ra_deliveryId = did, ra_attemptNumber = attemptNumber, ra_outcome = ar_outcome ar,
      ra_httpStatus = ar_httpStatus ar, ra_responseBody = ar_responseBody ar,
      ra_errorMessage = ar_errorMessage ar, ra_latencyMs = finishedAt - startedAt,
      ra_startedAt = startedAt, ra_finishedAt = finishedAt,
      ra_fromStatus = DELIVERING,
      ra_toStatus = (if ar_outcome ar = SUCCESS then DELIVERED else FAILED),
      ra_reason = ar_reason ar,
      ra_nextAttemptAt = (if ar_outcome ar = SUCCESS then None
        else Some (finishedAt + webhookBackoff cfg rnd attemptNumber))\<rparr>"

text \<open>From the DELIVERING transition to the recorded attempt (lines 128 to 234).\<close>

definition attempt_delivery ::
  "'r redis_api \<Rightarrow> config \<Rightarrow> hmac \<Rightarrow> 'r run_env \<Rightarrow> bull_job \<Rightarrow> string \<Rightarrow> delivery_for_worker \<Rightarrow>
   int \<Rightarrow> breaker_state \<Rightarrow> 'r world \<Rightarrow> flow \<times> 'r world" where
  "attempt_delivery R cfg hm env job lock_token d attemptNumber breakerState w =
     (case transition (en_tx env At_transition) (wd_now w) (deliveryId job) (w_status d) DELIVERING
             Worker (''attempt_'' @ string_of_int attemptNumber) (wd_db w) of
        (Inl e, s) \<Rightarrow> (Throw e, w\<lparr>wd_db := s\<rparr>)
      | (Inr _, s) \<Rightarrow>
          let startedAt = ms_now w;
              req = outbound_request hm startedAt (deliveryId job) attemptNumber d;
              (beat, c) = heartbeat R cfg (deliveryId job) lock_token (en_beats env) (wd_redis w);
              w1 = w\<lparr>wd_db := s, wd_redis := c, wd_now := en_http_done env,
                     wd_sent := wd_sent w @ [req]\<rparr>
          in if beat = Beat_rejected then (Crash, w1)
             else
               let ar = attempt_result_of cfg (beat = Beat_lost) (deliver cfg (en_http env req));
                   finishedAt = ms_now w1
               in case (if breakerState = Probe \<or> isRealFailureOutcome (ar_outcome ar)
                        then en_fault env At_breaker else None) of
                    Some e \<Rightarrow> (Throw e, w1)
                  | None \<Rightarrow>
                      let w2 = w1\<lparr>wd_redis := breaker_bookkeeping R cfg finishedAt (w_endpointId d)
                                    breakerState (ar_outcome ar) (wd_redis w1)\<rparr>
                      in case recordAttempt (en_tx env At_record) (wd_now w2)
                                (attempt_input cfg (en_random env) (deliveryId job) attemptNumber
                                   startedAt finishedAt ar) (wd_db w2) of
                           (Inl e, s') \<Rightarrow> (Throw e, w2\<lparr>wd_db := s'\<rparr>)
                         | (Inr _, s') \<Rightarrow>
                             (if ar_outcome ar \<noteq> SUCCESS then Throw (ErrorExn (ar_reason ar)) else Return,
                              w2\<lparr>wd_db := s'\<rparr>))"

text \<open>
  The whole try block. The second component is the endpoint whose bucket token the run holds
  (\<open>bucketAcquired\<close> with the hoisted \<open>endpointId\<close>).
\<close>

definition process_try ::
  "'r redis_api \<Rightarrow> config \<Rightarrow> hmac \<Rightarrow> 'r run_env \<Rightarrow> bull_job \<Rightarrow> string \<Rightarrow> 'r world \<Rightarrow>
   flow \<times> string option \<times> 'r world" where
  "process_try R cfg hm env job lock_token w =
     (case en_fault env At_read of Some e \<Rightarrow> (Throw e, None, w) | None \<Rightarrow>
     (case getForDelivery (wd_db w) (deliveryId job) of None \<Rightarrow> (Return, None, w) | Some d \<Rightarrow>
      if w_status d = DELIVERED \<or> w_status d = DLQ then (Return, None, w)
      else
        let endpointId = w_endpointId d; attemptNumber = w_attemptCount d + 1
        in if \<not> w_endpointActive d then
             (case moveToDelayed env At_inactive_delay job
                     (of_int (ms_now w + INACTIVE_ENDPOINT_DELAY_MS)) w of
                (fl, w') \<Rightarrow> (fl, None, w'))
           else
             (case en_fault env At_checkState of Some e \<Rightarrow> (Throw e, None, w) | None \<Rightarrow>
              case checkState R cfg (ms_now w) endpointId (wd_redis w) of (breakerState, c1) \<Rightarrow>
              let w1 = w\<lparr>wd_redis := c1\<rparr>
              in if breakerState = Open then
                   (case fail_fast cfg env job attemptNumber (w_status d) w1 of
                      (fl, w') \<Rightarrow> (fl, None, w'))
                 else
                   (case en_fault env At_tryAcquire of Some e \<Rightarrow> (Throw e, None, w1) | None \<Rightarrow>
                    case tryAcquire R cfg (ms_now w1) endpointId (wd_redis w1) of
                      (Inl e, c2) \<Rightarrow> (Throw e, None, w1\<lparr>wd_redis := c2\<rparr>)
                    | (Inr False, c2) \<Rightarrow>
                        (case moveToDelayed env At_rate_delay job
                                (of_int (ms_now w1 + RATE_LIMIT_DELAY_MS) +
                                 (en_random env * of_int RATE_LIMIT_JITTER_MS * 2 -
                                  of_int RATE_LIMIT_JITTER_MS)) (w1\<lparr>wd_redis := c2\<rparr>) of
                           (fl, w') \<Rightarrow> (fl, None, w'))
                    | (Inr True, c2) \<Rightarrow>
                        (case attempt_delivery R cfg hm env job lock_token d attemptNumber breakerState
                                (w1\<lparr>wd_redis := c2\<rparr>) of
                           (fl, w') \<Rightarrow> (fl, Some endpointId, w'))))))"

text \<open>The finally block: a throw inside it replaces the outcome of the try block.\<close>

definition process_finally ::
  "'r redis_api \<Rightarrow> config \<Rightarrow> 'r run_env \<Rightarrow> bull_job \<Rightarrow> string \<Rightarrow> flow \<times> string option \<times> 'r world \<Rightarrow>
   flow \<times> 'r world" where
  "process_finally R cfg env job lock_token st = (case st of (fl, bucket, w) \<Rightarrow>
     if fl = Crash then (Crash, w)
     else
       (case (case bucket of
                Some e \<Rightarrow>
                  if e = [] then (None, w)
                  else (case en_fault env At_release_bucket of
                          Some ex \<Rightarrow> (Some ex, w)
                        | None \<Rightarrow> (None, w\<lparr>wd_redis :=
                            releaseBucketToken R cfg (ms_now w) e (wd_redis w)\<rparr>))
              | None \<Rightarrow> (None, w)) of
          (Some ex, w1) \<Rightarrow> (Throw ex, w1)
        | (None, w1) \<Rightarrow>
            (case en_fault env At_release_lock of
               Some ex \<Rightarrow> (Throw ex, w1)
             | None \<Rightarrow>
                 (case release R (ms_now w1) (deliveryId job) lock_token (wd_redis w1) of
                    (Inl ex, c) \<Rightarrow> (Throw ex, w1\<lparr>wd_redis := c\<rparr>)
                  | (Inr _, c) \<Rightarrow> (fl, w1\<lparr>wd_redis := c\<rparr>)))))"

definition processDelivery ::
  "'r redis_api \<Rightarrow> config \<Rightarrow> hmac \<Rightarrow> 'r run_env \<Rightarrow> bull_job \<Rightarrow> 'r world \<Rightarrow> flow \<times> 'r world" where
  "processDelivery R cfg hm env job w =
     (case en_fault env At_acquire of Some e \<Rightarrow> (Throw e, w) | None \<Rightarrow>
      case acquire R cfg (ms_now w) (en_token env) (deliveryId job) (wd_redis w) of
        (lk, c) \<Rightarrow>
          let w1 = w\<lparr>wd_redis := c\<rparr>
          in if \<not> acquired lk
             then moveToDelayed env At_lock_delay job
                    (of_int (ms_now w1 + LOCK_CONTENTION_DELAY_MS)) w1
             else process_finally R cfg env job (token lk)
                    (process_try R cfg hm env job (token lk) w1))"

end
