(* ===== verification/Invariants.thy ===== *)
theory Invariants
  imports Deliveries_Repo
begin

text \<open>
  The audit invariants of \<open>src/scripts/invariants.sql\<close> (\<open>SCHEMA.md\<close> section 1.7), and the stronger
  invariant \<open>db_inv\<close> that every write of the program preserves: attempt numbers of a delivery are
  1, 2, 3, \<dots> in order, \<open>attempt_count\<close> is their number, the status of a delivery is the target of
  its last transition row, the transitions to DELIVERED are as many as the SUCCESS attempts, keys
  are unique, references resolve, and every event has exactly one delivery.
\<close>

definition attempts_of :: "db \<Rightarrow> string \<Rightarrow> attempt_row list" where
  "attempts_of s i = filter (\<lambda>a. a_delivery_id a = i) (delivery_attempts s)"

definition transitions_of :: "db \<Rightarrow> string \<Rightarrow> transition_row list" where
  "transitions_of s i = filter (\<lambda>t. t_delivery_id t = i) (delivery_transitions s)"

definition delivered_rows :: "db \<Rightarrow> string \<Rightarrow> nat" where
  "delivered_rows s i = length (filter (\<lambda>t. t_to_status t = DELIVERED) (transitions_of s i))"

definition success_rows :: "db \<Rightarrow> string \<Rightarrow> nat" where
  "success_rows s i = length (filter (\<lambda>a. a_outcome a = SUCCESS) (attempts_of s i))"

subsection \<open>The five queries\<close>

definition audit_I1 :: "db \<Rightarrow> string list" where
  "audit_I1 s = filter (\<lambda>i. 1 < delivered_rows s i)
     (remdups (map t_delivery_id (filter (\<lambda>t. t_to_status t = DELIVERED) (delivery_transitions s))))"

definition audit_I2 :: "db \<Rightarrow> string list" where
  "audit_I2 s = filter
     (\<lambda>i. Max (set (map a_attempt_number (attempts_of s i))) \<noteq> int (length (attempts_of s i)))
     (remdups (map a_delivery_id (delivery_attempts s)))"

definition audit_I3 :: "db \<Rightarrow> string list" where
  "audit_I3 s = map d_id (filter (\<lambda>d. d_attempt_count d \<noteq> int (length (attempts_of s (d_id d))))
     (deliveries s))"

definition audit_I4 :: "ts \<Rightarrow> db \<Rightarrow> string list" where
  "audit_I4 now s = map d_id (filter (\<lambda>d. d_status d = DELIVERING \<and>
     d_updated_at d < now - 5 * 60 * 1000000) (deliveries s))"

definition audit_I5 :: "db \<Rightarrow> string list" where
  "audit_I5 s = map d_id (filter (\<lambda>d. d_status d = DELIVERED \<and>
     \<not> (\<exists>a \<in> set (delivery_attempts s). a_delivery_id a = d_id d \<and> a_outcome a = SUCCESS))
     (deliveries s))"

subsection \<open>The invariant\<close>

definition keys_ok :: "db \<Rightarrow> bool" where
  "keys_ok s \<longleftrightarrow> distinct (map d_id (deliveries s)) \<and> distinct (map ev_id (events s)) \<and>
     distinct (map ep_id (endpoints s)) \<and>
     distinct (map (\<lambda>e. (ev_client_id e, ev_idempotency_key e)) (events s)) \<and>
     distinct (map d_event_id (deliveries s)) \<and>
     d_event_id ` set (deliveries s) = ev_id ` set (events s) \<and>
     d_endpoint_id ` set (deliveries s) \<subseteq> ep_id ` set (endpoints s) \<and>
     a_delivery_id ` set (delivery_attempts s) \<subseteq> d_id ` set (deliveries s) \<and>
     t_delivery_id ` set (delivery_transitions s) \<subseteq> d_id ` set (deliveries s)"

text \<open>What the rows of one delivery say about it.\<close>

definition row_ok :: "attempt_row list \<Rightarrow> transition_row list \<Rightarrow> delivery_row \<Rightarrow> bool" where
  "row_ok as ts d \<longleftrightarrow>
     map a_attempt_number as = map int [1..<Suc (length as)] \<and>
     d_attempt_count d = int (length as) \<and>
     ts \<noteq> [] \<and> t_to_status (last ts) = d_status d \<and>
     length (filter (\<lambda>t. t_to_status t = DELIVERED) ts) = length (filter (\<lambda>a. a_outcome a = SUCCESS) as)"

definition db_inv :: "db \<Rightarrow> bool" where
  "db_inv s \<longleftrightarrow> keys_ok s \<and>
     (\<forall>d \<in> set (deliveries s). row_ok (attempts_of s (d_id d)) (transitions_of s (d_id d)) d)"

lemma db_inv_empty: "db_inv empty_db"
  by (simp add: db_inv_def keys_ok_def empty_db_def)

subsection \<open>The invariant answers the queries\<close>

lemma db_inv_row:
  assumes "db_inv s" and "find_delivery s i = Some d"
  shows "row_ok (attempts_of s i) (transitions_of s i) d"
  using assms find_row_Some [OF assms(2)] by (auto simp: db_inv_def)

lemma db_inv_references:
  assumes "db_inv s" and "find_delivery s i = Some d"
  obtains e ev where "find_endpoint s (d_endpoint_id d) = Some e" "find_event s (d_event_id d) = Some ev"
proof -
  have "d \<in> set (deliveries s)" using find_row_Some [OF assms(2)] by simp
  then have "d_endpoint_id d \<in> ep_id ` set (endpoints s)" "d_event_id d \<in> ev_id ` set (events s)"
    using assms(1) by (auto simp: db_inv_def keys_ok_def)
  then show ?thesis
    using that by (cases "find_endpoint s (d_endpoint_id d)"; cases "find_event s (d_event_id d)")
      (auto simp: find_row_None)
qed

lemma row_ok_numbers: "row_ok as ts d \<Longrightarrow> set (map a_attempt_number as) = {1..int (length as)}"
proof -
  assume "row_ok as ts d"
  then have "map a_attempt_number as = map int [1..<Suc (length as)]" by (simp add: row_ok_def)
  then have "set (map a_attempt_number as) = int ` {1..length as}"
    by (simp only: set_map set_upt) (auto simp: image_iff)
  also have "\<dots> = {1..int (length as)}"
    using image_int_atLeastAtMost [of 1 "length as"] by simp
  finally show ?thesis .
qed

lemma audit_I2_ok: "db_inv s \<Longrightarrow> audit_I2 s = []"
proof -
  assume inv: "db_inv s"
  have "Max (set (map a_attempt_number (attempts_of s i))) = int (length (attempts_of s i))"
    if "i \<in> a_delivery_id ` set (delivery_attempts s)" for i
  proof -
    from that inv obtain d where d: "d \<in> set (deliveries s)" "d_id d = i"
      by (auto simp: db_inv_def keys_ok_def)
    then have row: "row_ok (attempts_of s i) (transitions_of s i) d" using inv by (auto simp: db_inv_def)
    have "attempts_of s i \<noteq> []" using that by (auto simp: attempts_of_def filter_empty_conv)
    then have "1 \<le> int (length (attempts_of s i))" by (cases "attempts_of s i") auto
    then show ?thesis unfolding row_ok_numbers [OF row] by (intro Max_eqI) auto
  qed
  then show ?thesis by (auto simp: audit_I2_def filter_empty_conv)
qed

lemma audit_I3_ok: "db_inv s \<Longrightarrow> audit_I3 s = []"
  by (auto simp: audit_I3_def db_inv_def row_ok_def filter_empty_conv)

lemma audit_I5_ok: "db_inv s \<Longrightarrow> audit_I5 s = []"
proof -
  assume inv: "db_inv s"
  have "\<exists>a \<in> set (delivery_attempts s). a_delivery_id a = d_id d \<and> a_outcome a = SUCCESS"
    if d: "d \<in> set (deliveries s)" and st: "d_status d = DELIVERED" for d
  proof -
    let ?ts = "transitions_of s (d_id d)" and ?as = "attempts_of s (d_id d)"
    have row: "row_ok ?as ?ts d" using inv d by (simp add: db_inv_def)
    then have "last ?ts \<in> set (filter (\<lambda>t. t_to_status t = DELIVERED) ?ts)"
      using st by (simp add: row_ok_def)
    then have "0 < length (filter (\<lambda>t. t_to_status t = DELIVERED) ?ts)" by (rule length_pos_if_in_set)
    then have "filter (\<lambda>a. a_outcome a = SUCCESS) ?as \<noteq> []" using row by (auto simp: row_ok_def)
    then show ?thesis by (auto simp: filter_empty_conv attempts_of_def)
  qed
  then show ?thesis by (auto simp: audit_I5_def filter_empty_conv)
qed

subsection \<open>Writes\<close>

text \<open>
  The tables only grow: no attempt, transition, event or delivery row is ever removed, and the
  log rows are never rewritten.
\<close>

definition log_extends :: "db \<Rightarrow> db \<Rightarrow> bool" where
  "log_extends s s' \<longleftrightarrow> prefix (delivery_attempts s) (delivery_attempts s') \<and>
     prefix (delivery_transitions s) (delivery_transitions s') \<and>
     prefix (events s) (events s') \<and>
     prefix (map d_id (deliveries s)) (map d_id (deliveries s'))"

lemma log_extends_refl [simp]: "log_extends s s"
  by (simp add: log_extends_def)

lemma log_extends_trans [trans]: "log_extends s s' \<Longrightarrow> log_extends s' s'' \<Longrightarrow> log_extends s s''"
  unfolding log_extends_def by (elim conjE, intro conjI; erule (1) prefix_order.trans)

lemma attempts_of_mono: "log_extends s s' \<Longrightarrow> prefix (attempts_of s i) (attempts_of s' i)"
  by (auto simp: log_extends_def attempts_of_def prefix_def)

lemma transitions_of_mono: "log_extends s s' \<Longrightarrow> prefix (transitions_of s i) (transitions_of s' i)"
  by (auto simp: log_extends_def transitions_of_def prefix_def)

text \<open>
  One shape covers the writes of the repositories to one delivery: the row of \<open>i\<close> is rewritten
  by \<open>f\<close>, and attempt and transition rows of \<open>i\<close> are appended.
\<close>

definition write_delivery ::
  "string \<Rightarrow> (delivery_row \<Rightarrow> delivery_row) \<Rightarrow> attempt_row list \<Rightarrow> transition_row list \<Rightarrow> db \<Rightarrow> db" where
  "write_delivery i f as ts s = (update_delivery i f s)
     \<lparr>delivery_attempts := delivery_attempts s @ as,
      delivery_transitions := delivery_transitions s @ ts\<rparr>"

definition keeps_keys :: "(delivery_row \<Rightarrow> delivery_row) \<Rightarrow> bool" where
  "keeps_keys f \<longleftrightarrow> (\<forall>d. d_id (f d) = d_id d \<and> d_event_id (f d) = d_event_id d \<and>
     d_endpoint_id (f d) = d_endpoint_id d)"

lemma keeps_keysD:
  "keeps_keys f \<Longrightarrow> d_id (f d) = d_id d"
  "keeps_keys f \<Longrightarrow> d_event_id (f d) = d_event_id d"
  "keeps_keys f \<Longrightarrow> d_endpoint_id (f d) = d_endpoint_id d"
  by (auto simp: keeps_keys_def)

lemma write_delivery_extends: "keeps_keys f \<Longrightarrow> log_extends s (write_delivery i f as ts s)"
  using ids_update_delivery [of f i s]
  by (simp add: log_extends_def write_delivery_def keeps_keys_def)

lemma key_image_update:
  assumes "\<And>d. key (f d) = key d"
  shows "key ` set (deliveries (update_delivery i f s)) = key ` set (deliveries s)"
proof -
  have "map key (deliveries (update_delivery i f s)) = map key (deliveries s)"
    using assms by (simp add: update_delivery_def map_key_upd_where)
  then show ?thesis by (metis list.set_map)
qed

lemma write_delivery_keys_ok:
  assumes "keys_ok s" and "keeps_keys f"
    and "\<forall>a \<in> set as. a_delivery_id a = i" and "\<forall>t \<in> set ts. t_delivery_id t = i"
    and "as \<noteq> [] \<or> ts \<noteq> [] \<Longrightarrow> i \<in> d_id ` set (deliveries s)"
  shows "keys_ok (write_delivery i f as ts s)"
proof -
  have ids: "map d_id (deliveries (update_delivery i f s)) = map d_id (deliveries s)"
      "map d_event_id (deliveries (update_delivery i f s)) = map d_event_id (deliveries s)"
    using assms(2) by (simp_all add: keeps_keysD update_delivery_def map_key_upd_where)
  have img: "key ` set (deliveries (update_delivery i f s)) = key ` set (deliveries s)"
    if "\<And>d. key (f d) = key d" for key :: "delivery_row \<Rightarrow> string"
    using that by (rule key_image_update)
  show ?thesis
    using assms(1,3,4,5) ids img [of d_id] img [of d_event_id] img [of d_endpoint_id]
      keeps_keysD [OF assms(2)]
    by (cases as; cases ts) (auto simp: keys_ok_def write_delivery_def)
qed

lemma filter_own: "\<forall>x \<in> set xs. key x = i \<Longrightarrow> filter (\<lambda>x. key x = k) xs = (if k = i then xs else [])"
  by (induction xs) auto

lemma write_delivery_reads:
  assumes "\<forall>a \<in> set as. a_delivery_id a = i" and "\<forall>t \<in> set ts. t_delivery_id t = i"
  shows "attempts_of (write_delivery i f as ts s) k = attempts_of s k @ (if k = i then as else [])"
    and "transitions_of (write_delivery i f as ts s) k = transitions_of s k @ (if k = i then ts else [])"
  using assms by (simp_all add: attempts_of_def transitions_of_def write_delivery_def filter_own)

lemma find_delivery_write:
  "keeps_keys f \<Longrightarrow> find_delivery (write_delivery i f as ts s) k =
     (if k = i then map_option f (find_delivery s k) else find_delivery s k)"
  by (simp add: write_delivery_def find_delivery_update keeps_keysD)

text \<open>The one proof about \<open>db_inv\<close>: the written row has to agree with its extended logs.\<close>

lemma db_inv_write:
  assumes inv: "db_inv s" and f: "keeps_keys f"
    and as: "\<forall>a \<in> set as. a_delivery_id a = i" and ts: "\<forall>t \<in> set ts. t_delivery_id t = i"
    and known: "as \<noteq> [] \<or> ts \<noteq> [] \<Longrightarrow> i \<in> d_id ` set (deliveries s)"
    and row: "\<And>d. find_delivery s i = Some d \<Longrightarrow> row_ok (attempts_of s i) (transitions_of s i) d \<Longrightarrow>
      row_ok (attempts_of s i @ as) (transitions_of s i @ ts) (f d)"
  shows "db_inv (write_delivery i f as ts s)"
proof -
  have keys: "keys_ok s" using inv by (simp add: db_inv_def)
  have "row_ok (attempts_of (write_delivery i f as ts s) (d_id d'))
      (transitions_of (write_delivery i f as ts s) (d_id d')) d'"
    if "d' \<in> set (deliveries (write_delivery i f as ts s))" for d'
  proof -
    from that obtain d where d: "d \<in> set (deliveries s)" "d' = (if d_id d = i then f d else d)"
      by (auto simp: write_delivery_def update_delivery_def set_upd_where)
    then have found: "find_delivery s (d_id d) = Some d"
      using keys by (simp add: keys_ok_def find_row_unique)
    have id: "d_id d' = d_id d" using d f by (simp add: keeps_keysD)
    show ?thesis
      using row [of d] found d db_inv_row [OF inv found] id
      by (auto simp: write_delivery_reads [OF as ts])
  qed
  then show ?thesis
    using write_delivery_keys_ok [OF keys f as ts known] by (simp add: db_inv_def)
qed

subsection \<open>The repository writes have that shape\<close>

definition attempt_update :: "ts \<Rightarrow> record_attempt_input \<Rightarrow> delivery_row \<Rightarrow> delivery_row" where
  "attempt_update now input d = d\<lparr>d_status := ra_toStatus input,
     d_attempt_count := d_attempt_count d + 1,
     d_next_attempt_at := map_option ts_of_date (ra_nextAttemptAt input), d_updated_at := now\<rparr>"

definition status_update :: "ts \<Rightarrow> status \<Rightarrow> delivery_row \<Rightarrow> delivery_row" where
  "status_update now st d = d\<lparr>d_status := st, d_updated_at := now\<rparr>"

definition transition_row_of ::
  "ts \<Rightarrow> string \<Rightarrow> status \<Rightarrow> status \<Rightarrow> actor \<Rightarrow> string \<Rightarrow> transition_row" where
  "transition_row_of now i from_st to_st act reason =
     \<lparr>t_delivery_id = i, t_from_status = Some from_st, t_to_status = to_st, t_reason = Some reason,
      t_actor = act, t_created_at = now\<rparr>"

lemma transition_row_of_simps [simp]:
  "t_delivery_id (transition_row_of now i f t a r) = i"
  "t_to_status (transition_row_of now i f t a r) = t"
  by (simp_all add: transition_row_of_def)

lemma attempt_row_of_simps [simp]:
  "a_delivery_id (attempt_row_of input) = ra_deliveryId input"
  "a_attempt_number (attempt_row_of input) = ra_attemptNumber input"
  "a_outcome (attempt_row_of input) = ra_outcome input"
  by (simp_all add: attempt_row_of_def)

lemma keeps_keys_updates [simp, intro]:
  "keeps_keys (attempt_update now input)" "keeps_keys (status_update now st)"
  "keeps_keys (\<lambda>d. d\<lparr>d_enqueued := b, d_updated_at := now\<rparr>)"
  by (simp_all add: keeps_keys_def attempt_update_def status_update_def)

lemma recordAttempt_tx_shape:
  assumes "recordAttempt_tx now input s = Inr (u, s')"
  shows "ra_deliveryId input \<in> d_id ` set (deliveries s) \<and>
    (\<forall>a \<in> set (attempts_of s (ra_deliveryId input)). a_attempt_number a \<noteq> ra_attemptNumber input) \<and>
    s' = write_delivery (ra_deliveryId input) (attempt_update now input) [attempt_row_of input]
      [transition_row_of now (ra_deliveryId input) (ra_fromStatus input) (ra_toStatus input) Worker
         (ra_reason input)] s"
proof -
  have known: "ra_deliveryId input \<in> d_id ` set (deliveries s)"
    using assms by (auto simp: repo_tx_defs insert_attempt_def split: if_splits)
  then obtain d where d: "find_delivery s (ra_deliveryId input) = Some d"
    by (cases "find_delivery s (ra_deliveryId input)") (auto simp: find_row_None)
  have ids: "d_id ` set (deliveries (update_delivery i (attempt_update now input) s)) =
      d_id ` set (deliveries s)" for i s
    by (intro id_set_update_delivery) (simp add: attempt_update_def)
  show ?thesis
    using assms known d ids [of "ra_deliveryId input"]
    by (auto simp: repo_tx_defs insert_attempt_def insert_transition_def update_after_attempt_def
        attempts_of_def write_delivery_def update_delivery_def transition_row_of_def
        attempt_update_def [abs_def] split: if_splits)
qed

lemma transition_tx_shape:
  assumes "transition_tx now i from_st to_st act reason s = Inr (u, s')"
  shows "i \<in> d_id ` set (deliveries s) \<and>
    s' = write_delivery i (status_update now to_st) [] [transition_row_of now i from_st to_st act reason] s"
proof -
  have ids: "d_id ` set (deliveries (update_delivery i (status_update now to_st) s)) =
      d_id ` set (deliveries s)"
    by (intro id_set_update_delivery) (simp add: status_update_def)
  then show ?thesis
    using assms by (auto simp: repo_tx_defs insert_transition_def write_delivery_def
        update_delivery_def transition_row_of_def status_update_def [abs_def] split: if_splits)
qed

lemma retryFromDlq_tx_shape:
  assumes "retryFromDlq_tx uuid_in now raw s = Inr (r, s')"
  shows "s' = s \<and> r \<noteq> Retry_ok \<or>
    (\<exists>i d. uuid_in raw = Some i \<and> find_delivery s i = Some d \<and> d_status d = DLQ \<and> r = Retry_ok \<and>
       s' = write_delivery i (status_update now PENDING) []
         [transition_row_of now i DLQ PENDING Manual_retry ''manual_retry''] s)"
  using assms
  by (auto simp: repo_tx_defs insert_transition_def write_delivery_def update_delivery_def
      transition_row_of_def status_update_def [abs_def] split: option.splits if_splits)

lemma mark_enqueued_shape:
  "mark_enqueued now i s = write_delivery i (\<lambda>d. d\<lparr>d_enqueued := True, d_updated_at := now\<rparr>) [] [] s"
  by (simp add: mark_enqueued_def write_delivery_def)

subsection \<open>What each write keeps\<close>

text \<open>
  The condition on a recorded attempt: its number is at most one more than the attempts already
  there (smaller numbers are stale and the UNIQUE constraint rejects them), and DELIVERED goes with
  SUCCESS.
\<close>

definition record_guard :: "record_attempt_input \<Rightarrow> db \<Rightarrow> bool" where
  "record_guard input s \<longleftrightarrow> 1 \<le> ra_attemptNumber input \<and>
     ra_attemptNumber input \<le> int (length (attempts_of s (ra_deliveryId input))) + 1 \<and>
     (ra_toStatus input = DELIVERED \<longleftrightarrow> ra_outcome input = SUCCESS)"

lemma record_guard_mono: "log_extends s s' \<Longrightarrow> record_guard input s \<Longrightarrow> record_guard input s'"
  using prefix_length_le [OF attempts_of_mono, of s s' "ra_deliveryId input"]
  by (auto simp: record_guard_def)

lemma record_guard_next:
  assumes inv: "db_inv s" and g: "record_guard input s"
    and known: "ra_deliveryId input \<in> d_id ` set (deliveries s)"
    and fresh: "\<forall>a \<in> set (attempts_of s (ra_deliveryId input)). a_attempt_number a \<noteq> ra_attemptNumber input"
  shows "ra_attemptNumber input = int (length (attempts_of s (ra_deliveryId input))) + 1"
proof -
  let ?as = "attempts_of s (ra_deliveryId input)"
  obtain d where "find_delivery s (ra_deliveryId input) = Some d"
    using known by (cases "find_delivery s (ra_deliveryId input)") (auto simp: find_row_None)
  then have "set (map a_attempt_number ?as) = {1..int (length ?as)}"
    using db_inv_row [OF inv] row_ok_numbers by blast
  moreover have "ra_attemptNumber input \<notin> set (map a_attempt_number ?as)" using fresh by auto
  ultimately show ?thesis using g by (auto simp: record_guard_def)
qed

lemma row_ok_attempt:
  assumes "row_ok as ts d" and "a_attempt_number a = int (length as) + 1"
    and "d_status d' = t_to_status t" and "d_attempt_count d' = d_attempt_count d + 1"
    and "t_to_status t = DELIVERED \<longleftrightarrow> a_outcome a = SUCCESS"
  shows "row_ok (as @ [a]) (ts @ [t]) d'"
  using assms by (simp add: row_ok_def)

lemma row_ok_transition:
  assumes "row_ok as ts d" and "d_status d' = t_to_status t"
    and "d_attempt_count d' = d_attempt_count d" and "t_to_status t \<noteq> DELIVERED"
  shows "row_ok as (ts @ [t]) d'"
  using assms by (simp add: row_ok_def)

lemma recordAttempt_tx_inv:
  assumes inv: "db_inv s" and g: "record_guard input s" and run: "recordAttempt_tx now input s = Inr (u, s')"
  shows "db_inv s'"
proof -
  note shape = recordAttempt_tx_shape [OF run]
  have n: "ra_attemptNumber input = int (length (attempts_of s (ra_deliveryId input))) + 1"
    using record_guard_next [OF inv g] shape by blast
  show ?thesis
    unfolding conjunct2 [OF conjunct2 [OF shape]]
    using inv shape g n
    by (intro db_inv_write)
      (auto simp: attempt_update_def record_guard_def intro!: row_ok_attempt)
qed

lemma write_transition_inv:
  assumes "db_inv s" and "i \<in> d_id ` set (deliveries s)" and "to_st \<noteq> DELIVERED"
  shows "db_inv (write_delivery i (status_update now to_st) [] [transition_row_of now' i from_st to_st act reason] s)"
  using assms by (intro db_inv_write) (auto simp: status_update_def intro!: row_ok_transition)

lemma mark_enqueued_inv: "db_inv s \<Longrightarrow> db_inv (mark_enqueued now i s)"
  unfolding mark_enqueued_shape by (intro db_inv_write) (auto simp: row_ok_def)

lemma transition_shape:
  assumes "transition fate now i from_st to_st act reason s = (r, s')"
  shows "s' = s \<and> (\<exists>e. r = Inl e) \<or> i \<in> d_id ` set (deliveries s) \<and>
    s' = write_delivery i (status_update now to_st) [] [transition_row_of now i from_st to_st act reason] s"
  using assms transition_tx_shape [of now i from_st to_st act reason s]
  by (cases fate) (auto simp: transition_def split: sum.splits)

lemma transition_ok:
  assumes "i \<in> d_id ` set (deliveries s)"
  shows "transition Tx_ok now i from_st to_st act reason s =
    (Inr (), write_delivery i (status_update now to_st) [] [transition_row_of now i from_st to_st act reason] s)"
proof -
  have "d_id ` set (deliveries (update_delivery i (status_update now to_st) s)) = d_id ` set (deliveries s)"
    by (intro id_set_update_delivery) (simp add: status_update_def)
  then show ?thesis
    using assms by (simp add: transition_def repo_tx_defs insert_transition_def write_delivery_def
        update_delivery_def transition_row_of_def status_update_def [abs_def])
qed

lemma transition_inv:
  assumes "db_inv s" and "to_st \<noteq> DELIVERED" and "transition fate now i from_st to_st act reason s = (r, s')"
  shows "db_inv s' \<and> log_extends s s'"
  using transition_shape [OF assms(3)] assms(1,2)
  by (auto intro: write_transition_inv write_delivery_extends)

lemma recordAttempt_shape:
  assumes "recordAttempt fate now input s = (r, s')"
  shows "s' = s \<and> (\<exists>e. r = Inl e) \<or> recordAttempt_tx now input s = Inr ((), s')"
  using assms by (cases fate) (auto simp: recordAttempt_def split: sum.splits)

lemma recordAttempt_inv:
  assumes "db_inv s" and "record_guard input s" and "recordAttempt fate now input s = (r, s')"
  shows "db_inv s'"
  using recordAttempt_shape [OF assms(3)] assms(1) recordAttempt_tx_inv [OF assms(1,2)] by auto

lemma recordAttempt_extends:
  "recordAttempt fate now input s = (r, s') \<Longrightarrow> log_extends s s'"
  using recordAttempt_shape [of fate now input s r s'] recordAttempt_tx_shape [of now input s "()" s']
  by (auto intro: write_delivery_extends)

lemma retryFromDlq_shape:
  assumes "retryFromDlq uuid_in fate now raw s = (r, s')"
  shows "s' = s \<and> r \<noteq> Inr Retry_ok \<or>
    (\<exists>i d. uuid_in raw = Some i \<and> find_delivery s i = Some d \<and> d_status d = DLQ \<and>
       s' = write_delivery i (status_update now PENDING) []
         [transition_row_of now i DLQ PENDING Manual_retry ''manual_retry''] s)"
  using assms retryFromDlq_tx_shape [of uuid_in now raw s]
  by (cases fate) (fastforce simp: retryFromDlq_def split: sum.splits)+

lemma retryFromDlq_ok:
  assumes "uin raw = Some i" and "find_delivery s i = Some d" and "d_status d = DLQ"
  shows "retryFromDlq uin Tx_ok now raw s = (Inr Retry_ok, write_delivery i (status_update now PENDING) []
    [transition_row_of now i DLQ PENDING Manual_retry ''manual_retry''] s)"
proof -
  have "d_id ` set (deliveries (update_delivery i (status_update now PENDING) s)) = d_id ` set (deliveries s)"
    by (intro id_set_update_delivery) (simp add: status_update_def)
  then show ?thesis
    using assms find_row_known [OF assms(2)]
    by (simp add: retryFromDlq_def repo_tx_defs insert_transition_def write_delivery_def
        status_update_def [abs_def] transition_row_of_def update_delivery_def)
qed

lemma retryFromDlq_inv:
  assumes "db_inv s" and "retryFromDlq uuid_in fate now raw s = (r, s')"
  shows "db_inv s' \<and> log_extends s s'"
  using retryFromDlq_shape [OF assms(2)] assms(1)
  by (auto intro!: write_transition_inv write_delivery_extends dest: find_row_Some)

text \<open>A transaction keeps the invariant when its committed body does.\<close>

lemma withTx_safe:
  assumes "withTx fate fn s = (r, s')" and "db_inv s"
    and "\<And>a s''. fn s = Inr (a, s'') \<Longrightarrow> db_inv s'' \<and> log_extends s s''"
  shows "db_inv s' \<and> log_extends s s'"
  using withTx_invariant [of "\<lambda>s'. db_inv s' \<and> log_extends s s'" s fn fate] assms by simp

subsection \<open>The interface of a writer\<close>

text \<open>
  Every operation that writes the tables is a \<open>db_writer\<close>: from an allowed call it keeps the
  invariant, and it only ever extends the logs. What follows for all of them is proved once here.
\<close>

locale db_writer =
  fixes allowed :: "'a \<Rightarrow> db \<Rightarrow> bool"
    and exec :: "'a \<Rightarrow> db \<Rightarrow> db"
  assumes keeps_inv: "allowed a s \<Longrightarrow> db_inv s \<Longrightarrow> db_inv (exec a s)"
    and grows: "allowed a s \<Longrightarrow> db_inv s \<Longrightarrow> log_extends s (exec a s)"
begin

lemma audits_empty:
  assumes "allowed a s" and "db_inv s"
  shows "audit_I2 (exec a s) = [] \<and> audit_I3 (exec a s) = [] \<and> audit_I5 (exec a s) = []"
  using keeps_inv [OF assms] audit_I2_ok audit_I3_ok audit_I5_ok by blast

text \<open>A delivery stays in its table, and its attempt count never goes down.\<close>

lemma count_monotone:
  assumes "allowed a s" and "db_inv s" and d: "find_delivery s i = Some d"
  obtains d' where "find_delivery (exec a s) i = Some d'" "d_attempt_count d \<le> d_attempt_count d'"
proof -
  have ext: "log_extends s (exec a s)" and inv: "db_inv (exec a s)"
    using grows keeps_inv assms(1,2) by blast+
  have "i \<in> set (map d_id (deliveries s))" using find_row_Some [OF d] by auto
  then have "i \<in> set (map d_id (deliveries (exec a s)))"
    using ext set_mono_prefix unfolding log_extends_def by blast
  then obtain d' where d': "find_delivery (exec a s) i = Some d'"
    by (cases "find_delivery (exec a s) i") (auto simp: find_row_None)
  have "length (attempts_of s i) \<le> length (attempts_of (exec a s) i)"
    using attempts_of_mono [OF ext] by (rule prefix_length_le)
  then show ?thesis
    using that [OF d'] db_inv_row [OF assms(2) d] db_inv_row [OF inv d'] by (simp add: row_ok_def)
qed

end

interpretation record_writer: db_writer
  "\<lambda>(fate, now, input). record_guard input" "\<lambda>(fate, now, input) s. snd (recordAttempt fate now input s)"
  by unfold_locales
    (auto intro: recordAttempt_inv [OF _ _ prod.collapse [symmetric]]
       recordAttempt_extends [OF prod.collapse [symmetric]])

interpretation transition_writer: db_writer
  "\<lambda>(fate, now, i, from_st, to_st, act, reason) s. to_st \<noteq> DELIVERED"
  "\<lambda>(fate, now, i, from_st, to_st, act, reason) s. snd (transition fate now i from_st to_st act reason s)"
  by unfold_locales (auto dest: transition_inv [OF _ _ prod.collapse [symmetric]])

interpretation retry_writer: db_writer
  "\<lambda>(uuid_in, fate, now, raw) s. True" "\<lambda>(uuid_in, fate, now, raw) s. snd (retryFromDlq uuid_in fate now raw s)"
  by unfold_locales (auto dest: retryFromDlq_inv [OF _ prod.collapse [symmetric]])

text \<open>Recording the next attempt succeeds and does exactly this.\<close>

lemma recordAttempt_step:
  assumes "db_inv s" and "find_delivery s (ra_deliveryId input) = Some d"
    and "ra_attemptNumber input = d_attempt_count d + 1" and "d_attempt_count d < int4_max"
    and "ra_toStatus input = DELIVERED \<longleftrightarrow> ra_outcome input = SUCCESS"
  shows "\<exists>s'. recordAttempt Tx_ok now input s = (Inr (), s') \<and> db_inv s' \<and>
    delivery_attempts s' = delivery_attempts s @ [attempt_row_of input] \<and>
    find_delivery s' (ra_deliveryId input) = Some (d\<lparr>d_status := ra_toStatus input,
      d_attempt_count := d_attempt_count d + 1,
      d_next_attempt_at := map_option ts_of_date (ra_nextAttemptAt input), d_updated_at := now\<rparr>) \<and>
    delivery_transitions s' = delivery_transitions s @ [\<lparr>t_delivery_id = ra_deliveryId input,
      t_from_status = Some (ra_fromStatus input), t_to_status = ra_toStatus input,
      t_reason = Some (ra_reason input), t_actor = Worker, t_created_at = now\<rparr>] \<and>
    (\<forall>k. k \<noteq> ra_deliveryId input \<longrightarrow> find_delivery s' k = find_delivery s k)"
proof -
  let ?i = "ra_deliveryId input"
  have row: "row_ok (attempts_of s ?i) (transitions_of s ?i) d" using db_inv_row assms(1,2) by blast
  have g: "record_guard input s" using row assms(3,5) by (simp add: record_guard_def row_ok_def)
  have known: "?i \<in> d_id ` set (deliveries s)" using find_row_known [OF assms(2)] .
  have "ra_attemptNumber input \<notin> a_attempt_number ` set (attempts_of s ?i)"
    using row_ok_numbers [OF row] row assms(3) by (auto simp: row_ok_def)
  then have fresh: "\<not> (\<exists>a \<in> set (delivery_attempts s). a_delivery_id a = ?i \<and>
      a_attempt_number a = ra_attemptNumber input)"
    by (auto simp: attempts_of_def image_iff)
  obtain s' where run: "recordAttempt_tx now input s = Inr ((), s')"
    using known fresh assms(2-4)
    by (auto simp: repo_tx_defs insert_attempt_def insert_transition_def update_after_attempt_def
        id_set_update_delivery [where f = "\<lambda>d. d\<lparr>d_status := _, d_attempt_count := _ d, d_next_attempt_at := _, d_updated_at := _\<rparr>"])
  have "recordAttempt Tx_ok now input s = (Inr (), s')" by (simp add: recordAttempt_def run)
  then show ?thesis
    using recordAttempt_tx_inv [OF assms(1) g run] recordAttempt_tx_shape [OF run] assms(2)
    by (auto simp: find_delivery_write attempt_update_def) (auto simp: write_delivery_def transition_row_of_def)
qed

subsection \<open>Properties\<close>

text \<open>A database with one endpoint, one event and its delivery, as the API leaves it.\<close>

definition demo_db :: db where
  "demo_db = \<lparr>
     endpoints = [\<lparr>ep_id = ''p1'', ep_client_id = ''c1'', ep_url = ''https://x'', ep_signing_secret = ''s'',
       ep_is_active = True, ep_created_at = 0\<rparr>],
     events = [\<lparr>ev_id = ''v1'', ev_client_id = ''c1'', ev_idempotency_key = ''k1'',
       ev_event_type = ''order.paid'', ev_payload = JObj [], ev_received_at = 1000\<rparr>],
     deliveries = [\<lparr>d_id = ''d1'', d_event_id = ''v1'', d_endpoint_id = ''p1'', d_status = PENDING,
       d_attempt_count = 0, d_next_attempt_at = None, d_enqueued = False, d_created_at = 1000,
       d_updated_at = 1000\<rparr>],
     delivery_attempts = [],
     delivery_transitions = [\<lparr>t_delivery_id = ''d1'', t_from_status = None, t_to_status = PENDING,
       t_reason = Some ''created'', t_actor = Api, t_created_at = 1000\<rparr>]\<rparr>"

lemma demo_db_inv: "db_inv demo_db"
  by (simp add: demo_db_def db_inv_def keys_ok_def row_ok_def attempts_of_def transitions_of_def)

definition demo_input :: record_attempt_input where
  "demo_input = \<lparr>ra_deliveryId = ''d1'', ra_attemptNumber = 1, ra_outcome = SUCCESS,
     ra_httpStatus = Some 200, ra_responseBody = Some ''ok'', ra_errorMessage = None, ra_latencyMs = 5,
     ra_startedAt = 2, ra_finishedAt = 7, ra_fromStatus = DELIVERING, ra_toStatus = DELIVERED,
     ra_reason = ''http_200'', ra_nextAttemptAt = None\<rparr>"



text \<open>
  An attempt number that is already taken is rejected by the UNIQUE constraint and the whole
  transaction is rolled back, so a worker that lost its lock cannot overwrite a later result.
\<close>

lemma stale_attempt_rejected:
  assumes "db_inv s" and "find_delivery s (ra_deliveryId input) = Some d"
    and "1 \<le> ra_attemptNumber input" and "ra_attemptNumber input \<le> d_attempt_count d"
  shows "\<exists>e. recordAttempt fate now input s = (Inl e, s)"
proof -
  obtain r s' where run: "recordAttempt fate now input s = (r, s')" by (metis prod.exhaust)
  have row: "row_ok (attempts_of s (ra_deliveryId input)) (transitions_of s (ra_deliveryId input)) d"
    using db_inv_row assms(1,2) by blast
  then have "ra_attemptNumber input \<in> set (map a_attempt_number (attempts_of s (ra_deliveryId input)))"
    unfolding row_ok_numbers [OF row] using assms(3,4) by (simp add: row_ok_def)
  then show ?thesis
    using recordAttempt_shape [OF run] recordAttempt_tx_shape [of now input s "()" s'] run by auto
qed

text \<open>
  A manual retry takes a delivery out of the DLQ exactly once: it becomes PENDING with its
  attempts kept, one transition is logged, and a second retry is refused without a write.
\<close>

lemma retryFromDlq_once:
  assumes "uin raw = Some i" and "find_delivery s i = Some d" and "d_status d = DLQ"
    and "s' = snd (retryFromDlq uin Tx_ok now raw s)"
  shows "fst (retryFromDlq uin Tx_ok now raw s) = Inr Retry_ok \<and>
    find_delivery s' i = Some (d\<lparr>d_status := PENDING, d_updated_at := now\<rparr>) \<and>
    delivery_attempts s' = delivery_attempts s \<and>
    transitions_of s' i = transitions_of s i @ [\<lparr>t_delivery_id = i, t_from_status = Some DLQ,
      t_to_status = PENDING, t_reason = Some ''manual_retry'', t_actor = Manual_retry, t_created_at = now\<rparr>] \<and>
    retryFromDlq uin Tx_ok now' raw s' = (Inr (Retry_not_in_dlq PENDING), s')"
proof -
  have run: "retryFromDlq uin Tx_ok now raw s = (Inr Retry_ok, write_delivery i (status_update now PENDING) []
      [transition_row_of now i DLQ PENDING Manual_retry ''manual_retry''] s)"
    using retryFromDlq_ok [of uin raw i s d now] assms(1-3) by blast
  then have s': "s' = write_delivery i (status_update now PENDING) []
      [transition_row_of now i DLQ PENDING Manual_retry ''manual_retry''] s" using assms(4) by simp
  have "find_delivery s' i = Some (d\<lparr>d_status := PENDING, d_updated_at := now\<rparr>)"
    using assms(2) by (simp add: s' find_delivery_write status_update_def)
  then show ?thesis
    using run assms(1) s' by (simp add: write_delivery_reads retryFromDlq_def retryFromDlq_tx_def)
      (simp add: write_delivery_def transition_row_of_def)
qed

definition demo_dlq_db :: db where
  "demo_dlq_db = demo_db\<lparr>deliveries := map (\<lambda>d. d\<lparr>d_status := DLQ\<rparr>) (deliveries demo_db)\<rparr>"

end
