(* ===== verification/Worker_Safety.thy ===== *)
theory Worker_Safety
  imports Worker Invariants
begin

text \<open>
  What one run of the processor does to the database and to the outside, for every behaviour of
  Redis, of the network and of the endpoint: the lemmas here assume nothing about the Redis
  commands, so they hold when Redis loses, forgets or makes up keys.
\<close>

subsection \<open>The writes of a run\<close>

lemma attempt_input_simps [simp]:
  "ra_deliveryId (attempt_input cfg rnd did n st fin ar) = did"
  "ra_attemptNumber (attempt_input cfg rnd did n st fin ar) = n"
  "ra_outcome (attempt_input cfg rnd did n st fin ar) = ar_outcome ar"
  "ra_toStatus (attempt_input cfg rnd did n st fin ar) =
     (if ar_outcome ar = SUCCESS then DELIVERED else FAILED)"
  by (simp_all add: attempt_input_def)

lemma circuit_open_input_simps [simp]:
  "ra_deliveryId (circuit_open_input cfg rnd did n now from_st) = did"
  "ra_attemptNumber (circuit_open_input cfg rnd did n now from_st) = n"
  "ra_outcome (circuit_open_input cfg rnd did n now from_st) = CIRCUIT_OPEN"
  "ra_toStatus (circuit_open_input cfg rnd did n now from_st) = FAILED"
  by (simp_all add: circuit_open_input_def)

lemma getForDelivery_row:
  "getForDelivery s i = Some d \<Longrightarrow> \<exists>row. find_delivery s i = Some row \<and> w_id d = i \<and>
     w_status d = d_status row \<and> w_attemptCount d = d_attempt_count row"
  by (auto simp: getForDelivery_def split: option.splits dest: find_row_Some)

lemma worker_guard:
  assumes inv: "db_inv s" and d: "getForDelivery s i = Some d" and ext: "log_extends s s'"
    and "ra_deliveryId input = i" "ra_attemptNumber input = w_attemptCount d + 1"
    and "ra_toStatus input = DELIVERED \<longleftrightarrow> ra_outcome input = SUCCESS"
  shows "record_guard input s'"
proof -
  obtain row where row: "find_delivery s i = Some row" "w_attemptCount d = d_attempt_count row"
    using getForDelivery_row [OF d] by auto
  then have "record_guard input s"
    using db_inv_row [OF inv row(1)] assms(4-6) by (simp add: record_guard_def row_ok_def)
  then show ?thesis using ext record_guard_mono by blast
qed

text \<open>
  The ways a run can leave the database: untouched; one failed attempt recorded by the open
  circuit; the transition to DELIVERING; or that transition and one recorded attempt.
\<close>

inductive run_writes :: "string \<Rightarrow> db \<Rightarrow> db \<Rightarrow> bool" for i where
  untouched: "run_writes i s s"
| circuit: "getForDelivery s i = Some d \<Longrightarrow> w_status d \<noteq> DELIVERED \<Longrightarrow> w_status d \<noteq> DLQ \<Longrightarrow>
    recordAttempt fate now (circuit_open_input cfg rnd i (w_attemptCount d + 1) (date_of_ts now) (w_status d)) s
      = (r, s') \<Longrightarrow> run_writes i s s'"
| started: "getForDelivery s i = Some d \<Longrightarrow> w_status d \<noteq> DELIVERED \<Longrightarrow> w_status d \<noteq> DLQ \<Longrightarrow>
    transition fate now i (w_status d) DELIVERING Worker
      (''attempt_'' @ string_of_int (w_attemptCount d + 1)) s = (r, s') \<Longrightarrow> run_writes i s s'"
| attempted: "getForDelivery s i = Some d \<Longrightarrow> w_status d \<noteq> DELIVERED \<Longrightarrow> w_status d \<noteq> DLQ \<Longrightarrow>
    transition fate now i (w_status d) DELIVERING Worker
      (''attempt_'' @ string_of_int (w_attemptCount d + 1)) s = (Inr (), s1) \<Longrightarrow>
    recordAttempt fate' now' (attempt_input cfg rnd i (w_attemptCount d + 1) st fin ar) s1 = (r', s') \<Longrightarrow>
    run_writes i s s'"

lemma run_writes_inv:
  assumes "run_writes i s s'" and "db_inv s"
  shows "db_inv s' \<and> log_extends s s'"
  using assms
proof (cases rule: run_writes.cases)
  case (circuit d fate now cfg rnd r)
  then show ?thesis
    using worker_guard [OF assms(2) circuit(1) log_extends_refl] recordAttempt_inv [OF assms(2) _ circuit(4)]
      recordAttempt_extends [OF circuit(4)] by simp
next
  case (started d fate now r)
  then show ?thesis using transition_inv [OF assms(2) _ started(4)] by simp
next
  case (attempted d fate now s1 fate' now' cfg rnd st fin ar r')
  have s1: "db_inv s1" "log_extends s s1" using transition_inv [OF assms(2) _ attempted(4)] by simp_all
  have "record_guard (attempt_input cfg rnd i (w_attemptCount d + 1) st fin ar) s1"
    using worker_guard [OF assms(2) attempted(1) s1(2)] by simp
  then show ?thesis
    using recordAttempt_inv [OF s1(1) _ attempted(5)] recordAttempt_extends [OF attempted(5)] s1(2)
      log_extends_trans by blast
qed (simp add: assms(2))

subsection \<open>Following the run\<close>

lemma moveToDelayed_world [simp]:
  "wd_db (snd (moveToDelayed env at_site job until w)) = wd_db w"
  "wd_sent (snd (moveToDelayed env at_site job until w)) = wd_sent w"
  "wd_redis (snd (moveToDelayed env at_site job until w)) = wd_redis w"
  "wd_now (snd (moveToDelayed env at_site job until w)) = wd_now w"
  by (simp_all add: moveToDelayed_def split: option.splits)

lemma process_finally_world [simp]:
  "wd_db (snd (process_finally R cfg env job tok (fl, b, w))) = wd_db w"
  "wd_sent (snd (process_finally R cfg env job tok (fl, b, w))) = wd_sent w"
  "wd_delayed (snd (process_finally R cfg env job tok (fl, b, w))) = wd_delayed w"
  by (auto simp: process_finally_def split: option.splits sum.splits prod.splits)

text \<open>What an attempt leaves: where it stopped, and what it sent.\<close>

lemma attempt_delivery_cases:
  assumes "attempt_delivery R cfg hm env job tok d n bs w = (fl, w')"
  obtains (no_start) e where
      "transition (en_tx env At_transition) (wd_now w) (deliveryId job) (w_status d) DELIVERING Worker
         (''attempt_'' @ string_of_int n) (wd_db w) = (Inl e, wd_db w')"
      "wd_sent w' = wd_sent w" "fl = Throw e"
  | (stopped)
      "transition (en_tx env At_transition) (wd_now w) (deliveryId job) (w_status d) DELIVERING Worker
         (''attempt_'' @ string_of_int n) (wd_db w) = (Inr (), wd_db w')"
      "wd_sent w' = wd_sent w @ [outbound_request hm (ms_now w) (deliveryId job) n d]"
      "fl \<noteq> Return"
  | (finished) s1 beat c ar r where
      "transition (en_tx env At_transition) (wd_now w) (deliveryId job) (w_status d) DELIVERING Worker
         (''attempt_'' @ string_of_int n) (wd_db w) = (Inr (), s1)"
      "heartbeat R cfg (deliveryId job) tok (en_beats env) (wd_redis w) = (beat, c)" "beat \<noteq> Beat_rejected"
      "ar = attempt_result_of cfg (beat = Beat_lost)
         (deliver cfg (en_http env (outbound_request hm (ms_now w) (deliveryId job) n d)))"
      "recordAttempt (en_tx env At_record) (en_http_done env)
         (attempt_input cfg (en_random env) (deliveryId job) n (ms_now w) (date_of_ts (en_http_done env)) ar)
         s1 = (r, wd_db w')"
      "wd_sent w' = wd_sent w @ [outbound_request hm (ms_now w) (deliveryId job) n d]"
      "fl = (case r of Inl e \<Rightarrow> Throw e
               | Inr _ \<Rightarrow> if ar_outcome ar \<noteq> SUCCESS then Throw (ErrorExn (ar_reason ar)) else Return)"
proof -
  obtain r1 s1 where tr: "transition (en_tx env At_transition) (wd_now w) (deliveryId job) (w_status d)
      DELIVERING Worker (''attempt_'' @ string_of_int n) (wd_db w) = (r1, s1)" by (metis prod.exhaust)
  obtain beat c where hb: "heartbeat R cfg (deliveryId job) tok (en_beats env) (wd_redis w) = (beat, c)"
    by (metis prod.exhaust)
  show ?thesis
  proof (cases r1)
    case (Inl e)
    then show ?thesis using assms tr no_start [of e] by (auto simp: attempt_delivery_def)
  next
    case (Inr u)
    show ?thesis
    proof (cases "beat = Beat_rejected")
      case True
      then show ?thesis using assms tr hb Inr stopped by (auto simp: attempt_delivery_def Let_def)
    next
      case False
      then show ?thesis
        using assms tr hb Inr stopped finished [of s1 beat c]
        by (auto simp: attempt_delivery_def Let_def ms_now_def split: option.splits prod.splits
            sum.splits if_splits)
    qed
  qed
qed

text \<open>The delivery a run works on: present, and neither DELIVERED nor in the DLQ.\<close>

definition workable :: "db \<Rightarrow> string \<Rightarrow> delivery_for_worker \<Rightarrow> bool" where
  "workable s i d \<longleftrightarrow> getForDelivery s i = Some d \<and> w_status d \<noteq> DELIVERED \<and> w_status d \<noteq> DLQ"

lemma process_try_cases:
  assumes "process_try R cfg hm env job tok w = (fl, b, w')"
  obtains (quiet)
      "wd_db w' = wd_db w" "wd_sent w' = wd_sent w"
      "fl = Return \<Longrightarrow> \<nexists>d. workable (wd_db w) (deliveryId job) d" "fl \<noteq> Crash"
  | (circuit) d r where
      "workable (wd_db w) (deliveryId job) d" "w_endpointActive d"
      "recordAttempt (en_tx env At_circuit_record) (wd_now w)
         (circuit_open_input cfg (en_random env) (deliveryId job) (w_attemptCount d + 1) (ms_now w) (w_status d))
         (wd_db w) = (r, wd_db w')"
      "wd_sent w' = wd_sent w" "fl \<noteq> Return" "fl \<noteq> Crash" "b = None"
      "fl = Throw (case r of Inl e \<Rightarrow> e | Inr _ \<Rightarrow> ErrorExn ''circuit_open'')"
  | (attempt) d bs c where
      "workable (wd_db w) (deliveryId job) d" "w_endpointActive d"
      "bs \<noteq> Open" "b = Some (w_endpointId d)"
      "attempt_delivery R cfg hm env job tok d (w_attemptCount d + 1) bs (w\<lparr>wd_redis := c\<rparr>) = (fl, w')"
proof (cases "\<exists>d. workable (wd_db w) (deliveryId job) d")
  case False
  then show ?thesis
    using assms quiet by (auto simp: process_try_def workable_def split: option.splits)
next
  case True
  then obtain d where d: "workable (wd_db w) (deliveryId job) d" by blast
  then have read: "getForDelivery (wd_db w) (deliveryId job) = Some d"
      "w_status d \<noteq> DELIVERED" "w_status d \<noteq> DLQ" by (simp_all add: workable_def)
  obtain bs c where cs: "checkState R cfg (ms_now w) (w_endpointId d) (wd_redis w) = (bs, c)"
    by (metis prod.exhaust)
  obtain t c' where ta: "tryAcquire R cfg (ms_now w) (w_endpointId d) c = (t, c')" by (metis prod.exhaust)
  have now: "ms_now (w\<lparr>wd_redis := x\<rparr>) = ms_now w" for x by (simp add: ms_now_def)
  consider (fault) "en_fault env At_read \<noteq> None" | (inactive) "en_fault env At_read = None" "\<not> w_endpointActive d"
    | (fault2) "en_fault env At_read = None" "w_endpointActive d" "en_fault env At_checkState \<noteq> None"
    | (opened) "en_fault env At_read = None" "w_endpointActive d" "en_fault env At_checkState = None" "bs = Open"
    | (go) "en_fault env At_read = None" "w_endpointActive d" "en_fault env At_checkState = None" "bs \<noteq> Open"
    by blast
  then show ?thesis
  proof cases
    case fault
    then show ?thesis using assms quiet by (auto simp: process_try_def)
  next
    case inactive
    then show ?thesis
      using assms read quiet by (auto simp: process_try_def moveToDelayed_def split: option.splits)
  next
    case fault2
    then show ?thesis using assms read quiet by (auto simp: process_try_def)
  next
    case opened
    then show ?thesis
      using assms read cs circuit [OF d] now
      by (auto simp: process_try_def fail_fast_def Let_def split: prod.splits sum.splits)
  next
    case go
    show ?thesis
    proof (cases "en_fault env At_tryAcquire = None \<and> t = Inr True")
      case True
      then show ?thesis
        using assms read go cs ta attempt [OF d] now
        by (auto simp: process_try_def Let_def split: prod.splits)
    next
      case False
      then show ?thesis
        using assms read go cs ta quiet now
        by (cases t) (auto simp: process_try_def Let_def moveToDelayed_def split: prod.splits option.splits bool.splits)
    qed
  qed
qed

lemma process_finally_flow:
  "fst (process_finally R cfg env job tok (fl, b, w)) = Return \<Longrightarrow> fl = Return"
  "fst (process_finally R cfg env job tok (fl, b, w)) = Crash \<longleftrightarrow> fl = Crash"
  by (auto simp: process_finally_def split: option.splits sum.splits prod.splits if_splits)

lemma processDelivery_cases:
  assumes "processDelivery R cfg hm env job w = (fl, w')"
  obtains (refused)
      "wd_db w' = wd_db w" "wd_sent w' = wd_sent w" "fl \<noteq> Return" "fl \<noteq> Crash"
  | (ran) lk c fl0 b w2 where
      "acquire R cfg (ms_now w) (en_token env) (deliveryId job) (wd_redis w) = (lk, c)" "acquired lk"
      "process_try R cfg hm env job (token lk) (w\<lparr>wd_redis := c\<rparr>) = (fl0, b, w2)"
      "process_finally R cfg env job (token lk) (fl0, b, w2) = (fl, w')"
      "wd_db w' = wd_db w2" "wd_sent w' = wd_sent w2" "fl = Return \<Longrightarrow> fl0 = Return"
proof -
  obtain lk c where acq: "acquire R cfg (ms_now w) (en_token env) (deliveryId job) (wd_redis w) = (lk, c)"
    by (metis prod.exhaust)
  obtain fl0 b w2 where body: "process_try R cfg hm env job (token lk) (w\<lparr>wd_redis := c\<rparr>) = (fl0, b, w2)"
    by (metis prod_cases3)
  show ?thesis
  proof (cases "en_fault env At_acquire = None \<and> acquired lk")
    case True
    then have fin: "process_finally R cfg env job (token lk) (fl0, b, w2) = (fl, w')"
      using assms acq body by (simp add: processDelivery_def)
    then show ?thesis
      using ran [OF acq _ body fin] True process_finally_world(1,2) [of R cfg env job "token lk" fl0 b w2]
        process_finally_flow(1) [of R cfg env job "token lk" fl0 b w2] by simp
  next
    case False
    then show ?thesis
      using assms acq refused
      by (auto simp: processDelivery_def moveToDelayed_def Let_def split: option.splits)
  qed
qed

lemma attempt_delivery_writes:
  assumes d: "workable (wd_db w) (deliveryId job) d"
    and run: "attempt_delivery R cfg hm env job tok d (w_attemptCount d + 1) bs w = (fl, w')"
  shows "run_writes (deliveryId job) (wd_db w) (wd_db w')"
  using run
proof (cases rule: attempt_delivery_cases)
  case no_start
  then show ?thesis using d unfolding workable_def by (blast intro: started)
next
  case stopped
  then show ?thesis using d unfolding workable_def by (blast intro: started)
next
  case finished
  then show ?thesis using d unfolding workable_def by (blast intro: attempted)
qed

lemma processDelivery_writes:
  assumes "processDelivery R cfg hm env job w = (fl, w')"
  shows "run_writes (deliveryId job) (wd_db w) (wd_db w')"
  using assms
proof (cases rule: processDelivery_cases)
  case (ran lk c fl0 b w2)
  from ran(3) have "run_writes (deliveryId job) (wd_db w) (wd_db w2)"
  proof (cases rule: process_try_cases)
    case (circuit d r)
    then show ?thesis unfolding workable_def by (auto simp: ms_now_def intro: run_writes.circuit)
  next
    case (attempt d bs c')
    then show ?thesis using attempt_delivery_writes [OF _ attempt(5)] by simp
  qed (simp add: untouched)
  then show ?thesis using ran(5) by simp
qed (simp add: untouched)

lemma processDelivery_inv:
  assumes "db_inv (wd_db w)" and "processDelivery R cfg hm env job w = (fl, w')"
  shows "db_inv (wd_db w') \<and> log_extends (wd_db w) (wd_db w')"
  using run_writes_inv [OF processDelivery_writes [OF assms(2)] assms(1)] .

subsection \<open>No work on a finished delivery\<close>

lemma processDelivery_finished:
  assumes "\<nexists>d. workable (wd_db w) (deliveryId job) d"
    and "processDelivery R cfg hm env job w = (fl, w')"
  shows "wd_db w' = wd_db w \<and> wd_sent w' = wd_sent w"
  using assms(2)
proof (cases rule: processDelivery_cases)
  case (ran lk c fl0 b w2)
  from ran(3) show ?thesis
    by (cases rule: process_try_cases) (use assms(1) ran(5,6) in auto)
qed simp

subsection \<open>At most one request, and only after DELIVERING was committed\<close>

lemma processDelivery_sends:
  assumes "processDelivery R cfg hm env job w = (fl, w')"
  shows "wd_sent w' = wd_sent w \<or>
    (\<exists>d fate s1. workable (wd_db w) (deliveryId job) d \<and> w_endpointActive d \<and>
       wd_sent w' = wd_sent w @ [outbound_request hm (ms_now w) (deliveryId job) (w_attemptCount d + 1) d] \<and>
       transition fate (wd_now w) (deliveryId job) (w_status d) DELIVERING Worker
         (''attempt_'' @ string_of_int (w_attemptCount d + 1)) (wd_db w) = (Inr (), s1) \<and>
       log_extends s1 (wd_db w'))"
  using assms
proof (cases rule: processDelivery_cases)
  case (ran lk c fl0 b w2)
  from ran(3) show ?thesis
  proof (cases rule: process_try_cases)
    case (attempt d bs c')
    from attempt(5) show ?thesis
    proof (cases rule: attempt_delivery_cases)
      case stopped
      then show ?thesis
        using attempt ran(5,6)
        by (intro disjI2 exI [of _ d] exI [of _ "en_tx env At_transition"] exI [of _ "wd_db w'"])
          (simp add: ms_now_def)
    next
      case (finished s1 beat c0 ar r)
      then show ?thesis
        using attempt ran(5,6) recordAttempt_extends [OF finished(5)]
        by (intro disjI2 exI [of _ d] exI [of _ "en_tx env At_transition"] exI [of _ s1])
          (simp add: ms_now_def)
    qed (use ran(6) in simp)
  qed (use ran(6) in simp_all)
qed simp

subsection \<open>DELIVERED and completed jobs\<close>

lemma attempt_result_SUCCESS:
  "ar_outcome (attempt_result_of cfg lost (deliver cfg res)) = SUCCESS \<longleftrightarrow>
     \<not> lost \<and> (\<exists>st body. res = Response st body \<and> 200 \<le> st \<and> st < 300)"
  by (auto simp: attempt_result_of_def deliver_def split: http_result.splits deliver_error_kind.splits)

lemma recordAttempt_row:
  assumes "recordAttempt fate now input s = (r, s')" and "s' \<noteq> s"
  shows "\<exists>row. find_delivery s (ra_deliveryId input) = Some row \<and>
    find_delivery s' (ra_deliveryId input) = Some (attempt_update now input row) \<and>
    delivery_attempts s' = delivery_attempts s @ [attempt_row_of input]"
proof -
  have tx: "recordAttempt_tx now input s = Inr ((), s')" using recordAttempt_shape [OF assms(1)] assms(2) by auto
  note shape = recordAttempt_tx_shape [OF tx]
  then obtain row where "find_delivery s (ra_deliveryId input) = Some row"
    by (cases "find_delivery s (ra_deliveryId input)") (auto simp: find_row_None)
  moreover have "delivery_attempts s' = delivery_attempts s @ [attempt_row_of input]"
    using shape by (simp add: write_delivery_def)
  ultimately show ?thesis using shape by (simp add: find_delivery_write)
qed

lemma recordAttempt_ok_changes: "recordAttempt fate now input s = (Inr u, s') \<Longrightarrow> s' \<noteq> s"
  using recordAttempt_shape [of fate now input s "Inr u" s'] recordAttempt_tx_shape [of now input s "()" s']
  by (auto simp: write_delivery_def dest: arg_cong [of _ _ delivery_attempts])

lemma transition_row:
  assumes "transition fate now i from_st to_st act reason s = (Inr (), s')"
  shows "find_delivery s' i = map_option (status_update now to_st) (find_delivery s i)"
  using transition_shape [OF assms] by (auto simp: find_delivery_write)

text \<open>An attempt that did not end in DELIVERED leaves the row DELIVERING or FAILED.\<close>

lemma recordAttempt_status:
  assumes "recordAttempt fate now input s = (r, s')" and "find_delivery s' (ra_deliveryId input) = Some row'"
    and "\<And>row. find_delivery s (ra_deliveryId input) = Some row \<Longrightarrow> d_status row \<noteq> DELIVERED"
    and "d_status row' = DELIVERED"
  shows "ra_toStatus input = DELIVERED \<and> s' \<noteq> s"
proof (cases "s' = s")
  case True
  then show ?thesis using assms by simp
next
  case False
  then show ?thesis using recordAttempt_row [OF assms(1) False] assms(2,4) by (auto simp: attempt_update_def)
qed

lemma attempt_delivery_delivered:
  assumes row: "find_delivery (wd_db w) (deliveryId job) = Some row" "d_status row \<noteq> DELIVERED"
    and run: "attempt_delivery R cfg hm env job tok d n bs w = (fl, w')"
    and row': "find_delivery (wd_db w') (deliveryId job) = Some row'" "d_status row' = DELIVERED"
    and req: "req = outbound_request hm (ms_now w) (deliveryId job) n d"
  shows "wd_sent w' = wd_sent w @ [req] \<and>
    (\<exists>st body a. en_http env req = Response st body \<and> 200 \<le> st \<and> st < 300 \<and>
       delivery_attempts (wd_db w') = delivery_attempts (wd_db w) @ [a] \<and>
       a_delivery_id a = deliveryId job \<and> a_outcome a = SUCCESS \<and> a_attempt_number a = n \<and>
       a_http_status a = Some st)"
  using run
proof (cases rule: attempt_delivery_cases)
  case (no_start e)
  then show ?thesis
    using transition_shape [OF no_start(1)] row row' by (auto simp: find_delivery_write status_update_def)
next
  case stopped
  then show ?thesis using transition_row [OF stopped(1)] row row' by (auto simp: status_update_def)
next
  case (finished s1 beat c ar r)
  have s1: "find_delivery s1 (deliveryId job) = Some (status_update (wd_now w) DELIVERING row)"
    using transition_row [OF finished(1)] row by simp
  have res: "ar_outcome ar = SUCCESS" "wd_db w' \<noteq> s1"
    using recordAttempt_status [OF finished(5)] s1 row' by (simp_all add: status_update_def split: if_splits)
  obtain st body where resp: "en_http env req = Response st body" "200 \<le> st" "st < 300" "beat \<noteq> Beat_lost"
    using finished(4) res(1) req by (auto simp: attempt_result_SUCCESS)
  have "delivery_attempts s1 = delivery_attempts (wd_db w)"
    using transition_shape [OF finished(1)] by (auto simp: write_delivery_def)
  moreover have "ar_httpStatus ar = Some st"
    using finished(4) resp req by (simp add: attempt_result_of_def deliver_def)
  ultimately show ?thesis
    using finished(6) res resp req recordAttempt_row [OF finished(5) res(2)]
    by (auto simp: attempt_row_of_def attempt_input_def)
qed

lemma processDelivery_delivered:
  assumes w: "workable (wd_db w) (deliveryId job) d"
    and run: "processDelivery R cfg hm env job w = (fl, w')"
    and row': "find_delivery (wd_db w') (deliveryId job) = Some row'" "d_status row' = DELIVERED"
    and req: "req = outbound_request hm (ms_now w) (deliveryId job) (w_attemptCount d + 1) d"
  shows "wd_sent w' = wd_sent w @ [req] \<and>
    (\<exists>st body a. en_http env req = Response st body \<and> 200 \<le> st \<and> st < 300 \<and>
       delivery_attempts (wd_db w') = delivery_attempts (wd_db w) @ [a] \<and>
       a_delivery_id a = deliveryId job \<and> a_outcome a = SUCCESS \<and>
       a_attempt_number a = w_attemptCount d + 1 \<and> a_http_status a = Some st)"
proof -
  obtain row where row: "find_delivery (wd_db w) (deliveryId job) = Some row" "d_status row \<noteq> DELIVERED"
    using w getForDelivery_row unfolding workable_def by metis
  show ?thesis
    using run
  proof (cases rule: processDelivery_cases)
    case refused
    then show ?thesis using row row' by simp
  next
    case (ran lk c fl0 b w2)
    from ran(3) show ?thesis
    proof (cases rule: process_try_cases)
      case quiet
      then show ?thesis using row row' ran(5) by simp
    next
      case (circuit d r)
      then show ?thesis using recordAttempt_status [OF circuit(3)] row row' ran(5) by auto
    next
      case (attempt d' bs c')
      then have "d' = d" using w by (simp add: workable_def)
      then show ?thesis
        using attempt_delivery_delivered [OF _ _ attempt(5)] row row' ran(5,6) req
        by (simp add: ms_now_def)
    qed
  qed
qed

text \<open>A run that returns normally leaves nothing to do.\<close>

lemma processDelivery_return:
  assumes run: "processDelivery R cfg hm env job w = (Return, w')"
  shows "\<nexists>d. workable (wd_db w') (deliveryId job) d"
  using run
proof (cases rule: processDelivery_cases)
  case (ran lk c fl0 b w2)
  then have fl0: "fl0 = Return" by simp
  from ran(3) show ?thesis
  proof (cases rule: process_try_cases)
    case quiet
    then show ?thesis using fl0 ran(5) by simp
  next
    case (attempt d bs c')
    from attempt(5) show ?thesis
    proof (cases rule: attempt_delivery_cases)
      case (finished s1 beat c0 ar r)
      then obtain u where r: "r = Inr u" and ok: "ar_outcome ar = SUCCESS"
        using fl0 by (auto split: sum.splits if_splits)
      then have "wd_db w2 \<noteq> s1" using recordAttempt_ok_changes finished(5) by blast
      then obtain row where "find_delivery (wd_db w2) (deliveryId job) = Some row" "d_status row = DELIVERED"
        using recordAttempt_row [OF finished(5)] ok by (auto simp: attempt_update_def)
      then show ?thesis using ran(5) getForDelivery_row by (fastforce simp: workable_def)
    qed (use fl0 in auto)
  qed (use fl0 in auto)
qed simp

subsection \<open>Properties\<close>

text \<open>A run against the in-memory Redis: the endpoint answers 200, nothing fails.\<close>

definition demo_world :: "mem_state world" where
  "demo_world = \<lparr>wd_db = demo_db, wd_redis = mem_client, wd_now = 5000000, wd_sent = [], wd_delayed = []\<rparr>"

definition demo_env :: "mem_state run_env" where
  "demo_env = \<lparr>en_token = ''t1'', en_fault = (\<lambda>_. None), en_tx = (\<lambda>_. Tx_ok),
     en_http = (\<lambda>_. Response 200 ''ok''), en_http_done = 6000000, en_beats = [], en_random = 0\<rparr>"

definition demo_job :: bull_job where
  "demo_job = \<lparr>jobId = ''d1'', deliveryId = ''d1'', attemptsMade = 0\<rparr>"

text \<open>
  C5: whatever Redis, the network, the endpoint and the clock do, a run of the processor keeps the
  database consistent: attempts stay numbered 1, 2, 3, the count matches them, DELIVERED goes with a
  SUCCESS attempt (the audit queries I2, I3 and I5 stay empty), and no log row is lost or rewritten.
\<close>

theorem processDelivery_keeps_audits:
  fixes R :: "'r redis_api" and w :: "'r world"
  assumes "db_inv (wd_db w)" and "s' = wd_db (snd (processDelivery R cfg hm env job w))"
  shows "db_inv s' \<and> audit_I2 s' = [] \<and> audit_I3 s' = [] \<and> audit_I5 s' = [] \<and> log_extends (wd_db w) s'"
  using processDelivery_inv [OF assms(1) prod.collapse [symmetric]] assms(2)
    audit_I2_ok [of s'] audit_I3_ok [of s'] audit_I5_ok [of s'] by blast

theorem processDelivery_keeps_audits_witness:
  "audit_I3 (wd_db (snd (processDelivery mem_redis default_config (\<lambda>_ _. ''h'') demo_env demo_job demo_world))) = []"
  using processDelivery_keeps_audits [of demo_world _ mem_redis default_config "\<lambda>_ _. ''h''" demo_env demo_job]
  by (simp add: demo_world_def demo_db_inv)

lemma demo_workable: "\<exists>d. workable demo_db ''d1'' d"
  by (simp add: workable_def getForDelivery_def demo_db_def)

text \<open>
  C6: a run makes a delivery DELIVERED only by sending exactly one request for it, the one with the
  next attempt number, that the endpoint answered with a status from 200 to 299, and recording that
  attempt as SUCCESS.
\<close>

theorem delivered_only_on_success:
  fixes R :: "'r redis_api" and w w' :: "'r world"
  assumes "workable (wd_db w) (deliveryId job) d"
    and "processDelivery R cfg hm env job w = (fl, w')"
    and "find_delivery (wd_db w') (deliveryId job) = Some row" and "d_status row = DELIVERED"
  shows "\<exists>st body a. wd_sent w' = wd_sent w @
        [outbound_request hm (ms_now w) (deliveryId job) (w_attemptCount d + 1) d] \<and>
    en_http env (outbound_request hm (ms_now w) (deliveryId job) (w_attemptCount d + 1) d) = Response st body \<and>
    200 \<le> st \<and> st < 300 \<and>
    delivery_attempts (wd_db w') = delivery_attempts (wd_db w) @ [a] \<and> a_delivery_id a = deliveryId job \<and>
    a_outcome a = SUCCESS \<and> a_attempt_number a = w_attemptCount d + 1 \<and> a_http_status a = Some st"
  using processDelivery_delivered [OF assms refl] by blast

lemma demo_run_evaluated:
  "(case processDelivery mem_redis default_config (\<lambda>_ _. ''h'') demo_env demo_job demo_world of
      (Return, w') \<Rightarrow> map_option d_status (find_delivery (wd_db w') ''d1'') = Some DELIVERED | _ \<Rightarrow> False)"
  by code_simp

lemma demo_run_delivers:
  obtains w' row where
    "processDelivery mem_redis default_config (\<lambda>_ _. ''h'') demo_env demo_job demo_world = (Return, w')"
    "find_delivery (wd_db w') ''d1'' = Some row" "d_status row = DELIVERED"
  using demo_run_evaluated by (auto split: prod.splits flow.splits)

theorem delivered_only_on_success_witness:
  "\<exists>w' st body. snd (processDelivery mem_redis default_config (\<lambda>_ _. ''h'') demo_env demo_job demo_world) = w' \<and>
     length (wd_sent w') = 1 \<and> en_http demo_env (hd (wd_sent w')) = Response st body \<and> 200 \<le> st \<and> st < 300"
proof -
  obtain w' row where run: "processDelivery mem_redis default_config (\<lambda>_ _. ''h'') demo_env demo_job demo_world
      = (Return, w')" "find_delivery (wd_db w') ''d1'' = Some row" "d_status row = DELIVERED"
    by (rule demo_run_delivers)
  obtain d where "workable (wd_db demo_world) (deliveryId demo_job) d"
    using demo_workable by (auto simp: demo_world_def demo_job_def)
  from delivered_only_on_success [OF this run(1) _ run(3)] show ?thesis
    using run by (auto simp: demo_job_def demo_world_def)
qed

text \<open>
  C16: a job for a delivery that is DELIVERED, in the DLQ or gone changes nothing in the database
  and sends nothing, however often it is redelivered.
\<close>

theorem finished_delivery_untouched:
  fixes R :: "'r redis_api" and w :: "'r world"
  assumes "find_delivery (wd_db w) (deliveryId job) = None \<or>
      (\<exists>d. find_delivery (wd_db w) (deliveryId job) = Some d \<and> (d_status d = DELIVERED \<or> d_status d = DLQ))"
    and "w' = snd (processDelivery R cfg hm env job w)"
  shows "wd_db w' = wd_db w \<and> wd_sent w' = wd_sent w"
proof -
  have "\<nexists>d. workable (wd_db w) (deliveryId job) d"
    using assms(1) by (auto simp: workable_def dest: getForDelivery_row)
  then show ?thesis using processDelivery_finished [OF _ prod.collapse [symmetric]] assms(2) by blast
qed

theorem finished_delivery_untouched_witness:
  "wd_sent (snd (processDelivery mem_redis default_config (\<lambda>_ _. ''h'') demo_env demo_job
     (demo_world\<lparr>wd_db := demo_dlq_db\<rparr>))) = []"
  using finished_delivery_untouched [of demo_job "demo_world\<lparr>wd_db := demo_dlq_db\<rparr>" _ mem_redis default_config
      "\<lambda>_ _. ''h''" demo_env]
  by (simp add: demo_world_def demo_job_def demo_dlq_db_def demo_db_def)

text \<open>
  C17: a run that returns normally, so that BullMQ completes the job, has nothing left to deliver:
  the delivery is then DELIVERED, in the DLQ, or does not exist.
\<close>

theorem completed_job_is_finished:
  fixes R :: "'r redis_api" and w w' :: "'r world"
  assumes "db_inv (wd_db w)" and "processDelivery R cfg hm env job w = (Return, w')"
  shows "find_delivery (wd_db w') (deliveryId job) = None \<or>
    (\<exists>d. find_delivery (wd_db w') (deliveryId job) = Some d \<and> (d_status d = DELIVERED \<or> d_status d = DLQ))"
proof (cases "find_delivery (wd_db w') (deliveryId job)")
  case (Some row)
  have inv: "db_inv (wd_db w')" using processDelivery_inv [OF assms] by simp
  obtain e ev where "find_endpoint (wd_db w') (d_endpoint_id row) = Some e"
      "find_event (wd_db w') (d_event_id row) = Some ev"
    using db_inv_references [OF inv Some] by blast
  then show ?thesis
    using processDelivery_return [OF assms(2)] Some by (auto simp: workable_def getForDelivery_def)
qed simp

theorem completed_job_is_finished_witness:
  "\<exists>w'. processDelivery mem_redis default_config (\<lambda>_ _. ''h'') demo_env demo_job demo_world = (Return, w') \<and>
     (\<exists>d. find_delivery (wd_db w') ''d1'' = Some d \<and> (d_status d = DELIVERED \<or> d_status d = DLQ))"
proof -
  obtain w' row where run: "processDelivery mem_redis default_config (\<lambda>_ _. ''h'') demo_env demo_job demo_world
      = (Return, w')" "find_delivery (wd_db w') ''d1'' = Some row" by (rule demo_run_delivers)
  then show ?thesis
    using completed_job_is_finished [OF _ run(1)] by (simp add: demo_world_def demo_db_inv demo_job_def)
qed

text \<open>
  C18: a run sends at most one request, and only after the transition to DELIVERING for that attempt
  has been committed, so every request on the wire has its trace in the database.
\<close>

theorem request_after_commit:
  fixes R :: "'r redis_api" and w w' :: "'r world"
  assumes "w' = snd (processDelivery R cfg hm env job w)" and "wd_sent w' \<noteq> wd_sent w"
  shows "\<exists>d. workable (wd_db w) (deliveryId job) d \<and> w_endpointActive d \<and>
    wd_sent w' = wd_sent w @ [outbound_request hm (ms_now w) (deliveryId job) (w_attemptCount d + 1) d] \<and>
    \<lparr>t_delivery_id = deliveryId job, t_from_status = Some (w_status d), t_to_status = DELIVERING,
     t_reason = Some (''attempt_'' @ string_of_int (w_attemptCount d + 1)), t_actor = Worker,
     t_created_at = wd_now w\<rparr> \<in> set (delivery_transitions (wd_db w'))"
proof -
  obtain d fate s1 where d: "workable (wd_db w) (deliveryId job) d" "w_endpointActive d"
      "wd_sent w' = wd_sent w @ [outbound_request hm (ms_now w) (deliveryId job) (w_attemptCount d + 1) d]"
      "transition fate (wd_now w) (deliveryId job) (w_status d) DELIVERING Worker
         (''attempt_'' @ string_of_int (w_attemptCount d + 1)) (wd_db w) = (Inr (), s1)"
      "log_extends s1 (wd_db w')"
    using processDelivery_sends [of R cfg hm env job w "fst (processDelivery R cfg hm env job w)" w'] assms
    by auto
  have "delivery_transitions s1 = delivery_transitions (wd_db w) @ [transition_row_of (wd_now w) (deliveryId job)
      (w_status d) DELIVERING Worker (''attempt_'' @ string_of_int (w_attemptCount d + 1))]"
    using transition_shape [OF d(4)] by (auto simp: write_delivery_def)
  then have "transition_row_of (wd_now w) (deliveryId job) (w_status d) DELIVERING Worker
      (''attempt_'' @ string_of_int (w_attemptCount d + 1)) \<in> set (delivery_transitions (wd_db w'))"
    using d(5) set_mono_prefix by (fastforce simp: log_extends_def)
  then show ?thesis using d(1-3) by (auto simp: transition_row_of_def)
qed

theorem request_after_commit_witness:
  "\<exists>d. workable demo_db ''d1'' d \<and>
     wd_sent (snd (processDelivery mem_redis default_config (\<lambda>_ _. ''h'') demo_env demo_job demo_world)) =
       [outbound_request (\<lambda>_ _. ''h'') 5000 ''d1'' (w_attemptCount d + 1) d]"
proof -
  obtain w' st body where w': "snd (processDelivery mem_redis default_config (\<lambda>_ _. ''h'') demo_env demo_job demo_world) = w'"
      "length (wd_sent w') = 1" using demo_run_delivers processDelivery_delivered demo_workable
    by (metis (no_types, lifting) append_Nil demo_job_def demo_world_def bull_job.select_convs(2) length_Cons list.size(3) One_nat_def snd_conv world.select_convs(1) world.select_convs(4))
  then have "wd_sent w' \<noteq> wd_sent demo_world" by (auto simp: demo_world_def)
  from request_after_commit [OF w'(1) [symmetric] this] show ?thesis
    using w'(1) by (auto simp: demo_world_def demo_job_def ms_now_def date_of_ts_def)
qed

end
