(* ===== verification/Ingest.thy ===== *)
theory Ingest
  imports Invariants Redis_Service Js_Lib
begin

text \<open>
  \<open>src/src/db/ingest.ts\<close>: the idempotent acceptance of an event. Redis is consulted first as a
  cache of idempotency keys, the UNIQUE constraint on \<open>(client_id, idempotency_key)\<close> decides, and
  the event, its delivery and the first transition are written in one transaction. The ids
  PostgreSQL generates, the reading of texts as \<open>uuid\<close> and \<open>jsonb\<close>, the faults of the awaited
  calls and whether the un-awaited cache write arrives are arguments.
\<close>

record ingest_params =
  in_client_id :: string
  in_idempotency_key :: string
  in_event_type :: string
  in_payload :: json
  in_endpoint_id :: string

record ingest_result =
  ir_event_id :: string
  ir_delivery_id :: string
  ir_delivery_status :: status
  ir_is_new :: bool

record ingest_env =
  ie_get_fault :: "exn option"
  ie_select_fault :: "exn option"
  ie_fate :: tx_fate
  ie_event_id :: string
  ie_delivery_id :: string
  ie_cache_write :: bool

record pg_readers =
  uuid_in :: "string \<Rightarrow> string option"
  jsonb_in :: "string \<Rightarrow> json option"

definition idemRedisKey :: "string \<Rightarrow> string \<Rightarrow> string" where
  "idemRedisKey client_id idempotency_key = ''wh:idem:'' @ client_id @ '':'' @ idempotency_key"

definition undefined_row :: exn where
  "undefined_row = ErrorExn ''Cannot read properties of undefined''"

subsection \<open>The transaction\<close>

text \<open>A new event: its delivery in PENDING and the transition that creates it.\<close>

definition ingest_new_tx ::
  "pg_readers \<Rightarrow> ts \<Rightarrow> ingest_env \<Rightarrow> ingest_params \<Rightarrow> string \<Rightarrow> ingest_result tx" where
  "ingest_new_tx pg now env p eventId = (\<lambda>s.
     case uuid_in pg (in_endpoint_id p) of
       None \<Rightarrow> Inl (PgExn Invalid_text_representation)
     | Some endpoint \<Rightarrow>
         tx_bind (tx_stmt (insert_delivery
           \<lparr>d_id = ie_delivery_id env, d_event_id = eventId, d_endpoint_id = endpoint,
            d_status = PENDING, d_attempt_count = 0, d_next_attempt_at = None, d_enqueued = False,
            d_created_at = now, d_updated_at = now\<rparr>)) (\<lambda>_.
         tx_bind (tx_stmt (insert_transition
           \<lparr>t_delivery_id = ie_delivery_id env, t_from_status = None, t_to_status = PENDING,
            t_reason = Some ''created'', t_actor = Api, t_created_at = now\<rparr>)) (\<lambda>_.
         tx_return \<lparr>ir_event_id = eventId, ir_delivery_id = ie_delivery_id env,
           ir_delivery_status = PENDING, ir_is_new = True\<rparr>)) s)"

text \<open>A known key: the event and delivery that are already there.\<close>

definition ingest_existing_tx :: "ingest_params \<Rightarrow> ingest_result tx" where
  "ingest_existing_tx p = (\<lambda>s.
     case find_row (\<lambda>e. (ev_client_id e, ev_idempotency_key e))
            (in_client_id p, in_idempotency_key p) (events s) of
       None \<Rightarrow> Inl undefined_row
     | Some e \<Rightarrow>
         (case find_row d_event_id (ev_id e) (deliveries s) of
            None \<Rightarrow> Inl undefined_row
          | Some d \<Rightarrow> Inr (\<lparr>ir_event_id = ev_id e, ir_delivery_id = d_id d,
                             ir_delivery_status = d_status d, ir_is_new = False\<rparr>, s)))"

definition ingest_tx :: "pg_readers \<Rightarrow> ts \<Rightarrow> ingest_env \<Rightarrow> ingest_params \<Rightarrow> ingest_result tx" where
  "ingest_tx pg now env p = (\<lambda>s.
     case jsonb_in pg (json_stringify (in_payload p)) of
       None \<Rightarrow> Inl (PgExn Invalid_text_representation)
     | Some payload \<Rightarrow>
         tx_bind (insert_event_on_conflict
           \<lparr>ev_id = ie_event_id env, ev_client_id = in_client_id p,
            ev_idempotency_key = in_idempotency_key p, ev_event_type = in_event_type p,
            ev_payload = payload, ev_received_at = now\<rparr>) (\<lambda>inserted.
         case inserted of
           Some eventId \<Rightarrow> ingest_new_tx pg now env p eventId
         | None \<Rightarrow> ingest_existing_tx p) s)"

subsection \<open>\<open>ingestEvent\<close>\<close>

text \<open>The fast path: a cached event id whose delivery is in the database.\<close>

definition ingest_cached ::
  "'r redis_api \<Rightarrow> pg_readers \<Rightarrow> ts \<Rightarrow> ingest_env \<Rightarrow> ingest_params \<Rightarrow> 'r \<Rightarrow> db \<Rightarrow> exn + ingest_result option" where
  "ingest_cached R pg now env p r s =
     (case ie_get_fault env of Some e \<Rightarrow> Inl e | None \<Rightarrow>
     (case rd_get R r (date_of_ts now) (idemRedisKey (in_client_id p) (in_idempotency_key p)) of
        None \<Rightarrow> Inr None
      | Some cachedEventId \<Rightarrow>
          if cachedEventId = [] then Inr None
          else
            (case ie_select_fault env of Some e \<Rightarrow> Inl e | None \<Rightarrow>
            (case uuid_in pg cachedEventId of
               None \<Rightarrow> Inl (PgExn Invalid_text_representation)
             | Some i \<Rightarrow> Inr (map_option
                 (\<lambda>d. \<lparr>ir_event_id = cachedEventId, ir_delivery_id = d_id d,
                       ir_delivery_status = d_status d, ir_is_new = False\<rparr>)
                 (find_row d_event_id i (deliveries s)))))))"

definition ingestEvent ::
  "'r redis_api \<Rightarrow> config \<Rightarrow> pg_readers \<Rightarrow> ts \<Rightarrow> ingest_env \<Rightarrow> ingest_params \<Rightarrow> 'r \<Rightarrow> db \<Rightarrow>
   (exn + ingest_result) \<times> 'r \<times> db" where
  "ingestEvent R cfg pg now env p r s =
     (case ingest_cached R pg now env p r s of
        Inl e \<Rightarrow> (Inl e, r, s)
      | Inr (Some res) \<Rightarrow> (Inr res, r, s)
      | Inr None \<Rightarrow>
          (case withTx (ie_fate env) (ingest_tx pg now env p) s of
             (Inl e, s') \<Rightarrow> (Inl e, r, s')
           | (Inr res, s') \<Rightarrow>
               (Inr res,
                if ie_cache_write env
                then rd_set R r (date_of_ts now) (idemRedisKey (in_client_id p) (in_idempotency_key p))
                       (ir_event_id res) (IDEM_TTL_SECONDS cfg * 1000)
                else r,
                s')))"

lemmas ingest_tx_defs = ingest_tx_def ingest_new_tx_def ingest_existing_tx_def tx_defs

subsection \<open>The invariant\<close>

text \<open>A new event with its delivery and its first transition: the one insert shape of deliveries.\<close>

lemma db_inv_new_delivery:
  assumes inv: "db_inv s"
    and ev: "ev_id e \<notin> ev_id ` set (events s)"
      "(ev_client_id e, ev_idempotency_key e) \<notin> (\<lambda>e. (ev_client_id e, ev_idempotency_key e)) ` set (events s)"
    and d: "d_id d \<notin> d_id ` set (deliveries s)" "d_event_id d = ev_id e"
      "d_endpoint_id d \<in> ep_id ` set (endpoints s)" "d_attempt_count d = 0"
    and t: "t_delivery_id t = d_id d" "t_to_status t = d_status d" "d_status d \<noteq> DELIVERED"
  shows "db_inv (s\<lparr>events := events s @ [e], deliveries := deliveries s @ [d],
    delivery_transitions := delivery_transitions s @ [t]\<rparr>)" (is "db_inv ?s")
proof -
  have keys: "keys_ok s" using inv by (simp add: db_inv_def)
  then have none: "attempts_of s (d_id d) = []" "transitions_of s (d_id d) = []"
    using d(1) by (simp_all add: keys_ok_def attempts_of_def transitions_of_def filter_empty_conv
        image_subset_iff) metis+
  have reads: "attempts_of ?s k = attempts_of s k"
      "transitions_of ?s k = transitions_of s k @ (if k = d_id d then [t] else [])" for k
    using t(1) by (auto simp: attempts_of_def transitions_of_def)
  have "keys_ok ?s" using keys ev d t(1) by (auto simp: keys_ok_def)
  moreover have "row_ok (attempts_of ?s (d_id d')) (transitions_of ?s (d_id d')) d'"
    if "d' \<in> set (deliveries ?s)" for d'
  proof (cases "d' = d")
    case True
    then show ?thesis using none d t by (simp add: reads row_ok_def)
  next
    case False
    then have "d' \<in> set (deliveries s)" using that by simp
    moreover from this have "d_id d' \<noteq> d_id d" using d(1) by (metis imageI)
    ultimately show ?thesis using inv by (simp add: reads db_inv_def)
  qed
  ultimately show ?thesis by (simp add: db_inv_def)
qed

text \<open>What a committed ingest transaction has done.\<close>

lemma ingest_tx_cases:
  assumes "ingest_tx pg now env p s = Inr (res, s')"
  obtains (known) e d where
      "find_row (\<lambda>e. (ev_client_id e, ev_idempotency_key e)) (in_client_id p, in_idempotency_key p)
         (events s) = Some e"
      "find_row d_event_id (ev_id e) (deliveries s) = Some d"
      "res = \<lparr>ir_event_id = ev_id e, ir_delivery_id = d_id d, ir_delivery_status = d_status d,
         ir_is_new = False\<rparr>" "s' = s"
  | (fresh) e d t where
      "(in_client_id p, in_idempotency_key p) \<notin>
         (\<lambda>e. (ev_client_id e, ev_idempotency_key e)) ` set (events s)"
      "ev_id e = ie_event_id env" "ev_client_id e = in_client_id p"
      "ev_idempotency_key e = in_idempotency_key p" "ev_id e \<notin> ev_id ` set (events s)"
      "d_id d = ie_delivery_id env" "d_id d \<notin> d_id ` set (deliveries s)" "d_event_id d = ev_id e"
      "d_endpoint_id d \<in> ep_id ` set (endpoints s)" "d_status d = PENDING" "d_attempt_count d = 0"
      "d_updated_at d = now"
      "t_delivery_id t = d_id d" "t_to_status t = PENDING" "t_from_status t = None"
      "res = \<lparr>ir_event_id = ev_id e, ir_delivery_id = d_id d, ir_delivery_status = PENDING,
         ir_is_new = True\<rparr>"
      "s' = s\<lparr>events := events s @ [e], deliveries := deliveries s @ [d],
         delivery_transitions := delivery_transitions s @ [t]\<rparr>"
proof (cases "\<exists>e \<in> set (events s). ev_client_id e = in_client_id p \<and> ev_idempotency_key e = in_idempotency_key p")
  case True
  then have run: "ingest_existing_tx p s = Inr (res, s')"
    using assms by (simp add: ingest_tx_def tx_bind_def insert_event_on_conflict_def split: option.splits)
  obtain e where e: "find_row (\<lambda>e. (ev_client_id e, ev_idempotency_key e))
      (in_client_id p, in_idempotency_key p) (events s) = Some e"
    using run by (auto simp: ingest_existing_tx_def split: option.splits)
  obtain d where d: "find_row d_event_id (ev_id e) (deliveries s) = Some d"
    using run e by (auto simp: ingest_existing_tx_def split: option.splits)
  show ?thesis using that(1) [OF e d] run e d by (simp add: ingest_existing_tx_def)
next
  case False
  obtain payload endpoint where some: "jsonb_in pg (json_stringify (in_payload p)) = Some payload"
      "uuid_in pg (in_endpoint_id p) = Some endpoint"
    using assms False
    by (auto simp: ingest_tx_defs insert_event_on_conflict_def split: option.splits if_splits)
  show ?thesis
    using assms False some
    by (intro that(2) [of
        "\<lparr>ev_id = ie_event_id env, ev_client_id = in_client_id p,
          ev_idempotency_key = in_idempotency_key p, ev_event_type = in_event_type p,
          ev_payload = payload, ev_received_at = now\<rparr>"
        "\<lparr>d_id = ie_delivery_id env, d_event_id = ie_event_id env, d_endpoint_id = endpoint,
          d_status = PENDING, d_attempt_count = 0, d_next_attempt_at = None, d_enqueued = False,
          d_created_at = now, d_updated_at = now\<rparr>"
        "\<lparr>t_delivery_id = ie_delivery_id env, t_from_status = None, t_to_status = PENDING,
          t_reason = Some ''created'', t_actor = Api, t_created_at = now\<rparr>"])
      (auto simp: ingest_tx_defs insert_event_on_conflict_def insert_delivery_def
        insert_transition_def split: if_splits)
qed

lemma ingest_tx_inv:
  assumes inv: "db_inv s" and run: "ingest_tx pg now env p s = Inr (res, s')"
  shows "db_inv s'"
  using run
proof (cases rule: ingest_tx_cases)
  case (fresh e d t)
  then show ?thesis using db_inv_new_delivery [OF inv, of e d t] by simp
qed (simp add: inv)

lemma ingest_tx_extends: "ingest_tx pg now env p s = Inr (res, s') \<Longrightarrow> log_extends s s'"
  by (erule ingest_tx_cases) (auto simp: log_extends_def)

lemma ingestEvent_inv: "db_inv s \<Longrightarrow> db_inv (snd (snd (ingestEvent R cfg pg now env p r s)))"
  using withTx_invariant [of db_inv s "ingest_tx pg now env p" "ie_fate env"] ingest_tx_inv [of s pg now env p]
  by (auto simp: ingestEvent_def split: sum.splits option.splits prod.splits)

lemma ingestEvent_extends: "log_extends s (snd (snd (ingestEvent R cfg pg now env p r s)))"
  using withTx_invariant [of "log_extends s" s "ingest_tx pg now env p" "ie_fate env"]
    ingest_tx_extends [of pg now env p s]
  by (auto simp: ingestEvent_def split: sum.splits option.splits prod.splits)

interpretation ingest_writer: db_writer
  "\<lambda>_ _. True" "\<lambda>(R, cfg, pg, now, env, p, r) s. snd (snd (ingestEvent R cfg pg now env p r s))"
  by unfold_locales (auto simp: ingestEvent_inv ingestEvent_extends)

subsection \<open>Idempotency\<close>

text \<open>The key \<open>(client_id, idempotency_key)\<close> of an event and of a request.\<close>

definition event_key :: "event_row \<Rightarrow> string \<times> string" where
  "event_key e = (ev_client_id e, ev_idempotency_key e)"

definition request_key :: "ingest_params \<Rightarrow> string \<times> string" where
  "request_key p = (in_client_id p, in_idempotency_key p)"

text \<open>
  The Redis key is a text with colons in it, so it identifies the pair only when the client id
  itself has no colon.
\<close>

definition colon_free :: "string \<Rightarrow> bool" where
  "colon_free c \<longleftrightarrow> CHR '':'' \<notin> set c"

lemma idemRedisKey_inject:
  assumes "colon_free c" and "colon_free c'"
  shows "idemRedisKey c k = idemRedisKey c' k' \<longleftrightarrow> c = c' \<and> k = k'"
  using append_sep_inject [of c "CHR '':''" k c' k'] assms by (auto simp: idemRedisKey_def colon_free_def)

text \<open>
  The cache and the ids agree with the database: what an idempotency key of a colon-free client
  holds is the id of the event with that key, and the ids of events are texts that PostgreSQL reads
  back as themselves.
\<close>

definition cache_ok :: "pg_readers \<Rightarrow> keyspace \<Rightarrow> db \<Rightarrow> bool" where
  "cache_ok pg m s \<longleftrightarrow>
     (\<forall>c k v dl. colon_free c \<longrightarrow> m (idemRedisKey c k) = Some (RString v, dl) \<longrightarrow>
        (\<exists>e \<in> set (events s). event_key e = (c, k) \<and> ev_id e = v)) \<and>
     (\<forall>e \<in> set (events s). uuid_in pg (ev_id e) = Some (ev_id e) \<and> ev_id e \<noteq> [])"

definition generated_ok :: "pg_readers \<Rightarrow> ingest_env \<Rightarrow> bool" where
  "generated_ok pg env \<longleftrightarrow> uuid_in pg (ie_event_id env) = Some (ie_event_id env) \<and> ie_event_id env \<noteq> []"

lemma event_key_unique:
  assumes "db_inv s" and "e \<in> set (events s)" and "e' \<in> set (events s)" and "event_key e = event_key e'"
  shows "e = e'"
proof -
  have "inj_on event_key (set (events s))"
    using assms(1) by (simp add: db_inv_def keys_ok_def distinct_map event_key_def [abs_def])
  then show ?thesis using assms(2-4) by (auto dest: inj_onD)
qed

lemma event_delivery:
  assumes "db_inv s" and "e \<in> set (events s)"
  obtains d where "find_row d_event_id (ev_id e) (deliveries s) = Some d"
proof (cases "find_row d_event_id (ev_id e) (deliveries s)")
  case None
  then have "ev_id e \<notin> d_event_id ` set (deliveries s)" by (simp add: find_row_None)
  moreover have "d_event_id ` set (deliveries s) = ev_id ` set (events s)"
    using assms(1) by (simp add: db_inv_def keys_ok_def)
  ultimately show ?thesis using assms(2) by blast
qed (rule that)

text \<open>The answer a request with a known key has to get.\<close>

definition answers :: "db \<Rightarrow> ingest_params \<Rightarrow> ingest_result \<Rightarrow> bool" where
  "answers s p res \<longleftrightarrow> (\<exists>e \<in> set (events s). event_key e = request_key p \<and> ev_id e = ir_event_id res \<and>
     (\<exists>d \<in> set (deliveries s). d_event_id d = ev_id e \<and> d_id d = ir_delivery_id res))"

lemma answers_unique:
  assumes "db_inv s" and "answers s p res" and "answers s p' res'" and "request_key p = request_key p'"
  shows "ir_event_id res = ir_event_id res' \<and> ir_delivery_id res = ir_delivery_id res'"
proof -
  have "inj_on d_event_id (set (deliveries s))"
    using assms(1) by (simp add: db_inv_def keys_ok_def distinct_map)
  then show ?thesis
    using assms event_key_unique [OF assms(1)] unfolding answers_def by (metis inj_onD)
qed

lemma answers_mono:
  assumes "db_inv s" and "db_inv s'" and "log_extends s s'" and "answers s p res"
    and kept: "\<And>d. d \<in> set (deliveries s) \<Longrightarrow>
      \<exists>d' \<in> set (deliveries s'). d_id d' = d_id d \<and> d_event_id d' = d_event_id d"
  shows "answers s' p res"
proof -
  have "set (events s) \<subseteq> set (events s')"
    using assms(3) by (auto simp: log_extends_def dest: set_mono_prefix)
  then show ?thesis using assms(4) kept unfolding answers_def by (metis subsetD)
qed

context redis_service
begin

lemma ingest_cached_hit:
  assumes inv: "db_inv s" and ok: "cache_ok pg (ks r) s" and c: "colon_free (in_client_id p)"
    and run: "ingest_cached R pg now env p r s = Inr (Some res)"
  shows "answers s p res \<and> \<not> ir_is_new res"
proof -
  let ?k = "idemRedisKey (in_client_id p) (in_idempotency_key p)"
  obtain v where v: "rd_get R r (date_of_ts now) ?k = Some v"
    using run by (auto simp: ingest_cached_def split: option.splits if_splits)
  then have "live (ks r) (date_of_ts now) ?k = Some (RString v)" by (simp add: get_Some)
  then obtain dl where "ks r ?k = Some (RString v, dl)"
    by (auto simp: live_def split: option.splits if_splits)
  then obtain e where e: "e \<in> set (events s)" "event_key e = request_key p" "ev_id e = v"
    using ok c unfolding cache_ok_def request_key_def by blast
  have "uuid_in pg v = Some v \<and> v \<noteq> []" using ok e by (auto simp: cache_ok_def)
  moreover obtain d where d: "find_row d_event_id v (deliveries s) = Some d"
    using event_delivery [OF inv e(1)] e(3) by auto
  ultimately have "res = \<lparr>ir_event_id = v, ir_delivery_id = d_id d, ir_delivery_status = d_status d,
      ir_is_new = False\<rparr>"
    using run v by (auto simp: ingest_cached_def split: option.splits)
  then show ?thesis using e find_row_Some [OF d] by (auto simp: answers_def)
qed

lemma ingest_tx_answers:
  assumes run: "ingest_tx pg now env p s = Inr (res, s')"
  shows "answers s' p res \<and> (ir_is_new res \<longleftrightarrow> request_key p \<notin> event_key ` set (events s))"
  using run
proof (cases rule: ingest_tx_cases)
  case (known e d)
  then show ?thesis
    using find_row_Some [OF known(1)] find_row_Some [OF known(2)]
    by (force simp: answers_def event_key_def request_key_def)
next
  case (fresh e d t)
  then show ?thesis by (auto simp: answers_def event_key_def [abs_def] request_key_def)
qed

lemma cache_ok_ingest:
  assumes inv: "db_inv s" and ok: "cache_ok pg (ks r) s" and c: "colon_free (in_client_id p)"
    and gen: "generated_ok pg env"
    and run: "ingestEvent R cfg pg now env p r s = (out, r', s')"
  shows "cache_ok pg (ks r') s'"
proof -
  have grown: "cache_ok pg (ks r) s''" if tx: "ingest_tx pg now env p s = Inr (res, s'')" for res s''
    using tx
  proof (cases rule: ingest_tx_cases)
    case (fresh e d t)
    then show ?thesis using ok gen by (force simp: cache_ok_def generated_ok_def)
  qed (simp add: ok)
  have cached: "cache_ok pg ((ks r)(idemRedisKey (in_client_id p) (in_idempotency_key p) \<mapsto>
      (RString (ir_event_id res), dl))) s''"
    if tx: "ingest_tx pg now env p s = Inr (res, s'')" for res s'' dl
    using grown [OF tx] ingest_tx_answers [OF tx] c
    by (auto simp: cache_ok_def answers_def request_key_def idemRedisKey_inject)
  have unchanged: "cache_ok pg (ks r) (snd (withTx (ie_fate env) (ingest_tx pg now env p) s))"
    using ok grown by (rule withTx_invariant)
  show ?thesis
    using run unchanged ok cached withTx_Inr [of "ie_fate env" "ingest_tx pg now env p" s]
    by (auto simp: ingestEvent_def set split: sum.splits option.splits prod.splits if_splits)
qed

text \<open>One call: the answer is the one of the database, and a known key changes nothing.\<close>

lemma ingestEvent_answers:
  assumes inv: "db_inv s" and ok: "cache_ok pg (ks r) s" and c: "colon_free (in_client_id p)"
    and run: "ingestEvent R cfg pg now env p r s = (Inr res, r', s')"
  shows "answers s' p res \<and> (ir_is_new res \<longrightarrow> request_key p \<notin> event_key ` set (events s))"
  using run ingest_cached_hit [OF inv ok c] ingest_tx_answers
    withTx_Inr [of "ie_fate env" "ingest_tx pg now env p" s]
  by (fastforce simp: ingestEvent_def split: sum.splits option.splits prod.splits)

end

lemma ingest_tx_known:
  assumes "request_key p \<in> event_key ` set (events s)" and "ingest_tx pg now env p s = Inr (res, s')"
  shows "s' = s"
  using assms(2)
proof (cases rule: ingest_tx_cases)
  case (fresh e d t)
  then show ?thesis using assms(1) by (simp add: event_key_def [abs_def] request_key_def)
qed

lemma ingestEvent_known:
  assumes "request_key p \<in> event_key ` set (events s)"
  shows "snd (snd (ingestEvent R cfg pg now env p r s)) = s"
  using withTx_invariant [of "\<lambda>s'. s' = s" s "ingest_tx pg now env p" "ie_fate env"]
    ingest_tx_known [OF assms]
  by (auto simp: ingestEvent_def split: sum.splits option.splits prod.splits)

subsection \<open>Sequences of requests\<close>

type_synonym ingest_call = "ts \<times> ingest_env \<times> ingest_params"

fun ingest_run ::
  "'r redis_api \<Rightarrow> config \<Rightarrow> pg_readers \<Rightarrow> ingest_call list \<Rightarrow> 'r \<Rightarrow> db \<Rightarrow>
   (exn + ingest_result) list \<times> 'r \<times> db" where
  "ingest_run R cfg pg [] r s = ([], r, s)"
| "ingest_run R cfg pg ((now, env, p) # calls) r s =
     (case ingestEvent R cfg pg now env p r s of (out, r', s') \<Rightarrow>
      case ingest_run R cfg pg calls r' s' of (outs, r'', s'') \<Rightarrow> (out # outs, r'', s''))"

lemma ingestEvent_keeps_deliveries:
  assumes "d \<in> set (deliveries s)"
  shows "d \<in> set (deliveries (snd (snd (ingestEvent R cfg pg now env p r s))))"
proof -
  have tx: "d \<in> set (deliveries s')" if "ingest_tx pg now env p s = Inr (res, s')" for res s'
    using that assms by (cases rule: ingest_tx_cases) auto
  have "d \<in> set (deliveries (snd (withTx (ie_fate env) (ingest_tx pg now env p) s)))"
    using assms tx by (rule withTx_invariant [where P = "\<lambda>s. d \<in> set (deliveries s)"])
  then show ?thesis
    using assms by (auto simp: ingestEvent_def split: sum.splits option.splits prod.splits)
qed

lemma ingestEvent_keeps_answer:
  assumes "db_inv s" and "answers s p res" and "ingestEvent R cfg pg now env q r s = (out, r', s')"
  shows "answers s' p res"
proof -
  have s': "s' = snd (snd (ingestEvent R cfg pg now env q r s))" using assms(3) by simp
  show ?thesis
    unfolding s'
    using assms(1) ingestEvent_inv [OF assms(1)] ingestEvent_extends assms(2)
    by (rule answers_mono) (blast dest: ingestEvent_keeps_deliveries)
qed

lemma ingest_run_keeps_answer:
  assumes "db_inv s" and "answers s p res" and "ingest_run R cfg pg calls r s = (outs, r', s')"
  shows "answers s' p res"
  using assms
proof (induction calls arbitrary: r s outs)
  case (Cons call calls)
  obtain now env q where call: "call = (now, env, q)" by (cases call)
  obtain out r1 s1 where run1: "ingestEvent R cfg pg now env q r s = (out, r1, s1)" by (metis prod_cases3)
  have "db_inv s1" using ingestEvent_inv [OF Cons.prems(1), of R cfg pg now env q r] run1 by simp
  then show ?case
    using Cons.IH [of s1 r1] ingestEvent_keeps_answer [OF Cons.prems(1,2) run1] Cons.prems(3) call run1
    by (auto split: prod.splits)
qed simp

text \<open>The client ids have no colon, and PostgreSQL generates ids that it reads back as themselves.\<close>

definition calls_ok :: "pg_readers \<Rightarrow> ingest_call list \<Rightarrow> bool" where
  "calls_ok pg calls \<longleftrightarrow> (\<forall>(now, env, p) \<in> set calls. colon_free (in_client_id p) \<and> generated_ok pg env)"

context redis_service
begin

lemma ingest_run_inv:
  assumes "db_inv s" and "cache_ok pg (ks r) s" and "calls_ok pg calls"
    and "ingest_run R cfg pg calls r s = (outs, r', s')"
  shows "db_inv s' \<and> cache_ok pg (ks r') s' \<and> length outs = length calls"
  using assms
proof (induction calls arbitrary: r s outs)
  case (Cons call calls)
  obtain now env p where call: "call = (now, env, p)" by (cases call)
  obtain out r1 s1 where run1: "ingestEvent R cfg pg now env p r s = (out, r1, s1)" by (metis prod_cases3)
  obtain outs' where run2: "ingest_run R cfg pg calls r1 s1 = (outs', r', s')" and outs: "outs = out # outs'"
    using Cons.prems(4) call run1 by (auto split: prod.splits)
  have "db_inv s1" using ingestEvent_inv [OF Cons.prems(1), of R cfg pg now env p r] run1 by simp
  moreover have "cache_ok pg (ks r1) s1"
    using cache_ok_ingest [OF Cons.prems(1,2) _ _ run1] Cons.prems(3) call by (simp add: calls_ok_def)
  ultimately show ?case
    using Cons.IH [OF _ _ _ run2] Cons.prems(3) outs by (simp add: calls_ok_def)
qed simp

lemma ingest_run_answers:
  assumes "db_inv s" and "cache_ok pg (ks r) s" and "calls_ok pg calls"
    and "ingest_run R cfg pg calls r s = (outs, r', s')"
    and "i < length calls" and "outs ! i = Inr res"
  shows "answers s' (snd (snd (calls ! i))) res"
  using assms
proof (induction calls arbitrary: r s outs i)
  case (Cons call calls)
  obtain now env p where call: "call = (now, env, p)" by (cases call)
  obtain out r1 s1 where run1: "ingestEvent R cfg pg now env p r s = (out, r1, s1)" by (metis prod_cases3)
  obtain outs' where run2: "ingest_run R cfg pg calls r1 s1 = (outs', r', s')" and outs: "outs = out # outs'"
    using Cons.prems(4) call run1 by (auto split: prod.splits)
  have inv1: "db_inv s1" using ingestEvent_inv [OF Cons.prems(1), of R cfg pg now env p r] run1 by simp
  have cok: "colon_free (in_client_id p)" "generated_ok pg env" "calls_ok pg calls"
    using Cons.prems(3) call by (auto simp: calls_ok_def)
  have ok1: "cache_ok pg (ks r1) s1" using cache_ok_ingest [OF Cons.prems(1,2) cok(1,2) run1] .
  show ?case
  proof (cases i)
    case 0
    then have "answers s1 p res"
      using ingestEvent_answers [OF Cons.prems(1,2) cok(1)] run1 outs Cons.prems(6) by auto
    then have "answers s' p res"
      using ingest_run_keeps_answer [OF inv1 _ run2] by blast
    then show ?thesis using 0 call outs by simp
  next
    case (Suc j)
    then show ?thesis
      using Cons.IH [OF inv1 ok1 cok(3) run2, of j] Cons.prems(5,6) outs by simp
  qed
qed simp

end

subsection \<open>Properties\<close>


definition demo_pg :: pg_readers where
  "demo_pg = \<lparr>uuid_in = Some, jsonb_in = (\<lambda>_. Some (JObj []))\<rparr>"

definition demo_ingest_env :: ingest_env where
  "demo_ingest_env = \<lparr>ie_get_fault = None, ie_select_fault = None, ie_fate = Tx_ok, ie_event_id = ''v1'',
     ie_delivery_id = ''d1'', ie_cache_write = False\<rparr>"

definition demo_params :: ingest_params where
  "demo_params = \<lparr>in_client_id = ''c1'', in_idempotency_key = ''k1'', in_event_type = ''order.paid'',
     in_payload = JObj [], in_endpoint_id = ''p1''\<rparr>"

text \<open>The commit of the first request is applied but its acknowledgement lost; the client retries twice.\<close>

definition demo_calls :: "ingest_call list" where
  "demo_calls =
     [(1000, demo_ingest_env\<lparr>ie_fate := Tx_ack_lost\<rparr>, demo_params),
      (2000, demo_ingest_env\<lparr>ie_event_id := ''v2'', ie_delivery_id := ''d2'', ie_cache_write := True\<rparr>, demo_params),
      (3000, demo_ingest_env\<lparr>ie_event_id := ''v3'', ie_delivery_id := ''d3''\<rparr>, demo_params)]"

definition demo_endpoint_db :: db where
  "demo_endpoint_db = empty_db\<lparr>endpoints := endpoints demo_db\<rparr>"

lemma demo_calls_evaluated:
  "map (\<lambda>out. case out of Inl _ \<Rightarrow> None | Inr res \<Rightarrow> Some (ir_delivery_id res))
     (fst (ingest_run mem_redis default_config demo_pg demo_calls mem_empty demo_endpoint_db)) =
   [None, Some ''d1'', Some ''d1'']"
  by code_simp

lemma demo_ingest_ready:
  "db_inv demo_endpoint_db" "cache_ok demo_pg (mem_ks mem_empty) demo_endpoint_db" "calls_ok demo_pg demo_calls"
  by (simp_all add: demo_endpoint_db_def db_inv_def keys_ok_def empty_db_def demo_db_def cache_ok_def
      mem_empty_def calls_ok_def demo_calls_def colon_free_def generated_ok_def demo_pg_def demo_ingest_env_def
      demo_params_def)


text \<open>
  C10: an acknowledged event is durable and complete: the answer names an event with the request's
  key and its delivery, both in the database, and a new one is PENDING with its creation logged.
\<close>

theorem ingest_ack_durable:
  fixes R :: "'r redis_api"
  assumes "redis_service R ks scripts sha1" and "db_inv s" and "cache_ok pg (ks r) s"
    and "colon_free (in_client_id p)" and "ingestEvent R cfg pg now env p r s = (Inr res, r', s')"
  shows "(\<exists>e \<in> set (events s'). event_key e = request_key p \<and> ev_id e = ir_event_id res \<and>
      (\<exists>d \<in> set (deliveries s'). d_event_id d = ev_id e \<and> d_id d = ir_delivery_id res)) \<and>
    (request_key p \<in> event_key ` set (events s) \<longrightarrow> s' = s \<and> \<not> ir_is_new res)"
  using redis_service.ingestEvent_answers [OF assms] ingestEvent_known [of p s R cfg pg now env r] assms(5)
  by (auto simp: answers_def)

theorem ingest_ack_durable_witness:
  "\<exists>d \<in> set (deliveries (snd (snd (ingestEvent mem_redis default_config demo_pg 1000 demo_ingest_env demo_params
     mem_empty demo_endpoint_db)))). d_event_id d = ''v1''"
proof -
  have "(case fst (ingestEvent mem_redis default_config demo_pg 1000 demo_ingest_env demo_params
      mem_empty demo_endpoint_db) of Inl _ \<Rightarrow> False | Inr res \<Rightarrow> ir_event_id res = ''v1'')"
    by code_simp
  then obtain res r' s' where run: "ingestEvent mem_redis default_config demo_pg 1000 demo_ingest_env demo_params
      mem_empty demo_endpoint_db = (Inr res, r', s')" "ir_event_id res = ''v1''"
    by (cases "ingestEvent mem_redis default_config demo_pg 1000 demo_ingest_env demo_params
      mem_empty demo_endpoint_db") (auto split: sum.splits)
  have "colon_free (in_client_id demo_params)" by (simp add: colon_free_def demo_params_def)
  from ingest_ack_durable [OF mem.redis_service_axioms demo_ingest_ready(1,2) this run(1)]
  show ?thesis using run by auto
qed


end
