(* ===== verification/Memo_Ttl.thy ===== *)
theory Memo_Ttl
  imports Config Bull_Queue
begin

text \<open>
  \<open>src/src/shared/memo.ts\<close> and \<open>src/src/api/backpressure.ts\<close>. The closure of \<open>memoTtl\<close> is a state
  machine: its two variables are the record \<open>memo\<close>, a call of the returned function is one step, and
  the settling of the promise that \<open>fn()\<close> returned is another, at any later time. Promises are
  numbered in the order \<open>fn\<close> was called.
\<close>

record 'a memo =
  cached :: "('a \<times> ms) option"
  pending :: "nat option"

datatype 'a answer = Value 'a | Promise nat

definition memo_init :: "'a memo" where
  "memo_init = \<lparr>cached = None, pending = None\<rparr>"

text \<open>One call of the memoised function; \<open>fresh\<close> is the promise \<open>fn()\<close> returns if it is called.\<close>

definition memo_call :: "ms \<Rightarrow> nat \<Rightarrow> 'a memo \<Rightarrow> 'a answer \<times> 'a memo" where
  "memo_call now fresh m =
     (case cached m of
        Some (v, expiresAt) \<Rightarrow>
          if expiresAt > now then (Value v, m)
          else (case pending m of
                  Some p \<Rightarrow> (Promise p, m)
                | None \<Rightarrow> (Promise fresh, m\<lparr>pending := Some fresh\<rparr>))
      | None \<Rightarrow>
          (case pending m of
             Some p \<Rightarrow> (Promise p, m)
           | None \<Rightarrow> (Promise fresh, m\<lparr>pending := Some fresh\<rparr>)))"

definition memo_resolved :: "ms \<Rightarrow> ms \<Rightarrow> 'a \<Rightarrow> 'a memo \<Rightarrow> 'a memo" where
  "memo_resolved ttlMs now v m = m\<lparr>cached := Some (v, now + ttlMs), pending := None\<rparr>"

definition memo_rejected :: "'a memo \<Rightarrow> 'a memo" where
  "memo_rejected m = m\<lparr>pending := None\<rparr>"

subsection \<open>The machine\<close>

text \<open>
  \<open>inflight\<close> holds the promises of \<open>fn\<close> that have not settled, \<open>calls\<close> counts the calls of \<open>fn\<close>,
  \<open>resolved\<close> records when each value arrived, \<open>answered\<close> what each caller got and when.
\<close>

record 'a memo_sys =
  memo_of :: "'a memo"
  inflight :: "nat list"
  calls :: nat
  resolved :: "(ms \<times> 'a) list"
  answered :: "(ms \<times> 'a answer) list"

definition memo_start :: "'a memo_sys" where
  "memo_start = \<lparr>memo_of = memo_init, inflight = [], calls = 0, resolved = [], answered = []\<rparr>"

definition sys_call :: "ms \<Rightarrow> 'a memo_sys \<Rightarrow> 'a memo_sys" where
  "sys_call now y = (case memo_call now (calls y) (memo_of y) of (ans, m) \<Rightarrow>
     y\<lparr>memo_of := m, answered := answered y @ [(now, ans)],
       inflight := (if ans = Promise (calls y) then inflight y @ [calls y] else inflight y),
       calls := (if ans = Promise (calls y) then calls y + 1 else calls y)\<rparr>)"

inductive memo_step :: "ms \<Rightarrow> 'a memo_sys \<Rightarrow> 'a memo_sys \<Rightarrow> bool" for ttlMs where
  call: "memo_step ttlMs y (sys_call now y)"
| resolve: "p \<in> set (inflight y) \<Longrightarrow> memo_step ttlMs y
    (y\<lparr>memo_of := memo_resolved ttlMs now v (memo_of y), inflight := remove1 p (inflight y),
       resolved := resolved y @ [(now, v)]\<rparr>)"
| reject: "p \<in> set (inflight y) \<Longrightarrow> memo_step ttlMs y
    (y\<lparr>memo_of := memo_rejected (memo_of y), inflight := remove1 p (inflight y)\<rparr>)"

inductive memo_reachable :: "ms \<Rightarrow> 'a memo_sys \<Rightarrow> bool" for ttlMs where
  start: "memo_reachable ttlMs memo_start"
| step: "memo_reachable ttlMs y \<Longrightarrow> memo_step ttlMs y y' \<Longrightarrow> memo_reachable ttlMs y'"

inductive_cases memo_stepE: "memo_step ttlMs y y'"

subsection \<open>Single flight and freshness\<close>

definition memo_inv :: "ms \<Rightarrow> 'a memo_sys \<Rightarrow> bool" where
  "memo_inv ttlMs y \<longleftrightarrow>
     inflight y = (case pending (memo_of y) of None \<Rightarrow> [] | Some p \<Rightarrow> [p]) \<and>
     (\<forall>p \<in> set (inflight y). p < calls y) \<and>
     (\<forall>v e. cached (memo_of y) = Some (v, e) \<longrightarrow> (\<exists>t. (t, v) \<in> set (resolved y) \<and> e = t + ttlMs)) \<and>
     (\<forall>now v. (now, Value v) \<in> set (answered y) \<longrightarrow>
        (\<exists>t. (t, v) \<in> set (resolved y) \<and> now < t + ttlMs)) \<and>
     (\<forall>now p. (now, Promise p) \<in> set (answered y) \<longrightarrow> p < calls y)"

lemma memo_inv_start: "memo_inv ttlMs memo_start"
  by (simp add: memo_inv_def memo_start_def memo_init_def)

lemma memo_call_cases:
  obtains (hit) v e where "cached m = Some (v, e)" "now < e" "memo_call now fresh m = (Value v, m)"
  | (share) p where "pending m = Some p" "memo_call now fresh m = (Promise p, m)"
  | (start) "pending m = None" "memo_call now fresh m = (Promise fresh, m\<lparr>pending := Some fresh\<rparr>)"
  by (cases "cached m"; cases "pending m") (fastforce simp: memo_call_def split: if_splits)+

lemma memo_inv_call:
  assumes "memo_inv ttlMs y"
  shows "memo_inv ttlMs (sys_call now y)"
proof (cases rule: memo_call_cases [of "memo_of y" now "calls y"])
  case (hit v e)
  then show ?thesis using assms by (auto simp: memo_inv_def sys_call_def)
next
  case (share p)
  then have "p < calls y" using assms by (auto simp: memo_inv_def)
  then show ?thesis using assms share by (auto simp: memo_inv_def sys_call_def)
next
  case start
  then show ?thesis using assms by (auto simp: memo_inv_def sys_call_def less_SucI)
qed

lemma memo_inv_step:
  assumes "memo_step ttlMs y y'" and "memo_inv ttlMs y"
  shows "memo_inv ttlMs y'"
  using assms
proof (cases rule: memo_step.cases)
  case (resolve p now v)
  show ?thesis
    unfolding resolve(1) using assms(2) resolve(2)
    by (auto simp: memo_inv_def memo_resolved_def split: option.splits) metis
next
  case (reject p)
  then show ?thesis
    using assms(2) by (auto simp: memo_inv_def memo_rejected_def split: option.splits)
qed (simp add: memo_inv_call)

lemma memo_reachable_inv: "memo_reachable ttlMs y \<Longrightarrow> memo_inv ttlMs y"
  by (induction rule: memo_reachable.induct) (auto simp: memo_inv_start memo_inv_step)

subsection \<open>Backpressure\<close>

text \<open>\<open>counts['wait'] ?? 0\<close>\<close>

definition count_of :: "(job_state \<Rightarrow> nat option) \<Rightarrow> job_state \<Rightarrow> int" where
  "count_of counts st = (case counts st of None \<Rightarrow> 0 | Some n \<Rightarrow> int n)"

definition depth_over_limit :: "config \<Rightarrow> (job_state \<Rightarrow> nat option) \<Rightarrow> bool" where
  "depth_over_limit cfg counts \<longleftrightarrow>
     count_of counts Waiting + count_of counts Delayed > BACKPRESSURE_QUEUE_LIMIT cfg"

text \<open>\<open>isOverloaded\<close>, given what awaiting \<open>getCounts()\<close> gives.\<close>

definition isOverloaded :: "config \<Rightarrow> exn + (job_state \<Rightarrow> nat option) \<Rightarrow> exn + bool" where
  "isOverloaded cfg counts = (case counts of Inl e \<Rightarrow> Inl e | Inr c \<Rightarrow> Inr (depth_over_limit cfg c))"

subsection \<open>Property\<close>


definition demo_memo :: "nat memo_sys" where
  "demo_memo = sys_call 7 (let y = sys_call 3 (sys_call 2 memo_start) in
     y\<lparr>memo_of := memo_resolved 1000 5 42 (memo_of y), inflight := remove1 0 (inflight y),
       resolved := resolved y @ [(5, 42)]\<rparr>)"


end
