(* ===== verification/Reconciler.thy ===== *)
theory Reconciler
  imports Invariants
begin

text \<open>
  \<open>src/src/reconciler/index.ts\<close> on top of \<open>claimUnenqueued\<close>: a tick claims one batch and swallows
  every error; the loop ticks until it is told to shut down. The lemmas say what a batch does to
  the queue and to the rows, over any queue that satisfies \<open>bull_queue\<close>.
\<close>

record tick_env =
  te_fate :: tx_fate
  te_now :: ts
  te_scan :: "string list"
  te_shutdown :: bool

definition tick :: "config \<Rightarrow> 'q queue_api \<Rightarrow> tick_env \<Rightarrow> 'q \<Rightarrow> db \<Rightarrow> 'q \<times> db" where
  "tick cfg Q env q s =
     (case claimUnenqueued cfg Q (te_fate env) (te_now env) (te_scan env)
             (nat (RECONCILER_BATCH_SIZE cfg)) q s of
        (_, q', s') \<Rightarrow> (q', s'))"

text \<open>\<open>te_shutdown\<close> is the value of \<open>shuttingDown\<close> when the loop tests it.\<close>

fun loop :: "config \<Rightarrow> 'q queue_api \<Rightarrow> tick_env list \<Rightarrow> 'q \<Rightarrow> db \<Rightarrow> 'q \<times> db" where
  "loop cfg Q [] q s = (q, s)"
| "loop cfg Q (env # envs) q s =
     (if te_shutdown env then (q, s)
      else case tick cfg Q env q s of (q', s') \<Rightarrow> loop cfg Q envs q' s')"

subsection \<open>The database\<close>

lemma claim_loop_db:
  "claim_loop Q now is q s = (Inr u, q', s') \<Longrightarrow> s' = fold (mark_enqueued now) is s"
  by (induction Q now "is" q s rule: claim_loop.induct) (auto split: sum.splits)

lemma fold_mark_inv: "db_inv s \<Longrightarrow> db_inv (fold (mark_enqueued now) is s)"
  by (induction "is" arbitrary: s) (simp_all add: mark_enqueued_inv)

lemma mark_enqueued_extends: "log_extends s (mark_enqueued now i s)"
  unfolding mark_enqueued_shape by (rule write_delivery_extends) simp

lemma fold_mark_extends: "log_extends s (fold (mark_enqueued now) is s)"
proof (induction "is" arbitrary: s)
  case (Cons i "is")
  show ?case using log_extends_trans [OF mark_enqueued_extends Cons.IH] by simp
qed simp

text \<open>A claim is all or nothing: every selected row is marked, or the database is untouched.\<close>

lemma claimUnenqueued_db:
  assumes "claimUnenqueued cfg Q fate now scan limit q s = (r, q', s')"
  shows "s' = s \<or> s' = fold (mark_enqueued now) (claim_select cfg now scan limit s) s"
proof -
  obtain r0 q0 s0 where loop: "claim_loop Q now (claim_select cfg now scan limit s) q s = (r0, q0, s0)"
    by (metis prod_cases3)
  show ?thesis
    using assms loop claim_loop_db [of Q now "claim_select cfg now scan limit s" q s "()" q0 s0]
    by (cases fate; cases r0) (auto simp: claimUnenqueued_def Let_def)
qed

lemma claimUnenqueued_ok:
  assumes "claimUnenqueued cfg Q fate now scan limit q s = (Inr n, q', s')"
  shows "claim_loop Q now (claim_select cfg now scan limit s) q s = (Inr (), q', s') \<and>
    n = length (claim_select cfg now scan limit s)"
proof -
  obtain r0 q0 s0 where "claim_loop Q now (claim_select cfg now scan limit s) q s = (r0, q0, s0)"
    by (metis prod_cases3)
  then show ?thesis
    using assms by (cases fate; cases r0) (auto simp: claimUnenqueued_def Let_def)
qed

lemma claimUnenqueued_inv:
  assumes "db_inv s" and "claimUnenqueued cfg Q fate now scan limit q s = (r, q', s')"
  shows "db_inv s' \<and> log_extends s s'"
  using claimUnenqueued_db [OF assms(2)] assms(1) fold_mark_inv [OF assms(1)] fold_mark_extends by auto

lemma tick_inv: "db_inv s \<Longrightarrow> tick cfg Q env q s = (q', s') \<Longrightarrow> db_inv s' \<and> log_extends s s'"
  by (auto simp: tick_def split: prod.splits dest: claimUnenqueued_inv)

interpretation tick_writer: db_writer "\<lambda>_ _. True" "\<lambda>(cfg, Q, env, q) s. snd (tick cfg Q env q s)"
  by unfold_locales (auto dest: tick_inv [OF _ prod.collapse [symmetric]])

lemma enqueueDelivery_inv:
  assumes "db_inv s"
  shows "db_inv (snd (snd (enqueueDelivery Q fate now i q s))) \<and>
    log_extends s (snd (snd (enqueueDelivery Q fate now i q s)))"
proof -
  have "db_inv s'' \<and> log_extends s s''" if "Inr ((), mark_enqueued now i s) = Inr (a, s'')" for a s''
    using that mark_enqueued_inv [OF assms] mark_enqueued_extends by auto
  then show ?thesis
    using assms by (auto simp: enqueueDelivery_def split: sum.splits prod.splits
        dest: withTx_safe [OF _ assms])
qed

interpretation enqueue_writer: db_writer
  "\<lambda>_ _. True" "\<lambda>(Q, fate, now, i, q) s. snd (snd (enqueueDelivery Q fate now i q s))"
  by unfold_locales (auto simp: enqueueDelivery_inv)

lemma find_delivery_mark:
  "find_delivery (mark_enqueued now i s) k =
     (if k = i then map_option (\<lambda>d. d\<lparr>d_enqueued := True, d_updated_at := now\<rparr>) (find_delivery s k)
      else find_delivery s k)"
  by (simp add: mark_enqueued_def find_delivery_update)

text \<open>A marked row keeps everything but its flag and its time.\<close>

lemma find_delivery_fold_mark:
  "find_delivery (fold (mark_enqueued now) is s) k =
     (if k \<in> set is then map_option (\<lambda>d. d\<lparr>d_enqueued := True, d_updated_at := now\<rparr>) (find_delivery s k)
      else find_delivery s k)"
proof (induction "is" arbitrary: s)
  case (Cons i "is")
  show ?case
    by (cases "find_delivery s k") (auto simp: Cons.IH find_delivery_mark)
qed simp

subsection \<open>The queue\<close>

context bull_queue
begin

lemma claim_loop_keeps:
  assumes "claim_loop Q now is q s = (r, q', s')" and "jobs q k = Some j"
  shows "jobs q' k = Some j"
  using assms by (induction "is" arbitrary: q s) (auto split: sum.splits dest: add_keeps)

lemma claim_loop_adds:
  assumes "claim_loop Q now is q s = (Inr u, q', s')" and "k \<in> set is"
  shows "jobs q' k \<noteq> None"
  using assms
proof (induction "is" arbitrary: q s)
  case (Cons i "is")
  then obtain q1 where q1: "q_add Q q ''deliver'' i i = Inr q1"
      "claim_loop Q now is q1 (mark_enqueued now i s) = (Inr u, q', s')"
    by (auto split: sum.splits)
  then show ?case
    using Cons.IH [OF q1(2)] Cons.prems(2) add_present [OF q1(1)] claim_loop_keeps [OF q1(2)] by auto
qed simp

lemma claim_loop_only:
  assumes "claim_loop Q now is q s = (r, q', s')" and "k \<notin> set is"
  shows "jobs q' k = jobs q k"
  using assms by (induction "is" arbitrary: q s) (auto split: sum.splits dest: add_only)

lemma claimUnenqueued_queue:
  assumes "claimUnenqueued cfg Q fate now scan limit q s = (r, q', s')"
  shows "q' = q \<or> (\<exists>r0 s0. claim_loop Q now (claim_select cfg now scan limit s) q s = (r0, q', s0))"
  using assms by (auto simp: claimUnenqueued_def Let_def split: if_splits prod.splits)

text \<open>A job the queue knows is never touched, whatever its state.\<close>

lemma claim_keeps_jobs:
  assumes "claimUnenqueued cfg Q fate now scan limit q s = (r, q', s')" and "jobs q k = Some j"
  shows "jobs q' k = Some j"
  using claimUnenqueued_queue [OF assms(1)] assms(2) claim_loop_keeps by blast

lemma loop_keeps_jobs:
  assumes "loop cfg Q envs q s = (q', s')" and "jobs q k = Some j"
  shows "jobs q' k = Some j"
  using assms
proof (induction envs arbitrary: q s)
  case (Cons env envs)
  then show ?case
    by (auto simp: tick_def split: if_splits prod.splits dest: claim_keeps_jobs)
qed simp

end

subsection \<open>Properties\<close>

lemma claim_select_mem:
  assumes "due cfg now s i" and "i \<in> set scan" and "length (filter (due cfg now s) (remdups scan)) \<le> limit"
  shows "i \<in> set (claim_select cfg now scan limit s)"
  using assms by (simp add: claim_select_def)

lemma fresh_not_selected:
  assumes "find_delivery s i = Some d" and "now' \<le> d_updated_at d + RECONCILER_GRACE_SECONDS cfg * 1000000"
  shows "i \<notin> set (claim_select cfg now' scan limit s)"
  using assms by (auto simp: claim_select_def due_def needs_recovery_def dest!: in_set_takeD)

text \<open>
  C14: the sweep recovers. When the batch is at least as large as the number of due rows the scan
  visits, a committed batch leaves every due delivery it visits (PENDING, or FAILED past its retry
  time, for longer than the grace period) with a job in the queue and marked as enqueued; the
  delivery is not selected again within the next grace period.
\<close>

theorem reconciler_recovers:
  fixes Q :: "'q queue_api"
  assumes "bull_queue Q jobs"
    and "claimUnenqueued cfg Q Tx_ok now scan limit q s = (Inr n, q', s')"
    and "find_delivery s i = Some d" and "needs_recovery cfg now d" and "i \<in> set scan"
    and "length (filter (due cfg now s) (remdups scan)) \<le> limit"
  shows "jobs q' i \<noteq> None \<and> find_delivery s' i = Some (d\<lparr>d_enqueued := True, d_updated_at := now\<rparr>) \<and>
    (\<forall>now' scan'. now' \<le> now + RECONCILER_GRACE_SECONDS cfg * 1000000 \<longrightarrow>
       i \<notin> set (claim_select cfg now' scan' limit s'))"
proof -
  let ?is = "claim_select cfg now scan limit s"
  have loop: "claim_loop Q now ?is q s = (Inr (), q', s')" using claimUnenqueued_ok [OF assms(2)] by simp
  have mem: "i \<in> set ?is" using claim_select_mem assms(3-6) by (simp add: due_def)
  have row: "find_delivery s' i = Some (d\<lparr>d_enqueued := True, d_updated_at := now\<rparr>)"
    using claim_loop_db [OF loop] mem assms(3) by (simp add: find_delivery_fold_mark)
  then show ?thesis
    using bull_queue.claim_loop_adds [OF assms(1) loop mem] fresh_not_selected [OF row] by auto
qed

theorem reconciler_recovers_witness:
  "map_of (fst (snd (claimUnenqueued default_config mem_queue Tx_ok 70000000 [''d1''] 500 [] demo_db))) ''d1'' \<noteq> None"
proof -
  let ?run = "claimUnenqueued default_config mem_queue Tx_ok 70000000 [''d1''] 500 [] demo_db"
  have "(case fst ?run of Inl _ \<Rightarrow> False | Inr n \<Rightarrow> True)" by code_simp
  then obtain n q' s' where run: "?run = (Inr n, q', s')"
    by (cases ?run) (auto split: sum.splits)
  obtain d where d: "find_delivery demo_db ''d1'' = Some d" "d_status d = PENDING" "d_updated_at d = 1000"
    by (simp add: demo_db_def)
  have "needs_recovery default_config 70000000 d" using d by (simp add: needs_recovery_def default_config_def)
  from reconciler_recovers [OF mem_q.bull_queue_axioms run d(1) this] run
  show ?thesis by simp
qed

text \<open>
  The sweep never touches a job the queue knows, whatever its state. This rules out duplicate
  jobs; it also means that a delivery whose old job is still kept as failed is not revived by any
  number of sweeps.
\<close>

lemma reconciler_keeps_known_jobs:
  fixes Q :: "'q queue_api"
  assumes "bull_queue Q jobs" and "jobs q k = Some j"
  shows "jobs (fst (loop cfg Q envs q s)) k = Some j"
  using bull_queue.loop_keeps_jobs [OF assms(1) prod.collapse [symmetric] assms(2)] by simp

end
