(* ===== verification/Api_Write.thy ===== *)
theory Api_Write
  imports Ingest Memo_Ttl Reconciler
begin

text \<open>
  The routes that write: \<open>src/src/api/routes/events.ts\<close>, the POST and PATCH routes of
  \<open>src/src/api/routes/endpoints.ts\<close> and the retry route of \<open>src/src/api/routes/dlq.ts\<close>, and the
  health routes of \<open>src/src/api/app.ts\<close>. The zod schemas are parsers given as arguments: they
  return the issues or the parsed body. A handler returns what it throws or the reply it sends.
\<close>

definition validation_failed :: "json \<Rightarrow> app_error" where
  "validation_failed issues = AppErrorD 400 ''VALIDATION_ERROR'' ''Validation failed'' (JObj [(''issues'', issues)])"

definition json_reply :: "int \<Rightarrow> json \<Rightarrow> reply" where
  "json_reply c b = \<lparr>rp_code = c, rp_headers = [], rp_body = b\<rparr>"

text \<open>\<open>parseInt(s, 10)\<close>: leading blanks, a sign, and the longest run of digits; \<open>None\<close> is \<open>NaN\<close>.\<close>

definition parse_digits :: "string \<Rightarrow> int option" where
  "parse_digits s = (let ds = takeWhile is_digit s in if ds = [] then None else Some (int (digits_val ds)))"

definition parseInt :: "string \<Rightarrow> int option" where
  "parseInt s = (let t = dropWhile (\<lambda>c. c = CHR '' '' \<or> c = CHR 0x09) s in
     case t of
       [] \<Rightarrow> None
     | c # cs \<Rightarrow> if c = CHR ''-'' then map_option uminus (parse_digits cs)
                else if c = CHR ''+'' then parse_digits cs else parse_digits t)"

subsection \<open>\<open>POST /v1/events\<close>\<close>

record event_body =
  eb_endpoint_id :: string
  eb_event_type :: string
  eb_payload :: json

record event_request =
  er_idempotency_key :: "string option"
  er_content_length :: "string option"
  er_body :: json

record event_env =
  ee_counts :: "exn + (job_state \<Rightarrow> nat option)"
  ee_select_fault :: "exn option"
  ee_ingest :: ingest_env
  ee_crash_after_commit :: bool
  ee_enqueue_fate :: tx_fate

datatype outcome = Replied "exn + reply" | Process_exit

text \<open>The checks before the event is stored (lines 24 to 68): the endpoint row and the parsed body.\<close>

definition check_event ::
  "config \<Rightarrow> pg_readers \<Rightarrow> (json \<Rightarrow> json + event_body) \<Rightarrow> event_env \<Rightarrow> event_request \<Rightarrow> db \<Rightarrow>
   exn + (string \<times> event_body \<times> endpoint_row)" where
  "check_event cfg pg eventBodySchema env req s =
     (case isOverloaded cfg (ee_counts env) of
        Inl e \<Rightarrow> Inl e
      | Inr True \<Rightarrow> Inl (AppExn backpressure)
      | Inr False \<Rightarrow>
     (case er_idempotency_key req of
        None \<Rightarrow> Inl (AppExn idempotencyKeyMissing)
      | Some idemKey \<Rightarrow>
     if idemKey = [] then Inl (AppExn idempotencyKeyMissing)
     else if length idemKey > 255 then Inl (AppExn idempotencyKeyTooLong)
     else if (case parseInt (case er_content_length req of None \<Rightarrow> ''0'' | Some l \<Rightarrow> l) of
                None \<Rightarrow> False | Some n \<Rightarrow> n > MAX_PAYLOAD_BYTES cfg)
     then Inl (AppExn payloadTooLarge)
     else
     (case eventBodySchema (er_body req) of
        Inl issues \<Rightarrow> Inl (AppExn (validation_failed issues))
      | Inr b \<Rightarrow>
     if int (length (json_stringify (eb_payload b))) > MAX_PAYLOAD_BYTES cfg
     then Inl (AppExn payloadTooLarge)
     else if ee_select_fault env \<noteq> None then Inl (AppExn storageUnavailable)
     else
     (case uuid_in pg (eb_endpoint_id b) of
        None \<Rightarrow> Inl (AppExn storageUnavailable)
      | Some i \<Rightarrow>
     (case find_endpoint s i of
        None \<Rightarrow> Inl (AppExn (endpointNotFound (eb_endpoint_id b)))
      | Some endpoint \<Rightarrow>
          if \<not> ep_is_active endpoint then Inl (AppExn (endpointInactive (eb_endpoint_id b)))
          else Inr (idemKey, b, endpoint))))))"

definition event_reply :: "ingest_result \<Rightarrow> reply" where
  "event_reply res = json_reply (if ir_is_new res then 202 else 200) (JObj
     [(''event_id'', JStr (ir_event_id res)),
      (''delivery_id'', JStr (ir_delivery_id res)),
      (''status'', JStr (status_name (ir_delivery_status res))),
      (''duplicate'', JBool (\<not> ir_is_new res))])"

definition post_events ::
  "'r redis_api \<Rightarrow> 'q queue_api \<Rightarrow> config \<Rightarrow> pg_readers \<Rightarrow> (json \<Rightarrow> json + event_body) \<Rightarrow> ts \<Rightarrow> event_env \<Rightarrow>
   event_request \<Rightarrow> 'r \<Rightarrow> 'q \<Rightarrow> db \<Rightarrow> outcome \<times> 'r \<times> 'q \<times> db" where
  "post_events R Q cfg pg eventBodySchema now env req r q s =
     (case check_event cfg pg eventBodySchema env req s of
        Inl e \<Rightarrow> (Replied (Inl e), r, q, s)
      | Inr (idemKey, b, endpoint) \<Rightarrow>
          (case ingestEvent R cfg pg now (ee_ingest env)
                  \<lparr>in_client_id = ep_client_id endpoint, in_idempotency_key = idemKey,
                   in_event_type = eb_event_type b, in_payload = eb_payload b,
                   in_endpoint_id = eb_endpoint_id b\<rparr> r s of
             (Inl e, r', s') \<Rightarrow> (Replied (Inl e), r', q, s')
           | (Inr res, r', s') \<Rightarrow>
               if ir_is_new res then
                 (if ee_crash_after_commit env then (Process_exit, r', q, s')
                  else case enqueueDelivery Q (ee_enqueue_fate env) now (ir_delivery_id res) q s' of
                         (_, q', s'') \<Rightarrow> (Replied (Inr (event_reply res)), r', q', s''))
               else (Replied (Inr (event_reply res)), r', q, s')))"

subsection \<open>\<open>POST /v1/endpoints\<close> and \<open>PATCH /v1/endpoints/:id\<close>\<close>

record create_body =
  cb_client_id :: string
  cb_url :: string
  cb_signing_secret :: "string option"

record patch_body =
  pb_is_active :: "bool option"
  pb_url :: "string option"

definition json_of_endpoint :: "endpoint_row \<Rightarrow> json" where
  "json_of_endpoint e = JObj
     [(''id'', JStr (ep_id e)), (''client_id'', JStr (ep_client_id e)), (''url'', JStr (ep_url e)),
      (''signing_secret'', JStr (ep_signing_secret e)), (''is_active'', JBool (ep_is_active e)),
      (''created_at'', JStr (toISOString (date_of_ts (ep_created_at e))))]"

definition post_endpoints ::
  "config \<Rightarrow> (json \<Rightarrow> json + create_body) \<Rightarrow> tx_fate \<Rightarrow> ts \<Rightarrow> string \<Rightarrow> string \<Rightarrow> json \<Rightarrow> db \<Rightarrow>
   (exn + reply) \<times> db" where
  "post_endpoints cfg createSchema fate now new_id random32 body s =
     (case createSchema body of
        Inl issues \<Rightarrow> (Inl (AppExn (validation_failed issues)), s)
      | Inr b \<Rightarrow>
          if NODE_ENV cfg = ''production'' \<and> \<not> starts_with (cb_url b) ''https://''
          then (Inl (AppExn (AppError 400 ''INVALID_URL'' ''Endpoint URL must use HTTPS in production'')), s)
          else
            let secret = (case cb_signing_secret b of Some x \<Rightarrow> x | None \<Rightarrow> ''whsec_'' @ to_hex random32);
                row = \<lparr>ep_id = new_id, ep_client_id = cb_client_id b, ep_url = cb_url b,
                       ep_signing_secret = secret, ep_is_active = True, ep_created_at = now\<rparr>
            in case withTx fate (tx_stmt (insert_endpoint row)) s of
                 (Inl e, s') \<Rightarrow> (Inl e, s')
               | (Inr _, s') \<Rightarrow> (Inr (json_reply 201 (json_of_endpoint row)), s'))"

definition patch_row :: "patch_body \<Rightarrow> endpoint_row \<Rightarrow> endpoint_row" where
  "patch_row b e =
     e\<lparr>ep_is_active := (case pb_is_active b of None \<Rightarrow> ep_is_active e | Some v \<Rightarrow> v),
       ep_url := (case pb_url b of None \<Rightarrow> ep_url e | Some u \<Rightarrow> u)\<rparr>"

definition patch_endpoint_tx :: "pg_readers \<Rightarrow> string \<Rightarrow> patch_body \<Rightarrow> endpoint_row option tx" where
  "patch_endpoint_tx pg raw b = (\<lambda>s.
     case uuid_in pg raw of
       None \<Rightarrow> Inl (PgExn Invalid_text_representation)
     | Some i \<Rightarrow> Inr (map_option (patch_row b) (find_endpoint s i),
                  s\<lparr>endpoints := upd_where (\<lambda>e. ep_id e = i) (patch_row b) (endpoints s)\<rparr>))"

definition patch_endpoint ::
  "pg_readers \<Rightarrow> (json \<Rightarrow> json + patch_body) \<Rightarrow> tx_fate \<Rightarrow> string \<Rightarrow> json \<Rightarrow> db \<Rightarrow>
   (exn + reply) \<times> db" where
  "patch_endpoint pg patchSchema fate raw body s =
     (case patchSchema body of
        Inl issues \<Rightarrow> (Inl (AppExn (validation_failed issues)), s)
      | Inr b \<Rightarrow>
          if pb_is_active b = None \<and> pb_url b = None
          then (Inl (AppExn (AppError 400 ''VALIDATION_ERROR'' ''Provide at least one of: is_active, url'')), s)
          else
            (case withTx fate (patch_endpoint_tx pg raw b) s of
               (Inl e, s') \<Rightarrow> (Inl e, s')
             | (Inr None, s') \<Rightarrow> (Inl (AppExn (endpointNotFound raw)), s')
             | (Inr (Some e), s') \<Rightarrow> (Inr (json_reply 200 (json_of_endpoint e)), s')))"

subsection \<open>\<open>POST /v1/dlq/:deliveryId/retry\<close>\<close>

definition retryJobId :: "string \<Rightarrow> ms \<Rightarrow> string" where
  "retryJobId deliveryId now = deliveryId @ '':retry:'' @ string_of_int now"

definition dlq_retry ::
  "'q queue_api \<Rightarrow> config \<Rightarrow> pg_readers \<Rightarrow> tx_fate \<Rightarrow> ts \<Rightarrow> string \<Rightarrow> 'q \<Rightarrow> db \<Rightarrow>
   (exn + reply) \<times> 'q \<times> db" where
  "dlq_retry Q cfg pg fate now deliveryId q s =
     (case retryFromDlq (uuid_in pg) fate now deliveryId s of
        (Inl e, s') \<Rightarrow> (Inl e, q, s')
      | (Inr Retry_not_found, s') \<Rightarrow> (Inl (AppExn (deliveryNotFound deliveryId)), q, s')
      | (Inr (Retry_not_in_dlq st), s') \<Rightarrow> (Inl (AppExn (notInDlq (status_name st))), q, s')
      | (Inr Retry_ok, s') \<Rightarrow>
          (case q_add Q q ''deliver'' deliveryId (retryJobId deliveryId (date_of_ts now)) of
             Inl e \<Rightarrow> (Inl e, q, s')
           | Inr q' \<Rightarrow>
               (Inr (json_reply 202 (JObj
                  [(''delivery_id'', JStr deliveryId), (''status'', JStr ''PENDING''),
                   (''retry_job_id'', JStr (retryJobId deliveryId (date_of_ts now))),
                   (''attempt_budget'', JNum (string_of_nat (length (BACKOFF_BASE_MS cfg))))])), q', s')))"

subsection \<open>\<open>GET /healthz\<close> and \<open>GET /readyz\<close>\<close>

definition healthz :: reply where
  "healthz = json_reply 200 (JObj [(''ok'', JBool True)])"

definition readyz :: "bool \<Rightarrow> bool \<Rightarrow> reply" where
  "readyz postgres_up redis_up = json_reply (if postgres_up \<and> redis_up then 200 else 503) (JObj
     [(''postgres'', JStr (if postgres_up then ''ok'' else ''error'')),
      (''redis'', JStr (if redis_up then ''ok'' else ''error''))])"

subsection \<open>Invariant\<close>

lemma log_extends_endpoints [simp]: "log_extends s (s\<lparr>endpoints := es\<rparr>)"
  by (simp add: log_extends_def)

lemma db_inv_endpoints:
  assumes "db_inv s" and "distinct (map ep_id es)" and "ep_id ` set (endpoints s) \<subseteq> ep_id ` set es"
  shows "db_inv (s\<lparr>endpoints := es\<rparr>)"
  using assms subset_trans [of "d_endpoint_id ` set (deliveries s)" "ep_id ` set (endpoints s)" "ep_id ` set es"]
  by (simp add: db_inv_def keys_ok_def attempts_of_def transitions_of_def)

lemma db_inv_endpoint_ids: "db_inv s \<Longrightarrow> distinct (map ep_id (endpoints s))"
  by (simp add: db_inv_def keys_ok_def)

lemma insert_endpoint_inv:
  assumes "db_inv s" and "tx_stmt (insert_endpoint row) s = Inr (a, s')"
  shows "db_inv s' \<and> log_extends s s'"
  using assms(2) db_inv_endpoint_ids [OF assms(1)] db_inv_endpoints [OF assms(1), of "endpoints s @ [row]"]
  by (auto simp: insert_endpoint_def tx_stmt_def split: if_splits)

lemma patch_endpoint_tx_inv:
  assumes "db_inv s" and "patch_endpoint_tx pg raw b s = Inr (r, s')"
  shows "db_inv s' \<and> log_extends s s'"
proof -
  have ids: "map ep_id (upd_where (\<lambda>e. ep_id e = i) (patch_row b) (endpoints s)) = map ep_id (endpoints s)" for i
    by (rule map_key_upd_where) (simp add: patch_row_def)
  then have "ep_id ` set (upd_where (\<lambda>e. ep_id e = i) (patch_row b) (endpoints s)) = ep_id ` set (endpoints s)" for i
    by (metis list.set_map)
  then show ?thesis
    using assms(2) ids db_inv_endpoints [OF assms(1)] db_inv_endpoint_ids [OF assms(1)]
    by (auto simp: patch_endpoint_tx_def split: option.splits)
qed

lemma post_endpoints_inv:
  assumes "db_inv s" and "post_endpoints cfg createSchema fate now new_id random32 body s = (r, s')"
  shows "db_inv s' \<and> log_extends s s'"
proof -
  have "s' = s \<or> (\<exists>row u. withTx fate (tx_stmt (insert_endpoint row)) s = (u, s'))"
    using assms(2) by (auto simp: post_endpoints_def Let_def split: sum.splits if_splits prod.splits)
  then show ?thesis
    using assms(1) by (auto dest: withTx_safe [OF _ assms(1) insert_endpoint_inv [OF assms(1)]])
qed

lemma patch_endpoint_inv:
  assumes "db_inv s" and "patch_endpoint pg patchSchema fate raw body s = (r, s')"
  shows "db_inv s' \<and> log_extends s s'"
proof -
  have "s' = s \<or> (\<exists>b u. withTx fate (patch_endpoint_tx pg raw b) s = (u, s'))"
    using assms(2) by (auto simp: patch_endpoint_def split: sum.splits if_splits prod.splits option.splits)
  then show ?thesis
    using assms(1) by (auto dest: withTx_safe [OF _ assms(1) patch_endpoint_tx_inv [OF assms(1)]])
qed

interpretation create_writer: db_writer "\<lambda>_ _. True"
  "\<lambda>(cfg, schema, fate, now, new_id, rnd, body) s. snd (post_endpoints cfg schema fate now new_id rnd body s)"
  by unfold_locales (auto dest: post_endpoints_inv [OF _ prod.collapse [symmetric]])

interpretation patch_writer: db_writer "\<lambda>_ _. True"
  "\<lambda>(pg, schema, fate, raw, body) s. snd (patch_endpoint pg schema fate raw body s)"
  by unfold_locales (auto dest: patch_endpoint_inv [OF _ prod.collapse [symmetric]])

subsection \<open>Properties\<close>

text \<open>
  C24: load is shed first. When the queue is deeper than the limit the request is answered 429 with
  \<open>Retry-After\<close>, whatever else is wrong with it, and neither Redis nor the queue nor the database is
  touched.
\<close>

theorem overload_sheds_first:
  fixes R :: "'r redis_api" and Q :: "'q queue_api"
  assumes "ee_counts env = Inr counts" and "depth_over_limit cfg counts"
  shows "\<exists>e. post_events R Q cfg pg schema now env req r q s = (Replied (Inl e), r, q, s) \<and>
    rp_code (respond (Inl e)) = 429 \<and> (''Retry-After'', ''5'') \<in> set (rp_headers (respond (Inl e)))"
  using assms
  by (simp add: post_events_def check_event_def isOverloaded_def errorHandler_def backpressure_def AppError_def)

definition demo_event_env :: event_env where
  "demo_event_env = \<lparr>ee_counts = Inr (\<lambda>_. Some 0), ee_select_fault = None, ee_ingest = demo_ingest_env,
     ee_crash_after_commit = False, ee_enqueue_fate = Tx_no_connection\<rparr>"

definition demo_request :: event_request where
  "demo_request = \<lparr>er_idempotency_key = Some ''k1'', er_content_length = Some ''2'', er_body = JObj []\<rparr>"

definition demo_event_schema :: "json \<Rightarrow> json + event_body" where
  "demo_event_schema _ = Inr \<lparr>eb_endpoint_id = ''p1'', eb_event_type = ''order.paid'', eb_payload = JObj []\<rparr>"

theorem overload_sheds_first_witness:
  "\<exists>e. post_events mem_redis mem_queue default_config demo_pg demo_event_schema 1000
     (demo_event_env\<lparr>ee_counts := Inr (\<lambda>_. Some 30000)\<rparr>) demo_request mem_empty [] demo_db =
     (Replied (Inl e), mem_empty, [], demo_db) \<and> rp_code (respond (Inl e)) = 429"
  using overload_sheds_first [of "demo_event_env\<lparr>ee_counts := Inr (\<lambda>_. Some 30000)\<rparr>" "\<lambda>_. Some 30000" default_config
      mem_redis mem_queue demo_pg demo_event_schema 1000 demo_request mem_empty "[]" demo_db]
  by (auto simp: depth_over_limit_def count_of_def default_config_def)

text \<open>What a fresh ingest inserts.\<close>

lemma ingest_new_shape:
  assumes "ingestEvent R cfg pg now env p r s = (Inr res, r', s')" and "ir_is_new res"
  shows "\<exists>d. deliveries s' = deliveries s @ [d] \<and> d_id d = ir_delivery_id res \<and>
    d_id d \<notin> d_id ` set (deliveries s) \<and> d_status d = PENDING \<and> d_updated_at d = now"
proof -
  have "withTx (ie_fate env) (ingest_tx pg now env p) s = (Inr res, s')"
    using assms by (auto simp: ingestEvent_def ingest_cached_def split: sum.splits option.splits prod.splits if_splits)
  then have run: "ingest_tx pg now env p s = Inr (res, s')" by (auto dest: withTx_Inr)
  then show ?thesis
    using assms(2) by (cases rule: ingest_tx_cases) auto
qed

lemma enqueueDelivery_row:
  "find_delivery s i = Some d \<Longrightarrow> find_delivery (snd (snd (enqueueDelivery Q fate now i q s))) i \<in>
     {Some d, Some (d\<lparr>d_enqueued := True, d_updated_at := now\<rparr>)}"
  by (cases fate) (auto simp: enqueueDelivery_def find_delivery_mark split: sum.splits)



text \<open>
  A manual retry really runs. Retrying a delivery that is in the DLQ answers 202 and leaves a
  waiting job under a fresh id, although the queue still remembers the delivery's old failed job.
\<close>

lemma dlq_retry_enqueues:
  fixes Q :: "'q queue_api"
  assumes "bull_queue Q jobs" and "uuid_in pg i = Some i"
    and "find_delivery s i = Some d" and "d_status d = DLQ"
    and "jobs q (retryJobId i (date_of_ts now)) = None"
    and "q_add Q q ''deliver'' i (retryJobId i (date_of_ts now)) = Inr q1"
  shows "\<exists>rep s'. dlq_retry Q cfg pg Tx_ok now i q s = (Inr rep, q1, s') \<and> rp_code rep = 202 \<and>
    map_option d_status (find_delivery s' i) = Some PENDING \<and>
    jobs q1 (retryJobId i (date_of_ts now)) = Some \<lparr>jb_delivery_id = i, jb_state = Waiting, jb_attempts_made = 0\<rparr> \<and>
    (\<forall>k. k \<noteq> retryJobId i (date_of_ts now) \<longrightarrow> jobs q1 k = jobs q k)"
proof -
  have retry: "retryFromDlq (uuid_in pg) Tx_ok now i s = (Inr Retry_ok, write_delivery i (status_update now PENDING) []
      [transition_row_of now i DLQ PENDING Manual_retry ''manual_retry''] s)" (is "_ = (_, ?s')")
    using retryFromDlq_ok [of "uuid_in pg" i i s d now] assms(2-4) by blast
  have "map_option d_status (find_delivery ?s' i) = Some PENDING"
    using assms(3) by (simp add: find_delivery_write status_update_def)
  then show ?thesis
    using bull_queue.add_new [OF assms(1,6,5)] retry assms(6) by (simp add: dlq_retry_def json_reply_def)
qed

end
