(* ===== verification/Dlq_Handler.thy ===== *)
theory Dlq_Handler
  imports Invariants Outbound
begin

text \<open>
  \<open>src/src/worker/dlqHandler.ts\<close>, \<open>src/src/shared/alerts.ts\<close> and the retry settings of
  \<open>src/src/worker/index.ts\<close>: what happens on BullMQ's \<open>failed\<close> event. A job with attempts left is
  ignored; the last one moves its delivery to the DLQ, adds it to the DLQ queue and raises the
  alert. Every error inside the handler is caught and logged.
\<close>

record failed_job =
  fj_deliveryId :: string
  fj_attemptsMade :: int

record last_attempt_summary =
  la_attempt_number :: int
  la_outcome :: attempt_outcome
  la_http_status :: "int option"
  la_error_message :: "string option"

record dlq_alert =
  al_delivery_id :: string
  al_endpoint_url :: string
  al_last_attempt :: "last_attempt_summary option"

record 'q dlq_world =
  dw_db :: db
  dw_queue :: 'q
  dw_log :: "dlq_alert list"
  dw_posts :: "(string \<times> string) list"

record failed_env =
  fe_now :: ts
  fe_read_fault :: "exn option"
  fe_fate :: tx_fate
  fe_last_fault :: "exn option"

primrec outcome_name :: "attempt_outcome \<Rightarrow> string" where
  "outcome_name SUCCESS = ''SUCCESS''"
| "outcome_name HTTP_ERROR = ''HTTP_ERROR''"
| "outcome_name TIMEOUT = ''TIMEOUT''"
| "outcome_name CONN_ERROR = ''CONN_ERROR''"
| "outcome_name CIRCUIT_OPEN = ''CIRCUIT_OPEN''"
| "outcome_name LOCK_LOST = ''LOCK_LOST''"

subsection \<open>\<open>fireDlqAlert\<close>\<close>

definition json_of_last :: "last_attempt_summary option \<Rightarrow> json" where
  "json_of_last la = (case la of
     None \<Rightarrow> JNull
   | Some a \<Rightarrow> JObj
       [(''attempt_number'', JNum (string_of_int (la_attempt_number a))),
        (''outcome'', JStr (outcome_name (la_outcome a))),
        (''http_status'', case la_http_status a of None \<Rightarrow> JNull | Some n \<Rightarrow> JNum (string_of_int n)),
        (''error_message'', case la_error_message a of None \<Rightarrow> JNull | Some m \<Rightarrow> JStr m)])"

definition fireDlqAlert ::
  "config \<Rightarrow> delivery_for_worker \<Rightarrow> last_attempt_summary option \<Rightarrow> 'q dlq_world \<Rightarrow> 'q dlq_world" where
  "fireDlqAlert cfg delivery lastAttempt w =
     (let w1 = w\<lparr>dw_log := dw_log w @ [\<lparr>al_delivery_id = w_id delivery,
                 al_endpoint_url = w_endpointUrl delivery, al_last_attempt = lastAttempt\<rparr>]\<rparr>
      in case ALERT_WEBHOOK_URL cfg of
           None \<Rightarrow> w1
         | Some url \<Rightarrow> if url = [] then w1 else
             w1\<lparr>dw_posts := dw_posts w1 @ [(url, json_stringify (JObj
               [(''event'', JStr ''delivery.dlq''),
                (''delivery_id'', JStr (w_id delivery)),
                (''endpoint_url'', JStr (w_endpointUrl delivery)),
                (''last_attempt'', json_of_last lastAttempt)]))]\<rparr>)"

subsection \<open>\<open>handleFailed\<close>\<close>

text \<open>\<open>ORDER BY attempt_number DESC LIMIT 1\<close>\<close>

definition highest_attempt :: "attempt_row list \<Rightarrow> attempt_row option" where
  "highest_attempt as = (case as of [] \<Rightarrow> None
     | a # rest \<Rightarrow> Some (fold (\<lambda>x best. if a_attempt_number best < a_attempt_number x then x else best) rest a))"

definition last_attempt :: "db \<Rightarrow> string \<Rightarrow> last_attempt_summary option" where
  "last_attempt s i = map_option
     (\<lambda>a. \<lparr>la_attempt_number = a_attempt_number a, la_outcome = a_outcome a,
           la_http_status = a_http_status a, la_error_message = a_error_message a\<rparr>)
     (highest_attempt (filter (\<lambda>a. a_delivery_id a = i) (delivery_attempts s)))"

definition handleFailed ::
  "config \<Rightarrow> 'q queue_api \<Rightarrow> failed_env \<Rightarrow> failed_job option \<Rightarrow> 'q dlq_world \<Rightarrow> 'q dlq_world" where
  "handleFailed cfg Q env mjob w =
     (case mjob of None \<Rightarrow> w | Some job \<Rightarrow>
      if fj_attemptsMade job < int (length (BACKOFF_BASE_MS cfg)) then w
      else
        let i = fj_deliveryId job
        in case fe_read_fault env of Some e \<Rightarrow> w | None \<Rightarrow>
           (case getForDelivery (dw_db w) i of None \<Rightarrow> w | Some d \<Rightarrow>
            if w_status d = DLQ then w
            else
              (case transition (fe_fate env) (fe_now env) i (w_status d) DLQ Worker
                      ''attempts_exhausted'' (dw_db w) of
                 (Inl e, s) \<Rightarrow> w\<lparr>dw_db := s\<rparr>
               | (Inr _, s) \<Rightarrow>
                   let w1 = w\<lparr>dw_db := s\<rparr>
                   in case q_add Q (dw_queue w1) ''dlq'' i i of
                        Inl e \<Rightarrow> w1
                      | Inr q \<Rightarrow>
                          let w2 = w1\<lparr>dw_queue := q\<rparr>
                          in case fe_last_fault env of
                               Some e \<Rightarrow> w2
                             | None \<Rightarrow> fireDlqAlert cfg d (last_attempt (dw_db w2) i) w2)))"

text \<open>The \<open>settings.backoffStrategy\<close> of the BullMQ worker.\<close>

definition backoffStrategy :: "config \<Rightarrow> rat \<Rightarrow> int \<Rightarrow> string \<Rightarrow> int" where
  "backoffStrategy cfg rnd attemptsMade type =
     (if type = ''webhook-backoff'' then webhookBackoff cfg rnd attemptsMade else 1000)"

subsection \<open>Lemmas\<close>

lemma fireDlqAlert_db [simp]: "dw_db (fireDlqAlert cfg d la w) = dw_db w"
  "dw_queue (fireDlqAlert cfg d la w) = dw_queue w"
  by (auto simp: fireDlqAlert_def Let_def split: option.splits)

lemma fireDlqAlert_log: "dw_log (fireDlqAlert cfg d la w) = dw_log w @ [\<lparr>al_delivery_id = w_id d,
    al_endpoint_url = w_endpointUrl d, al_last_attempt = la\<rparr>]"
  by (auto simp: fireDlqAlert_def Let_def split: option.splits)

lemma fold_highest:
  "fold (\<lambda>x best. if a_attempt_number best < a_attempt_number x then x else best) as a \<in> insert a (set as) \<and>
   (\<forall>x \<in> insert a (set as). a_attempt_number x \<le> a_attempt_number
      (fold (\<lambda>x best. if a_attempt_number best < a_attempt_number x then x else best) as a))"
proof (induction as arbitrary: a)
  case (Cons b as)
  show ?case
    using Cons.IH [of b] Cons.IH [of a] by (cases "a_attempt_number a < a_attempt_number b") auto
qed simp

lemma highest_attempt_None [simp]: "highest_attempt as = None \<longleftrightarrow> as = []"
  by (simp add: highest_attempt_def split: list.splits)

lemma highest_attempt_Some:
  "highest_attempt as = Some a \<Longrightarrow> a \<in> set as \<and> (\<forall>x \<in> set as. a_attempt_number x \<le> a_attempt_number a)"
  using fold_highest by (auto simp: highest_attempt_def split: list.splits)

lemma handleFailed_db:
  "dw_db (handleFailed cfg Q env mjob w) = dw_db w \<or>
   (\<exists>job st r. mjob = Some job \<and> st \<noteq> DLQ \<and>
      map_option d_status (find_delivery (dw_db w) (fj_deliveryId job)) = Some st \<and>
      transition (fe_fate env) (fe_now env) (fj_deliveryId job) st DLQ Worker ''attempts_exhausted''
        (dw_db w) = (r, dw_db (handleFailed cfg Q env mjob w)))"
  by (auto simp: handleFailed_def getForDelivery_def Let_def split: option.splits sum.splits prod.splits)

lemma handleFailed_inv:
  assumes "db_inv (dw_db w)"
  shows "db_inv (dw_db (handleFailed cfg Q env mjob w)) \<and>
    log_extends (dw_db w) (dw_db (handleFailed cfg Q env mjob w))"
  using handleFailed_db [of cfg Q env mjob w] transition_inv [OF assms, of DLQ] assms by auto

definition handled :: "config \<Rightarrow> 'q queue_api \<Rightarrow> failed_env \<Rightarrow> failed_job option \<Rightarrow> 'q \<Rightarrow> db \<Rightarrow> db" where
  "handled cfg Q env mjob q s =
     dw_db (handleFailed cfg Q env mjob \<lparr>dw_db = s, dw_queue = q, dw_log = [], dw_posts = []\<rparr>)"

lemma handled_inv: "db_inv s \<Longrightarrow> db_inv (handled cfg Q env mjob q s) \<and> log_extends s (handled cfg Q env mjob q s)"
  using handleFailed_inv [of "\<lparr>dw_db = s, dw_queue = q, dw_log = [], dw_posts = []\<rparr>" cfg Q env mjob]
  by (simp add: handled_def)

interpretation failed_writer: db_writer "\<lambda>_ _. True" "\<lambda>(cfg, Q, env, mjob, q) s. handled cfg Q env mjob q s"
  by unfold_locales (auto simp: handled_inv)

lemma handleFailed_last:
  fixes Q :: "'q queue_api"
  assumes "db_inv (dw_db w)" and "find_delivery (dw_db w) (fj_deliveryId job) = Some d" and "d_status d \<noteq> DLQ"
    and "fe_read_fault env = None" and "fe_fate env = Tx_ok" and "fe_last_fault env = None"
    and "q_add Q (dw_queue w) ''dlq'' (fj_deliveryId job) (fj_deliveryId job) = Inr q'"
    and "w' = handleFailed cfg Q env (Some job) w"
    and "int (length (BACKOFF_BASE_MS cfg)) \<le> fj_attemptsMade job"
  shows "find_delivery (dw_db w') (fj_deliveryId job) = Some (d\<lparr>d_status := DLQ, d_updated_at := fe_now env\<rparr>) \<and>
      db_inv (dw_db w') \<and> dw_queue w' = q' \<and>
      (\<exists>al. dw_log w' = dw_log w @ [al] \<and> al_delivery_id al = fj_deliveryId job \<and>
        al_last_attempt al = last_attempt (dw_db w) (fj_deliveryId job)) \<and>
      (\<forall>env'. handleFailed cfg Q env' (Some job) w' = w')"
proof -
  let ?i = "fj_deliveryId job" and ?s = "dw_db w"
  obtain e ev where refs: "find_endpoint ?s (d_endpoint_id d) = Some e" "find_event ?s (d_event_id d) = Some ev"
    using db_inv_references [OF assms(1,2)] .
  then obtain fw where fw: "getForDelivery ?s ?i = Some fw" "w_status fw = d_status d" "w_id fw = ?i"
    using assms(2) find_row_Some [OF assms(2)] by (simp add: getForDelivery_def)
  have tx: "transition Tx_ok (fe_now env) ?i (d_status d) DLQ Worker ''attempts_exhausted'' ?s =
      (Inr (), write_delivery ?i (status_update (fe_now env) DLQ) []
        [transition_row_of (fe_now env) ?i (d_status d) DLQ Worker ''attempts_exhausted''] ?s)" (is "_ = (Inr (), ?s')")
    by (rule transition_ok [OF find_row_known [OF assms(2)]])
  have row: "find_delivery ?s' ?i = Some (d\<lparr>d_status := DLQ, d_updated_at := fe_now env\<rparr>)"
    using assms(2) by (simp add: find_delivery_write status_update_def)
  have same: "last_attempt ?s' ?i = last_attempt ?s ?i" by (simp add: last_attempt_def write_delivery_def)
  have w': "w' = fireDlqAlert cfg fw (last_attempt ?s ?i) (w\<lparr>dw_db := ?s', dw_queue := q'\<rparr>)"
    using assms(3-9) fw tx same by (simp add: handleFailed_def Let_def)
  have inv: "db_inv ?s'" using transition_inv [OF assms(1) _ tx] by simp
  have "handleFailed cfg Q env' (Some job) w' = w'" for env'
    using row by (auto simp: handleFailed_def w' getForDelivery_def Let_def split: option.splits)
  then show ?thesis using w' row inv fw(3) by (auto simp: fireDlqAlert_log)
qed

subsection \<open>Properties\<close>

text \<open>
  A failure with attempts left changes nothing. The last one moves the delivery to the DLQ with
  its transition, adds it to the DLQ queue and raises one alert that carries the last attempt; a
  repeated \<open>failed\<close> event of the same job then changes nothing more.
\<close>

lemma exhausted_job_to_dlq:
  fixes Q :: "'q queue_api"
  assumes "db_inv (dw_db w)" and "find_delivery (dw_db w) (fj_deliveryId job) = Some d" and "d_status d \<noteq> DLQ"
    and "fe_read_fault env = None" and "fe_fate env = Tx_ok" and "fe_last_fault env = None"
    and "q_add Q (dw_queue w) ''dlq'' (fj_deliveryId job) (fj_deliveryId job) = Inr q'"
    and "w' = handleFailed cfg Q env (Some job) w"
  shows "if fj_attemptsMade job < int (length (BACKOFF_BASE_MS cfg)) then w' = w
    else find_delivery (dw_db w') (fj_deliveryId job) = Some (d\<lparr>d_status := DLQ, d_updated_at := fe_now env\<rparr>) \<and>
      db_inv (dw_db w') \<and> dw_queue w' = q' \<and>
      (\<exists>al. dw_log w' = dw_log w @ [al] \<and> al_delivery_id al = fj_deliveryId job \<and>
        al_last_attempt al = last_attempt (dw_db w) (fj_deliveryId job)) \<and>
      (\<forall>env'. handleFailed cfg Q env' (Some job) w' = w')"
  using handleFailed_last [OF assms] assms(8)
  by (cases "fj_attemptsMade job < int (length (BACKOFF_BASE_MS cfg))") (simp_all add: handleFailed_def)

definition demo_dlq_world :: "mem_queue_state dlq_world" where
  "demo_dlq_world = \<lparr>dw_db = demo_db, dw_queue = [], dw_log = [], dw_posts = []\<rparr>"

definition demo_failed_env :: failed_env where
  "demo_failed_env = \<lparr>fe_now = 9000, fe_read_fault = None, fe_fate = Tx_ok, fe_last_fault = None\<rparr>"

text \<open>
  The handler does not look whether the delivery was delivered. If the last attempt succeeded
  and was recorded but the run still threw (the token or the lock could not be given back), the
  \<open>failed\<close> event moves a DELIVERED delivery to the DLQ.
\<close>

lemma delivered_moved_to_dlq:
  "map_option d_status (find_delivery (dw_db (handleFailed default_config mem_queue demo_failed_env
     (Some \<lparr>fj_deliveryId = ''d1'', fj_attemptsMade = 5\<rparr>)
     (demo_dlq_world\<lparr>dw_db := snd (recordAttempt Tx_ok 9000 demo_input demo_db)\<rparr>))) ''d1'') = Some DLQ \<and>
   map_option d_status (find_delivery (snd (recordAttempt Tx_ok 9000 demo_input demo_db)) ''d1'') = Some DELIVERED"
  by code_simp

end
