(* ===== verification/System.thy ===== *)
theory System
  imports Worker_Safety Api_Write Dlq_Handler Reconciler
begin

text \<open>
  The processes together: a pool of worker slots, the API, the reconciler and the DLQ handler act
  on one database in any order. A worker's run is cut at its awaits on the database: it reads the
  delivery, commits DELIVERING and sends the request, and records the attempt; it can stop at any
  point (a crash, a throw from Redis or BullMQ). Everything Redis, BullMQ, the network and the
  clock do is an argument of the actions, so a run over arbitrary actions covers lost locks,
  expired keys, stalled jobs, duplicated jobs and lost acknowledgements. In mode \<open>Guarded\<close> the
  per-delivery lock works: a delivery is picked up only when no other slot has it, and a job's final
  failure is handled when nobody works on the delivery and it is not DELIVERED.
\<close>

datatype worker_slot = Idle | Loaded string delivery_for_worker | Sending string delivery_for_worker ms

fun slot_on :: "string \<Rightarrow> worker_slot \<Rightarrow> bool" where
  "slot_on i Idle = False"
| "slot_on i (Loaded j d) = (j = i)"
| "slot_on i (Sending j d st) = (j = i)"

record sys =
  sy_db :: db
  sy_slots :: "worker_slot list"
  sy_sent :: "http_request list"

datatype lock_mode = Guarded | Unguarded

datatype ('r, 'q) action =
    Pickup nat string
  | Circuit nat tx_fate ts rat
  | Start nat tx_fate ts
  | Finish nat tx_fate ts rat bool http_result
  | Stop nat
  | Accept "'r redis_api" 'r ts ingest_env ingest_params
  | Enqueue "'q queue_api" 'q tx_fate ts string
  | Reconcile "'q queue_api" 'q tick_env
  | Retry tx_fate ts string
  | Exhausted "'q queue_api" 'q failed_env failed_job
  | Create_endpoint "json \<Rightarrow> json + create_body" tx_fate ts string string json
  | Patch_endpoint "json \<Rightarrow> json + patch_body" tx_fate string json

definition sys_init :: "nat \<Rightarrow> sys" where
  "sys_init n = \<lparr>sy_db = empty_db, sy_slots = replicate n Idle, sy_sent = []\<rparr>"

definition slot :: "sys \<Rightarrow> nat \<Rightarrow> worker_slot" where
  "slot y k = (if k < length (sy_slots y) then sy_slots y ! k else Idle)"

definition set_slot :: "nat \<Rightarrow> worker_slot \<Rightarrow> sys \<Rightarrow> sys" where
  "set_slot k st y = y\<lparr>sy_slots := (sy_slots y)[k := st]\<rparr>"

definition set_db :: "db \<Rightarrow> sys \<Rightarrow> sys" where
  "set_db s y = y\<lparr>sy_db := s\<rparr>"

definition may_pickup :: "lock_mode \<Rightarrow> string \<Rightarrow> sys \<Rightarrow> bool" where
  "may_pickup mode i y \<longleftrightarrow> mode = Unguarded \<or> list_all (\<lambda>st. \<not> slot_on i st) (sy_slots y)"

definition may_exhaust :: "lock_mode \<Rightarrow> string \<Rightarrow> sys \<Rightarrow> bool" where
  "may_exhaust mode i y \<longleftrightarrow> mode = Unguarded \<or>
     list_all (\<lambda>st. \<not> slot_on i st) (sy_slots y) \<and>
     (case find_delivery (sy_db y) i of None \<Rightarrow> True | Some d \<Rightarrow> d_status d \<noteq> DELIVERED)"

fun sys_act ::
  "lock_mode \<Rightarrow> config \<Rightarrow> hmac \<Rightarrow> pg_readers \<Rightarrow> ('r, 'q) action \<Rightarrow> sys \<Rightarrow> sys option" where
  "sys_act mode cfg hm pg (Pickup k i) y =
     (if k < length (sy_slots y) \<and> slot y k = Idle \<and> may_pickup mode i y then
        (case getForDelivery (sy_db y) i of
           None \<Rightarrow> None
         | Some d \<Rightarrow>
             if w_status d = DELIVERED \<or> w_status d = DLQ \<or> \<not> w_endpointActive d then None
             else Some (set_slot k (Loaded i d) y))
      else None)"
| "sys_act mode cfg hm pg (Circuit k fate now rnd) y =
     (case slot y k of
        Loaded i d \<Rightarrow>
          Some (set_slot k Idle (set_db (snd (recordAttempt fate now
            (circuit_open_input cfg rnd i (w_attemptCount d + 1) (date_of_ts now) (w_status d)) (sy_db y))) y))
      | _ \<Rightarrow> None)"
| "sys_act mode cfg hm pg (Start k fate now) y =
     (case slot y k of
        Loaded i d \<Rightarrow>
          (case transition fate now i (w_status d) DELIVERING Worker
                  (''attempt_'' @ string_of_int (w_attemptCount d + 1)) (sy_db y) of
             (Inl e, s) \<Rightarrow> Some (set_slot k Idle (set_db s y))
           | (Inr _, s) \<Rightarrow>
               Some (set_slot k (Sending i d (date_of_ts now)) (set_db s
                 (y\<lparr>sy_sent := sy_sent y @
                    [outbound_request hm (date_of_ts now) i (w_attemptCount d + 1) d]\<rparr>))))
      | _ \<Rightarrow> None)"
| "sys_act mode cfg hm pg (Finish k fate now rnd lockLost res) y =
     (case slot y k of
        Sending i d startedAt \<Rightarrow>
          Some (set_slot k Idle (set_db (snd (recordAttempt fate now
            (attempt_input cfg rnd i (w_attemptCount d + 1) startedAt (date_of_ts now)
               (attempt_result_of cfg lockLost (deliver cfg res))) (sy_db y))) y))
      | _ \<Rightarrow> None)"
| "sys_act mode cfg hm pg (Stop k) y = Some (set_slot k Idle y)"
| "sys_act mode cfg hm pg (Accept R r now env p) y =
     Some (set_db (snd (snd (ingestEvent R cfg pg now env p r (sy_db y)))) y)"
| "sys_act mode cfg hm pg (Enqueue Q q fate now i) y =
     Some (set_db (snd (snd (enqueueDelivery Q fate now i q (sy_db y)))) y)"
| "sys_act mode cfg hm pg (Reconcile Q q env) y = Some (set_db (snd (tick cfg Q env q (sy_db y))) y)"
| "sys_act mode cfg hm pg (Retry fate now raw) y =
     Some (set_db (snd (retryFromDlq (uuid_in pg) fate now raw (sy_db y))) y)"
| "sys_act mode cfg hm pg (Exhausted Q q env job) y =
     (if may_exhaust mode (fj_deliveryId job) y then
        Some (set_db (handled cfg Q env (Some job) q (sy_db y)) y)
      else None)"
| "sys_act mode cfg hm pg (Create_endpoint schema fate now new_id random32 body) y =
     Some (set_db (snd (post_endpoints cfg schema fate now new_id random32 body (sy_db y))) y)"
| "sys_act mode cfg hm pg (Patch_endpoint schema fate raw body) y =
     Some (set_db (snd (patch_endpoint pg schema fate raw body (sy_db y))) y)"

text \<open>
  Each action carries its own service behaviour and service state, so the types of these states do
  not restrict what a service can do to the database; they are those of the in-memory services.
\<close>

type_synonym act = "(mem_state, mem_queue_state) action"

inductive reachable :: "lock_mode \<Rightarrow> config \<Rightarrow> hmac \<Rightarrow> pg_readers \<Rightarrow> sys \<Rightarrow> bool" for mode cfg hm pg where
  init: "reachable mode cfg hm pg (sys_init n)"
| act: "reachable mode cfg hm pg y \<Longrightarrow> sys_act mode cfg hm pg (a :: act) y = Some y' \<Longrightarrow>
    reachable mode cfg hm pg y'"

text \<open>A list of actions, each of which has to be possible.\<close>

fun sys_run :: "lock_mode \<Rightarrow> config \<Rightarrow> hmac \<Rightarrow> pg_readers \<Rightarrow> ('r, 'q) action list \<Rightarrow> sys \<Rightarrow> sys option" where
  "sys_run mode cfg hm pg [] y = Some y"
| "sys_run mode cfg hm pg (a # as) y =
     (case sys_act mode cfg hm pg a y of None \<Rightarrow> None | Some y' \<Rightarrow> sys_run mode cfg hm pg as y')"

lemma sys_run_append:
  "sys_run mode cfg hm pg (as @ bs) y =
     (case sys_run mode cfg hm pg as y of None \<Rightarrow> None | Some y' \<Rightarrow> sys_run mode cfg hm pg bs y')"
  by (induction "as" arbitrary: y) (auto split: option.splits)

lemma sys_run_reachable:
  "reachable mode cfg hm pg y \<Longrightarrow> sys_run mode cfg hm pg (as :: act list) y = Some y' \<Longrightarrow>
   reachable mode cfg hm pg y'"
  by (induction "as" arbitrary: y) (auto split: option.splits intro: reachable.act)

subsection \<open>Every interleaving keeps the invariant\<close>

text \<open>A slot's snapshot can be stale, but never ahead of the log.\<close>

fun snap_ok :: "db \<Rightarrow> worker_slot \<Rightarrow> bool" where
  "snap_ok s Idle = True"
| "snap_ok s (Loaded i d) = (0 \<le> w_attemptCount d \<and> w_attemptCount d \<le> int (length (attempts_of s i)))"
| "snap_ok s (Sending i d st) = (0 \<le> w_attemptCount d \<and> w_attemptCount d \<le> int (length (attempts_of s i)))"

lemma snap_ok_mono: "log_extends s s' \<Longrightarrow> snap_ok s st \<Longrightarrow> snap_ok s' st"
  using prefix_length_le [OF attempts_of_mono [of s s']] by (cases st) (auto intro: order_trans)

definition sys_inv :: "sys \<Rightarrow> bool" where
  "sys_inv y \<longleftrightarrow> db_inv (sy_db y) \<and> list_all (snap_ok (sy_db y)) (sy_slots y)"

lemma sys_simps [simp]:
  "sy_db (set_slot k st y) = sy_db y" "sy_db (set_db s y) = s"
  "sy_slots (set_slot k st y) = (sy_slots y)[k := st]" "sy_slots (set_db s y) = sy_slots y"
  "sy_sent (set_slot k st y) = sy_sent y" "sy_sent (set_db s y) = sy_sent y"
  by (simp_all add: set_slot_def set_db_def)

lemma sys_inv_db:
  assumes "sys_inv y" and "db_inv s' \<and> log_extends (sy_db y) s'"
  shows "sys_inv (set_db s' y)"
  using assms snap_ok_mono [of "sy_db y" s'] by (auto simp: sys_inv_def list_all_iff)

lemma sys_inv_slot:
  assumes "sys_inv y" and "snap_ok (sy_db y) st"
  shows "sys_inv (set_slot k st y)"
  using assms set_update_subset_insert [of "sy_slots y" k st] by (auto simp: sys_inv_def list_all_iff)

lemma sys_inv_sent [simp]: "sys_inv (y\<lparr>sy_sent := r\<rparr>) = sys_inv y"
  by (simp add: sys_inv_def)

lemma slot_ok: "sys_inv y \<Longrightarrow> snap_ok (sy_db y) (slot y k)"
  by (auto simp: sys_inv_def slot_def list_all_length)

lemma snap_record:
  assumes y: "sys_inv y" and snap: "snap_ok (sy_db y) (Loaded i d)"
    and "ra_deliveryId input = i" "ra_attemptNumber input = w_attemptCount d + 1"
    and "ra_toStatus input = DELIVERED \<longleftrightarrow> ra_outcome input = SUCCESS"
  shows "sys_inv (set_db (snd (recordAttempt fate now input (sy_db y))) y)"
proof (rule sys_inv_db [OF y])
  have g: "record_guard input (sy_db y)" using assms by (simp add: record_guard_def)
  show "db_inv (snd (recordAttempt fate now input (sy_db y))) \<and>
      log_extends (sy_db y) (snd (recordAttempt fate now input (sy_db y)))"
    using record_writer.keeps_inv [of "(fate, now, input)"] record_writer.grows [of "(fate, now, input)"]
      g y by (simp add: sys_inv_def)
qed

lemma load_ok:
  assumes y: "sys_inv y" and d: "getForDelivery (sy_db y) i = Some d"
  shows "snap_ok (sy_db y) (Loaded i d)"
proof -
  obtain row where "find_delivery (sy_db y) i = Some row" "w_attemptCount d = d_attempt_count row"
    using getForDelivery_row [OF d] by auto
  then show ?thesis using y db_inv_row [of "sy_db y" i row] by (simp add: sys_inv_def row_ok_def)
qed

lemma start_inv:
  assumes y: "sys_inv y" and snap: "snap_ok (sy_db y) (Loaded i d)"
    and tr: "transition fate now i (w_status d) DELIVERING Worker reason (sy_db y) = (r, s')"
    and st: "st = Idle \<or> st = Sending i d now'"
  shows "sys_inv (set_slot k st (set_db s' (y\<lparr>sy_sent := reqs\<rparr>)))"
proof -
  have s': "db_inv s' \<and> log_extends (sy_db y) s'"
    using transition_inv [OF _ _ tr] y by (simp add: sys_inv_def)
  then have "sys_inv (set_db s' (y\<lparr>sy_sent := reqs\<rparr>))" using y by (simp add: sys_inv_db)
  moreover have "snap_ok s' st" using snap_ok_mono [OF conjunct2 [OF s'] snap] st by auto
  ultimately show ?thesis using sys_inv_slot by simp
qed

text \<open>The writes of the other processes, from the contract of a writer.\<close>

context db_writer
begin

lemma sys_step:
  assumes "sys_inv y" and "allowed a (sy_db y)"
  shows "sys_inv (set_db (exec a (sy_db y)) y)"
  using assms keeps_inv [OF assms(2)] grows [OF assms(2)] by (intro sys_inv_db) (auto simp: sys_inv_def)

end

lemmas sys_inv_writes =
  ingest_writer.sys_step [where a = "(_, _, _, _, _, _, _)", simplified]
  enqueue_writer.sys_step [where a = "(_, _, _, _, _)", simplified]
  tick_writer.sys_step [where a = "(_, _, _, _)", simplified]
  retry_writer.sys_step [where a = "(_, _, _, _)", simplified]
  failed_writer.sys_step [where a = "(_, _, _, _, _)", simplified]
  create_writer.sys_step [where a = "(_, _, _, _, _, _, _)", simplified]
  patch_writer.sys_step [where a = "(_, _, _, _, _)", simplified]

lemma sys_act_inv:
  assumes y: "sys_inv y" and act: "sys_act mode cfg hm pg a y = Some y'"
  shows "sys_inv y'"
proof (cases a)
  case (Pickup k i)
  then show ?thesis
    using act by (auto intro!: sys_inv_slot y load_ok split: if_splits option.splits simp del: snap_ok.simps)
next
  case (Circuit k fate now rnd)
  then obtain i d where slot: "slot y k = Loaded i d" using act by (auto split: worker_slot.splits)
  show ?thesis
    using act Circuit slot slot_ok [OF y, of k] snap_record [OF y, of i d] by (auto intro!: sys_inv_slot)
next
  case (Start k fate now)
  then obtain i d where slot: "slot y k = Loaded i d" using act by (auto split: worker_slot.splits)
  obtain r s' where tr: "transition fate now i (w_status d) DELIVERING Worker
      (''attempt_'' @ string_of_int (w_attemptCount d + 1)) (sy_db y) = (r, s')" by (metis prod.exhaust)
  show ?thesis
    using act Start slot tr slot_ok [OF y, of k] start_inv [OF y _ tr, of Idle _ k "sy_sent y"]
      start_inv [OF y _ tr, of "Sending i d (date_of_ts now)"]
    by (cases r) auto
next
  case (Finish k fate now rnd lost res)
  then obtain i d st where slot: "slot y k = Sending i d st" using act by (auto split: worker_slot.splits)
  show ?thesis
    using act Finish slot slot_ok [OF y, of k] snap_record [OF y, of i d] by (auto intro!: sys_inv_slot)
qed (use act y in \<open>auto intro: sys_inv_slot sys_inv_writes split: if_splits\<close>)

lemma reachable_inv: "reachable mode cfg hm pg y \<Longrightarrow> sys_inv y"
proof (induction rule: reachable.induct)
  case (init n)
  then show ?case by (simp add: sys_inv_def sys_init_def db_inv_empty list_all_iff)
next
  case (act y a y')
  then show ?case by (blast intro: sys_act_inv)
qed

end
