(* ===== verification/System_Exclusive.thy ===== *)
theory System_Exclusive
  imports System
begin

text \<open>
  Invariant I1 (a delivery becomes DELIVERED at most once) in the mode in which the per-delivery
  lock does its work, and what a single run of the processor is in terms of the system's actions.
\<close>

subsection \<open>Writes that do not deliver\<close>

definition status_of :: "db \<Rightarrow> string \<Rightarrow> status option" where
  "status_of s i = map_option d_status (find_delivery s i)"

text \<open>No transition to DELIVERED is added, and a delivery that has one keeps its status.\<close>

definition quiet :: "db \<Rightarrow> db \<Rightarrow> bool" where
  "quiet s s' \<longleftrightarrow> (\<forall>i. delivered_rows s' i = delivered_rows s i \<and>
     (delivered_rows s i \<noteq> 0 \<longrightarrow> status_of s' i = status_of s i))"

lemma quiet_refl [simp]: "quiet s s"
  by (simp add: quiet_def)

lemma quiet_trans: "quiet s s' \<Longrightarrow> quiet s' s'' \<Longrightarrow> quiet s s''"
  by (simp add: quiet_def)

lemma delivered_rows_write:
  assumes "\<forall>t \<in> set ts. t_delivery_id t = i"
  shows "delivered_rows (write_delivery i f as ts s) k =
    delivered_rows s k + (if k = i then length (filter (\<lambda>t. t_to_status t = DELIVERED) ts) else 0)"
proof -
  have "transitions_of (write_delivery i f as ts s) k = transitions_of s k @ (if k = i then ts else [])"
    using assms by (simp add: transitions_of_def write_delivery_def filter_own)
  then show ?thesis by (simp add: delivered_rows_def)
qed

lemma status_of_write:
  "keeps_keys f \<Longrightarrow> status_of (write_delivery i f as ts s) k =
     (if k = i then map_option (\<lambda>d. d_status (f d)) (find_delivery s i) else status_of s k)"
  by (simp add: status_of_def find_delivery_write option.map_comp o_def)

lemma quiet_status_write:
  assumes "delivered_rows s i = 0" and "to_st \<noteq> DELIVERED"
  shows "quiet s (write_delivery i (status_update now to_st) [] [transition_row_of now' i from_st to_st act reason] s)"
  using assms by (simp add: quiet_def delivered_rows_write status_of_write)

lemma quiet_transition:
  assumes "delivered_rows s i = 0" and "to_st \<noteq> DELIVERED"
    and "transition fate now i from_st to_st act reason s = (r, s')"
  shows "quiet s s'"
  using transition_shape [OF assms(3)] quiet_status_write [OF assms(1,2)] by auto

lemma quiet_record:
  assumes "delivered_rows s (ra_deliveryId input) = 0" and "ra_toStatus input \<noteq> DELIVERED"
    and "recordAttempt fate now input s = (r, s')"
  shows "quiet s s'"
  using recordAttempt_shape [OF assms(3)] recordAttempt_tx_shape [of now input s "()" s'] assms(1,2)
  by (auto simp: quiet_def delivered_rows_write status_of_write)

lemma quiet_mark: "quiet s (mark_enqueued now i s)"
  by (auto simp: mark_enqueued_shape quiet_def delivered_rows_write status_of_write)
    (simp add: status_of_def)

lemma quiet_fold_mark: "quiet s (fold (mark_enqueued now) is s)"
proof (induction "is" arbitrary: s)
  case (Cons i "is")
  show ?case using quiet_trans [OF quiet_mark Cons.IH] by simp
qed simp

lemma quiet_retry:
  assumes "\<And>i. status_of s i = Some DLQ \<Longrightarrow> delivered_rows s i = 0"
  shows "quiet s (snd (retryFromDlq uin fate now raw s))"
proof -
  obtain r s' where run: "retryFromDlq uin fate now raw s = (r, s')" by (metis prod.exhaust)
  have "quiet s s'"
    using retryFromDlq_shape [OF run] assms quiet_status_write [of s] by (auto simp: status_of_def)
  then show ?thesis using run by simp
qed

lemma quiet_tick: "quiet s (snd (tick cfg Q env q s))"
proof -
  obtain r q' s' where run: "claimUnenqueued cfg Q (te_fate env) (te_now env) (te_scan env)
      (nat (RECONCILER_BATCH_SIZE cfg)) q s = (r, q', s')" by (metis prod_cases3)
  then show ?thesis using claimUnenqueued_db [OF run] quiet_fold_mark [of s] by (auto simp: tick_def)
qed

lemma quiet_enqueue: "quiet s (snd (snd (enqueueDelivery Q fate now i q s)))"
proof -
  have "quiet s (snd (withTx fate (\<lambda>s. Inr ((), mark_enqueued now i s)) s))"
    by (rule withTx_invariant) (auto simp: quiet_mark)
  then show ?thesis by (auto simp: enqueueDelivery_def split: sum.splits prod.splits)
qed

lemma quiet_failed:
  assumes "\<And>job. mjob = Some job \<Longrightarrow> delivered_rows (dw_db w) (fj_deliveryId job) = 0"
  shows "quiet (dw_db w) (dw_db (handleFailed cfg Q env mjob w))"
  using handleFailed_db [of cfg Q env mjob w]
proof (elim disjE exE conjE)
  fix job st r
  assume "mjob = Some job" and tr: "transition (fe_fate env) (fe_now env) (fj_deliveryId job) st DLQ Worker
    ''attempts_exhausted'' (dw_db w) = (r, dw_db (handleFailed cfg Q env mjob w))"
  then show ?thesis using quiet_transition [OF assms _ tr] by simp
qed simp

lemma quiet_endpoints [simp]: "quiet s (s\<lparr>endpoints := es\<rparr>)"
  by (simp add: quiet_def delivered_rows_def transitions_of_def status_of_def)

lemma quiet_post_endpoints: "quiet s (snd (post_endpoints cfg schema fate now new_id rnd body s))"
  by (cases fate) (auto simp: post_endpoints_def insert_endpoint_def tx_stmt_def Let_def split: sum.splits)

lemma quiet_patch_endpoint: "quiet s (snd (patch_endpoint pg schema fate raw body s))"
  by (cases fate) (auto simp: patch_endpoint_def patch_endpoint_tx_def split: sum.splits option.splits)

lemma quiet_ingest:
  assumes inv: "db_inv s"
  shows "quiet s (snd (snd (ingestEvent R cfg pg now env p r s)))"
proof -
  have tx: "quiet s s'" if run: "ingest_tx pg now env p s = Inr (res, s')" for res s'
    using run
  proof (cases rule: ingest_tx_cases)
    case (fresh e d t)
    have "delivered_rows s' i = delivered_rows s i" for i
      using fresh by (simp add: delivered_rows_def transitions_of_def)
    moreover have "status_of s' i = status_of s i" if "delivered_rows s i \<noteq> 0" for i
    proof -
      have "transitions_of s i \<noteq> []" using that by (auto simp: delivered_rows_def)
      then obtain t where "t \<in> set (delivery_transitions s)" "t_delivery_id t = i"
        by (auto simp: transitions_of_def filter_empty_conv)
      then have "i \<in> d_id ` set (deliveries s)" using inv by (auto simp: db_inv_def keys_ok_def)
      then obtain d' where "find_delivery s i = Some d'"
        by (cases "find_delivery s i") (auto simp: find_row_None)
      then show ?thesis using fresh by (simp add: status_of_def find_row_append)
    qed
    ultimately show ?thesis by (simp add: quiet_def)
  qed simp
  have "quiet s (snd (withTx (ie_fate env) (ingest_tx pg now env p) s))"
    by (rule withTx_invariant [of "quiet s", OF quiet_refl tx])
  then show ?thesis by (auto simp: ingestEvent_def split: sum.splits option.splits prod.splits)
qed

subsection \<open>At most one DELIVERED\<close>

definition once :: "db \<Rightarrow> string \<Rightarrow> bool" where
  "once s i \<longleftrightarrow> delivered_rows s i = 0 \<or> delivered_rows s i = 1 \<and> status_of s i = Some DELIVERED"

definition excl_inv :: "sys \<Rightarrow> bool" where
  "excl_inv y \<longleftrightarrow> sys_inv y \<and> (\<forall>i. length (filter (slot_on i) (sy_slots y)) \<le> 1) \<and>
     (\<forall>i. once (sy_db y) i) \<and>
     (\<forall>st \<in> set (sy_slots y). \<forall>i. slot_on i st \<longrightarrow> delivered_rows (sy_db y) i = 0)"

lemma length_filter_update:
  "k < length xs \<Longrightarrow> length (filter P (xs[k := x])) + (if P (xs ! k) then 1 else 0) =
     length (filter P xs) + (if P x then 1 else 0)"
proof (induction xs arbitrary: k)
  case (Cons a xs)
  then show ?case by (cases k) auto
qed simp

lemma once_quiet: "quiet s s' \<Longrightarrow> once s i \<Longrightarrow> once s' i"
  by (auto simp: once_def quiet_def)

lemma excl_db:
  assumes "excl_inv y" and "quiet (sy_db y) s'" and "sys_inv (set_db s' y)"
  shows "excl_inv (set_db s' y)"
  using assms once_quiet [OF assms(2)] by (auto simp: excl_inv_def quiet_def)

lemma excl_sent [simp]: "excl_inv (y\<lparr>sy_sent := r\<rparr>) = excl_inv y"
  by (simp add: excl_inv_def)

lemma excl_slot:
  assumes "excl_inv y" and "sys_inv (set_slot k st y)"
    and "\<And>i. slot_on i st \<Longrightarrow> slot_on i (slot y k) \<or>
      list_all (\<lambda>st. \<not> slot_on i st) (sy_slots y) \<and> delivered_rows (sy_db y) i = 0"
  shows "excl_inv (set_slot k st y)"
proof (cases "k < length (sy_slots y)")
  case True
  have count: "length (filter (slot_on i) ((sy_slots y)[k := st])) \<le> 1" for i
  proof -
    have le: "length (filter (slot_on i) (sy_slots y)) \<le> 1" using assms(1) by (simp add: excl_inv_def)
    moreover have "length (filter (slot_on i) (sy_slots y)) = 0" if "slot_on i st" "\<not> slot_on i (slot y k)"
      using assms(3) [OF that(1)] that(2) by (simp add: list_all_iff filter_empty_conv)
    ultimately show ?thesis
      using length_filter_update [OF True, of "slot_on i" st] True
      by (cases "slot_on i st"; cases "slot_on i (slot y k)") (simp_all add: slot_def)
  qed
  have "delivered_rows (sy_db y) i = 0" if "st' \<in> set ((sy_slots y)[k := st])" "slot_on i st'" for i st'
  proof (cases "st' = st")
    case True
    then have "slot_on i (slot y k) \<or> delivered_rows (sy_db y) i = 0" using assms(3) [of i] that(2) by auto
    then show ?thesis using assms(1) \<open>k < length (sy_slots y)\<close> by (auto simp: excl_inv_def slot_def)
  next
    case False
    then have "st' \<in> set (sy_slots y)"
      using that(1) set_update_subset_insert [of "sy_slots y" k st] by auto
    then show ?thesis using that(2) assms(1) by (auto simp: excl_inv_def)
  qed
  then show ?thesis using assms(1,2) count by (simp add: excl_inv_def)
next
  case False
  then show ?thesis using assms(1,2) by (simp add: excl_inv_def list_update_beyond)
qed

lemma slot_member: "slot y k \<noteq> Idle \<Longrightarrow> slot y k \<in> set (sy_slots y) \<and> k < length (sy_slots y)"
  by (auto simp: slot_def split: if_splits)

lemma record_effect:
  assumes run: "recordAttempt fate now input s = (r, s')" and i: "ra_deliveryId input = i"
    and zero: "delivered_rows s i = 0"
  shows "once s' i"
    and "j \<noteq> i \<Longrightarrow> delivered_rows s' j = delivered_rows s j \<and> status_of s' j = status_of s j"
  using recordAttempt_shape [OF run] recordAttempt_tx_shape [of now input s "()" s'] zero i recordAttempt_row [OF run]
  by (cases "s' = s"; auto simp: once_def delivered_rows_write status_of_write attempt_update_def)+

text \<open>The one step that delivers: the slot was the only one on its delivery.\<close>

lemma excl_finish:
  assumes y: "excl_inv y" and slot: "slot y k = Sending i d st"
    and input: "ra_deliveryId input = i"
    and run: "recordAttempt fate now input (sy_db y) = (r, s')"
    and inv: "sys_inv (set_slot k Idle (set_db s' y))"
  shows "excl_inv (set_slot k Idle (set_db s' y))"
proof -
  have k: "k < length (sy_slots y)" and mem: "Sending i d st \<in> set (sy_slots y)"
    using slot_member [of y k] slot by auto
  then have zero: "delivered_rows (sy_db y) i = 0" using y by (auto simp: excl_inv_def)
  have alone: "\<not> slot_on i st'" if "st' \<in> set ((sy_slots y)[k := Idle])" for st'
  proof -
    have "length (filter (slot_on i) (sy_slots y)) \<le> 1" using y by (simp add: excl_inv_def)
    then have "length (filter (slot_on i) ((sy_slots y)[k := Idle])) = 0"
      using length_filter_update [OF k, of "slot_on i" Idle] k slot by (simp add: slot_def del: length_0_conv)
    then show ?thesis using that by (simp add: filter_empty_conv)
  qed
  note others = record_effect(2) [OF run input zero] and own = record_effect(1) [OF run input zero]
  have "once s' j" for j using own others y by (cases "j = i") (auto simp: once_def excl_inv_def)
  moreover have "delivered_rows s' j = 0" if "st' \<in> set ((sy_slots y)[k := Idle])" "slot_on j st'" for j st'
  proof -
    have "st' \<in> set (sy_slots y)"
      using that set_update_subset_insert [of "sy_slots y" k Idle] by auto
    then show ?thesis using alone [OF that(1)] that(2) others [of j] y by (auto simp: excl_inv_def)
  qed
  moreover have "length (filter (slot_on j) ((sy_slots y)[k := Idle])) \<le> 1" for j
  proof -
    have "length (filter (slot_on j) (sy_slots y)) \<le> 1" using y by (simp add: excl_inv_def)
    then show ?thesis using length_filter_update [OF k, of "slot_on j" Idle] by simp
  qed
  ultimately show ?thesis using inv by (simp add: excl_inv_def)
qed

lemma excl_slot_zero:
  assumes "excl_inv y" and "slot_on i (slot y k)"
  shows "delivered_rows (sy_db y) i = 0"
  using assms slot_member [of y k] by (cases "slot y k") (auto simp: excl_inv_def)

lemma excl_status_zero:
  assumes "excl_inv y" and "status_of (sy_db y) i \<noteq> Some DELIVERED"
  shows "delivered_rows (sy_db y) i = 0"
  using assms by (auto simp: excl_inv_def once_def)

lemma excl_start:
  assumes y: "excl_inv y" and slot: "slot y k = Loaded i d"
    and run: "transition fate now i (w_status d) DELIVERING Worker reason (sy_db y) = (r, s')"
    and st: "st = Idle \<or> st = Sending i d now'"
  shows "excl_inv (set_slot k st (set_db s' (y\<lparr>sy_sent := reqs\<rparr>)))"
proof -
  have inv: "sys_inv y" using y by (simp add: excl_inv_def)
  have q: "quiet (sy_db y) s'" using quiet_transition [OF _ _ run] excl_slot_zero [OF y, of i k] slot by simp
  have s': "db_inv s' \<and> log_extends (sy_db y) s'"
    using transition_inv [OF _ _ run] inv by (simp add: sys_inv_def)
  have "excl_inv (set_db s' (y\<lparr>sy_sent := reqs\<rparr>))"
    using excl_db [of "y\<lparr>sy_sent := reqs\<rparr>" s'] y q sys_inv_db [of "y\<lparr>sy_sent := reqs\<rparr>" s'] inv s' by simp
  moreover have "slot (set_db s' (y\<lparr>sy_sent := reqs\<rparr>)) k = Loaded i d"
    using slot by (auto simp: slot_def split: if_splits)
  moreover have "sys_inv (set_slot k st (set_db s' (y\<lparr>sy_sent := reqs\<rparr>)))"
    using start_inv [OF inv _ run st] slot_ok [OF inv, of k] slot by simp
  ultimately show ?thesis using st by (auto intro!: excl_slot)
qed

lemma excl_circuit:
  assumes y: "excl_inv y" and slot: "slot y k = Loaded i d"
    and input: "ra_deliveryId input = i" "ra_attemptNumber input = w_attemptCount d + 1"
      "ra_toStatus input \<noteq> DELIVERED" "ra_outcome input \<noteq> SUCCESS"
  shows "excl_inv (set_slot k Idle (set_db (snd (recordAttempt fate now input (sy_db y))) y))"
proof -
  have inv: "sys_inv y" using y by (simp add: excl_inv_def)
  have "sys_inv (set_db (snd (recordAttempt fate now input (sy_db y))) y)"
    using snap_record [OF inv _ input(1,2)] slot_ok [OF inv, of k] slot input(3,4) by simp
  moreover from this have "excl_inv (set_db (snd (recordAttempt fate now input (sy_db y))) y)"
    using excl_db [OF y] quiet_record [OF _ input(3) prod.collapse [symmetric]] excl_slot_zero [OF y, of i k]
      slot input(1) by simp
  ultimately show ?thesis by (auto intro!: excl_slot sys_inv_slot)
qed

lemma excl_act:
  assumes y: "excl_inv y" and act: "sys_act Guarded cfg hm pg a y = Some y'"
  shows "excl_inv y'"
proof -
  have inv: "sys_inv y" using y by (simp add: excl_inv_def)
  then have inv': "sys_inv y'" and dbi: "db_inv (sy_db y)"
    using sys_act_inv [OF inv act] by (simp_all add: sys_inv_def)
  show ?thesis
  proof (cases a)
    case (Pickup k i)
    then obtain d where d: "getForDelivery (sy_db y) i = Some d" "w_status d \<noteq> DELIVERED"
        "may_pickup Guarded i y" "y' = set_slot k (Loaded i d) y"
      using act by (auto split: if_splits option.splits)
    then have "status_of (sy_db y) i \<noteq> Some DELIVERED"
      using getForDelivery_row [OF d(1)] by (auto simp: status_of_def)
    then show ?thesis
      using d inv' excl_status_zero [OF y] by (auto intro!: excl_slot [OF y] simp: may_pickup_def)
  next
    case (Circuit k fate now rnd)
    then obtain i d where slot: "slot y k = Loaded i d" using act by (auto split: worker_slot.splits)
    then show ?thesis using act Circuit excl_circuit [OF y slot] by auto
  next
    case (Start k fate now)
    then obtain i d where slot: "slot y k = Loaded i d" using act by (auto split: worker_slot.splits)
    obtain r s' where run: "transition fate now i (w_status d) DELIVERING Worker
        (''attempt_'' @ string_of_int (w_attemptCount d + 1)) (sy_db y) = (r, s')" by (metis prod.exhaust)
    show ?thesis
      using act Start slot run excl_start [OF y slot run, of Idle _ "sy_sent y"]
        excl_start [OF y slot run, of "Sending i d (date_of_ts now)"]
      by (cases r) auto
  next
    case (Finish k fate now rnd lost res)
    then obtain i d st where slot: "slot y k = Sending i d st" using act by (auto split: worker_slot.splits)
    then show ?thesis
      using act Finish inv' excl_finish [OF y slot _ prod.collapse [symmetric]] by auto
  next
    case (Stop k)
    then show ?thesis using act inv' by (auto intro!: excl_slot [OF y])
  next
    case (Exhausted Q q env job)
    then have "delivered_rows (sy_db y) (fj_deliveryId job) = 0"
      using act excl_status_zero [OF y]
      by (auto simp: may_exhaust_def status_of_def split: if_splits option.splits)
    then show ?thesis
      using act Exhausted inv' quiet_failed [of "Some job" "\<lparr>dw_db = sy_db y, dw_queue = q, dw_log = [], dw_posts = []\<rparr>"]
      by (auto intro!: excl_db [OF y] simp: handled_def split: if_splits)
  next
    case (Retry fate now raw)
    then show ?thesis
      using act inv' excl_status_zero [OF y] by (auto intro!: excl_db [OF y] quiet_retry)
  qed (use act inv' dbi in \<open>auto intro!: excl_db [OF y] quiet_ingest quiet_enqueue quiet_tick
      quiet_post_endpoints quiet_patch_endpoint\<close>)
qed

lemma reachable_excl: "reachable Guarded cfg hm pg y \<Longrightarrow> excl_inv y"
proof (induction rule: reachable.induct)
  case (init n)
  have "sys_inv (sys_init n)" by (rule reachable_inv) (rule reachable.init)
  then show ?case
    by (auto simp: excl_inv_def sys_init_def once_def delivered_rows_def transitions_of_def empty_db_def)
next
  case (act y a y')
  then show ?case by (blast intro: excl_act)
qed

lemma once_audit_I1: "(\<And>i. once s i) \<Longrightarrow> audit_I1 s = []"
proof -
  assume all: "\<And>i. once s i"
  have "\<not> 1 < delivered_rows s i" for i using all [of i] by (auto simp: once_def)
  then show ?thesis by (simp add: audit_I1_def)
qed

subsection \<open>A run of the processor is a run of actions\<close>

lemma guarded_delivers_once: "reachable Guarded cfg hm pg y \<Longrightarrow> audit_I1 (sy_db y) = []"
  using reachable_excl [of cfg hm pg y] by (intro once_audit_I1) (simp add: excl_inv_def)

lemma slot_set_slot [simp]: "k < length (sy_slots y) \<Longrightarrow> slot (set_slot k st y) k = st"
  by (simp add: slot_def)

lemma slot_unchanged [simp]: "slot (set_db s y) k = slot y k" "slot (y\<lparr>sy_sent := r\<rparr>) k = slot y k"
  by (simp_all add: slot_def)

lemma slots_restored:
  "slot y k = Idle \<Longrightarrow> k < length (sy_slots y) \<Longrightarrow> (sy_slots y)[k := Idle] = sy_slots y"
  by (metis list_update_id slot_def)

text \<open>What a run of actions of one slot leaves: the database and requests of the processor's run.\<close>

definition simulates :: "lock_mode \<Rightarrow> config \<Rightarrow> hmac \<Rightarrow> pg_readers \<Rightarrow> act list \<Rightarrow> sys \<Rightarrow> 'r world \<Rightarrow> 'r world \<Rightarrow> bool" where
  "simulates mode cfg hm pg as y w w' \<longleftrightarrow>
     (\<exists>y' reqs. sys_run mode cfg hm pg as y = Some y' \<and> sy_db y' = wd_db w' \<and> sy_slots y' = sy_slots y \<and>
        wd_sent w' = wd_sent w @ reqs \<and> sy_sent y' = sy_sent y @ reqs)"

lemma pickup_ok:
  assumes "k < length (sy_slots y)" and "slot y k = Idle" and "may_pickup mode i y"
    and "workable (sy_db y) i d" and "w_endpointActive d"
  shows "sys_act mode cfg hm pg (Pickup k i) y = Some (set_slot k (Loaded i d) y)"
  using assms by (simp add: workable_def)

lemma attempt_simulated:
  assumes k: "k < length (sy_slots y)" "slot y k = Idle" and may: "may_pickup mode (deliveryId job) y"
    and db: "sy_db y = wd_db w" and d: "workable (wd_db w) (deliveryId job) d" "w_endpointActive d"
    and run: "attempt_delivery R cfg hm env job tok d (w_attemptCount d + 1) bs w = (fl, w')"
  shows "\<exists>as. simulates mode cfg hm pg as y w w'"
proof -
  let ?i = "deliveryId job" and ?st = "en_tx env At_transition"
  have pick: "sys_act mode cfg hm pg (Pickup k ?i) y = Some (set_slot k (Loaded ?i d) y)"
    using pickup_ok [OF k may] d db by simp
  note simps = pick simulates_def slots_restored [OF k(2,1)] k(1) db ms_now_def
  from run show ?thesis
  proof (cases rule: attempt_delivery_cases)
    case (no_start e)
    then have "simulates mode cfg hm pg [Pickup k ?i, Start k ?st (wd_now w)] y w w'"
      by (simp add: simps del: sys_act.simps(1))
    then show ?thesis ..
  next
    case stopped
    then have "simulates mode cfg hm pg [Pickup k ?i, Start k ?st (wd_now w), Stop k] y w w'"
      by (simp add: simps del: sys_act.simps(1))
    then show ?thesis ..
  next
    case (finished s1 beat c ar r)
    then have "simulates mode cfg hm pg [Pickup k ?i, Start k ?st (wd_now w),
        Finish k (en_tx env At_record) (en_http_done env) (en_random env) (beat = Beat_lost)
          (en_http env (outbound_request hm (ms_now w) ?i (w_attemptCount d + 1) d))] y w w'"
      by (simp add: simps del: sys_act.simps(1))
    then show ?thesis ..
  qed
qed

lemma processDelivery_simulated:
  assumes k: "k < length (sy_slots y)" "slot y k = Idle" and may: "may_pickup mode (deliveryId job) y"
    and db: "sy_db y = wd_db w" and run: "processDelivery R cfg hm env job w = (fl, w')"
  shows "\<exists>as. simulates mode cfg hm pg as y w w'"
proof -
  have none: "simulates mode cfg hm pg [] y w w'" if "wd_db w' = wd_db w" "wd_sent w' = wd_sent w"
    using that db by (simp add: simulates_def)
  from run show ?thesis
  proof (cases rule: processDelivery_cases)
    case refused
    then show ?thesis using none by blast
  next
    case (ran lk c fl0 b w2)
    from ran(3) show ?thesis
    proof (cases rule: process_try_cases)
      case quiet
      then show ?thesis using none ran(5,6) by auto
    next
      case (circuit d r)
      then have pick: "sys_act mode cfg hm pg (Pickup k (deliveryId job)) y = Some (set_slot k (Loaded (deliveryId job) d) y)"
        using pickup_ok [OF k may] db by simp
      have "simulates mode cfg hm pg [Pickup k (deliveryId job),
          Circuit k (en_tx env At_circuit_record) (wd_now w) (en_random env)] y w w'"
        using circuit ran(5,6) k(1) db slots_restored [OF k(2,1)]
        by (simp add: simulates_def pick ms_now_def del: sys_act.simps(1))
      then show ?thesis ..
    next
      case (attempt d bs c')
      then obtain as where "simulates mode cfg hm pg as y (w\<lparr>wd_redis := c'\<rparr>) w2"
        using attempt_simulated [OF k may _ _ _ attempt(5)] db by auto
      then show ?thesis using ran(5,6) by (auto simp: simulates_def)
    qed
  qed
qed

subsection \<open>What the lock protects against\<close>

text \<open>
  Without the guard I1 fails: \<open>transition\<close> to DELIVERING has no condition on the current status, so
  a worker that stalled between its read and its transition overwrites DELIVERED, and the delivery
  is sent and recorded as DELIVERED again. Two workers read the delivery; the first delivers; the
  second then starts, is interrupted, and its retry delivers once more.
\<close>

definition demo_schema :: "json \<Rightarrow> json + create_body" where
  "demo_schema _ = Inr \<lparr>cb_client_id = ''c1'', cb_url = ''https://x'', cb_signing_secret = Some ''s''\<rparr>"

definition stalled_worker_trace :: "act list" where
  "stalled_worker_trace =
     [Create_endpoint demo_schema Tx_ok 0 ''p1'' [] JNull,
      Accept mem_redis mem_empty 1000 demo_ingest_env demo_params,
      Pickup 0 ''d1'', Pickup 1 ''d1'',
      Start 0 Tx_ok 2000, Finish 0 Tx_ok 3000 0 False (Response 200 ''ok''),
      Start 1 Tx_ok 4000, Stop 1,
      Pickup 1 ''d1'', Start 1 Tx_ok 5000, Finish 1 Tx_ok 6000 0 False (Response 200 ''ok'')]"

lemma stalled_worker_delivers_twice_t:
  "(case sys_run Unguarded default_config (\<lambda>_ _. []) demo_pg stalled_worker_trace (sys_init 2) of
      None \<Rightarrow> False | Some y \<Rightarrow> audit_I1 (sy_db y) = [''d1''])"
  by code_simp

text \<open>The same delivery under the guard.\<close>

definition guarded_trace :: "act list" where
  "guarded_trace =
     [Create_endpoint demo_schema Tx_ok 0 ''p1'' [] JNull,
      Accept mem_redis mem_empty 1000 demo_ingest_env demo_params,
      Pickup 0 ''d1'', Start 0 Tx_ok 2000, Finish 0 Tx_ok 3000 0 False (Response 200 ''ok'')]"

lemma guarded_trace_runs:
  "(case sys_run Guarded default_config (\<lambda>_ _. []) demo_pg guarded_trace (sys_init 2) of
      None \<Rightarrow> False | Some y \<Rightarrow> delivered_rows (sy_db y) ''d1'' = 1)"
  by code_simp

end
