(* ===== verification/System_Leased.thy ===== *)
theory System_Leased
  imports System_Exclusive
begin

text \<open>
  The system of processes with the real lock in place of mode \<open>Guarded\<close>. A worker slot first calls
  \<open>acquire\<close>, reads and writes while its heartbeat calls \<open>extend\<close>, and calls \<open>release\<close> at the end,
  unless its process dies. Time passes between events, so leases run out under workers that still
  act. The locale \<open>lease_lock\<close> is all that is used of the lock; the results are stated for \<open>lock.ts\<close> on
  every Redis that keeps its contract. I1 needs two things of a worker only: that it commits
  DELIVERING, and that it records a success, before its lease runs out (\<open>timely\<close>). Every other late
  write is harmless, since the attempt numbers fence it off.
\<close>

text \<open>
  \<open>ls_tok k\<close> is what the run in slot \<open>k\<close> has in \<open>lock.token\<close>, with the delivery it locked; \<open>ls_used\<close> are the
  tokens drawn so far.
\<close>

record 's lsys =
  ls_sys :: sys
  ls_lock :: 's
  ls_tok :: "nat \<Rightarrow> (string \<times> string) option"
  ls_used :: "string list"
  ls_now :: ms

datatype ('r, 'q) event =
    Pass_time ms
  | Grab nat string string
  | Heartbeat nat
  | Act "('r, 'q) action"
  | Let_go nat
  | Die nat

definition leased_init :: "nat \<Rightarrow> ms \<Rightarrow> 's \<Rightarrow> 's lsys" where
  "leased_init n now s = \<lparr>ls_sys = sys_init n, ls_lock = s, ls_tok = (\<lambda>_. None), ls_used = [], ls_now = now\<rparr>"

text \<open>
  A slot reads the delivery it has acquired the lock of, whether the lease still runs or not; it stops
  by letting go of the lock or by dying. Nothing else restricts the actions.
\<close>

fun act_allowed :: "(nat \<Rightarrow> (string \<times> string) option) \<Rightarrow> ('r, 'q) action \<Rightarrow> bool" where
  "act_allowed tk (Pickup k i) = (case tk k of None \<Rightarrow> False | Some (t, j) \<Rightarrow> j = i)"
| "act_allowed tk (Stop k) = False"
| "act_allowed tk a = True"

definition leave :: "nat \<Rightarrow> 's lsys \<Rightarrow> 's lsys" where
  "leave k z = z\<lparr>ls_sys := set_slot k Idle (ls_sys z), ls_tok := (ls_tok z)(k := None)\<rparr>"

type_synonym 's lock_call = "ms \<Rightarrow> string \<Rightarrow> string \<Rightarrow> 's \<Rightarrow> bool \<times> 's"

fun leased_act ::
  "'s lock_call \<Rightarrow> 's lock_call \<Rightarrow> 's lock_call \<Rightarrow> config \<Rightarrow> hmac \<Rightarrow> pg_readers \<Rightarrow> ('r, 'q) event \<Rightarrow>
   's lsys \<Rightarrow> 's lsys option"
where
  "leased_act acq rel ext cfg hm pg (Pass_time dt) z =
     (if 0 \<le> dt then Some (z\<lparr>ls_now := ls_now z + dt\<rparr>) else None)"
| "leased_act acq rel ext cfg hm pg (Grab k t i) z =
     (if k < length (sy_slots (ls_sys z)) \<and> ls_tok z k = None then
        (case acq (ls_now z) t i (ls_lock z) of
           (got, s) \<Rightarrow> Some (z\<lparr>ls_lock := s, ls_used := t # ls_used z,
             ls_tok := (if got then (ls_tok z)(k \<mapsto> (t, i)) else ls_tok z)\<rparr>))
      else None)"
| "leased_act acq rel ext cfg hm pg (Heartbeat k) z =
     (case ls_tok z k of
        None \<Rightarrow> None
      | Some (t, i) \<Rightarrow> Some (z\<lparr>ls_lock := snd (ext (ls_now z) i t (ls_lock z))\<rparr>))"
| "leased_act acq rel ext cfg hm pg (Act a) z =
     (if act_allowed (ls_tok z) a then
        map_option (\<lambda>y. z\<lparr>ls_sys := y\<rparr>) (sys_act Unguarded cfg hm pg a (ls_sys z))
      else None)"
| "leased_act acq rel ext cfg hm pg (Let_go k) z =
     (case ls_tok z k of
        None \<Rightarrow> None
      | Some (t, i) \<Rightarrow> Some (leave k (z\<lparr>ls_lock := snd (rel (ls_now z) i t (ls_lock z))\<rparr>)))"
| "leased_act acq rel ext cfg hm pg (Die k) z = Some (leave k z)"

fun leased_run ::
  "'s lock_call \<Rightarrow> 's lock_call \<Rightarrow> 's lock_call \<Rightarrow> config \<Rightarrow> hmac \<Rightarrow> pg_readers \<Rightarrow> ('r, 'q) event list \<Rightarrow>
   's lsys \<Rightarrow> 's lsys option"
where
  "leased_run acq rel ext cfg hm pg [] z = Some z"
| "leased_run acq rel ext cfg hm pg (ev # evs) z =
     (case leased_act acq rel ext cfg hm pg ev z of
        None \<Rightarrow> None | Some z' \<Rightarrow> leased_run acq rel ext cfg hm pg evs z')"

subsection \<open>Timely runs\<close>

definition on_lease :: "('s \<Rightarrow> leases) \<Rightarrow> 's lsys \<Rightarrow> nat \<Rightarrow> bool" where
  "on_lease lo z k =
     (case ls_tok z k of None \<Rightarrow> False
      | Some (t, i) \<Rightarrow> held (lo (ls_lock z)) (ls_now z) i = Some t)"

text \<open>
  What is asked of a run: the random tokens do not repeat; DELIVERING is committed and a success is
  recorded under a lease that still runs; and no final failure is handled for a DELIVERED delivery.
\<close>

fun timely :: "('s \<Rightarrow> leases) \<Rightarrow> config \<Rightarrow> ('r, 'q) event \<Rightarrow> 's lsys \<Rightarrow> bool" where
  "timely lo cfg (Grab k t i) z = (t \<notin> set (ls_used z))"
| "timely lo cfg (Act (Start k fate now)) z = on_lease lo z k"
| "timely lo cfg (Act (Finish k fate now rnd lost res)) z =
     (if ar_outcome (attempt_result_of cfg lost (deliver cfg res)) = SUCCESS then on_lease lo z k else True)"
| "timely lo cfg (Act (Exhausted Q q env job)) z =
     (status_of (sy_db (ls_sys z)) (fj_deliveryId job) \<noteq> Some DELIVERED)"
| "timely lo cfg ev z = True"

fun timely_run ::
  "('s \<Rightarrow> leases) \<Rightarrow> 's lock_call \<Rightarrow> 's lock_call \<Rightarrow> 's lock_call \<Rightarrow> config \<Rightarrow> hmac \<Rightarrow> pg_readers \<Rightarrow>
   ('r, 'q) event list \<Rightarrow> 's lsys \<Rightarrow> bool"
where
  "timely_run lo acq rel ext cfg hm pg [] z = True"
| "timely_run lo acq rel ext cfg hm pg (ev # evs) z =
     (timely lo cfg ev z \<and>
      (case leased_act acq rel ext cfg hm pg ev z of
         None \<Rightarrow> True | Some z' \<Rightarrow> timely_run lo acq rel ext cfg hm pg evs z'))"

subsection \<open>Late writes are fenced off by the attempt number\<close>

text \<open>
  A slot's snapshot is either of a delivery that was not delivered yet, or older than an attempt that
  has been recorded since, so that its own attempt number is taken.
\<close>

fun fenced :: "db \<Rightarrow> worker_slot \<Rightarrow> bool" where
  "fenced s Idle = True"
| "fenced s (Loaded i d) = (delivered_rows s i = 0 \<or> w_attemptCount d < int (length (attempts_of s i)))"
| "fenced s (Sending i d st) = (delivered_rows s i = 0 \<or> w_attemptCount d < int (length (attempts_of s i)))"

lemma fenced_quiet:
  assumes "quiet s s'" and "log_extends s s'" and "fenced s st"
  shows "fenced s' st"
proof -
  have "length (attempts_of s i) \<le> length (attempts_of s' i)" for i
    by (rule prefix_length_le [OF attempts_of_mono [OF assms(2)]])
  then show ?thesis using assms(1,3) by (cases st) (force simp: quiet_def intro: less_le_trans)+
qed

lemma taken_number_rejected:
  assumes inv: "db_inv s" and "1 \<le> ra_attemptNumber input"
    and "ra_attemptNumber input \<le> int (length (attempts_of s (ra_deliveryId input)))"
    and run: "recordAttempt fate now input s = (r, s')"
  shows "s' = s"
proof (cases "find_delivery s (ra_deliveryId input)")
  case None
  then show ?thesis
    using recordAttempt_row [OF run] by auto
next
  case (Some d)
  then have "d_attempt_count d = int (length (attempts_of s (ra_deliveryId input)))"
    using db_inv_row [OF inv Some] by (simp add: row_ok_def)
  then show ?thesis using stale_attempt_rejected [OF inv Some, of fate now] assms(2,3) run by auto
qed

lemma quiet_fenced:
  assumes inv: "db_inv s" and snap: "snap_ok s (Loaded i d)" and fence: "fenced s (Loaded i d)"
    and input: "ra_deliveryId input = i" "ra_attemptNumber input = w_attemptCount d + 1"
      "ra_toStatus input \<noteq> DELIVERED"
    and run: "recordAttempt fate now input s = (r, s')"
  shows "quiet s s'"
proof (cases "delivered_rows s i = 0")
  case True
  then show ?thesis using quiet_record [OF _ input(3) run] input(1) by simp
next
  case False
  then have "s' = s" using taken_number_rejected [OF inv _ _ run] snap fence input by simp
  then show ?thesis by simp
qed

subsection \<open>The invariant\<close>

text \<open>Tokens are drawn once: two runs never have the same one, nor does a lease have a later one.\<close>

definition tokens_ok :: "('s \<Rightarrow> leases) \<Rightarrow> 's lsys \<Rightarrow> bool" where
  "tokens_ok lo z \<longleftrightarrow>
     (\<forall>k t i. ls_tok z k = Some (t, i) \<longrightarrow> t \<in> set (ls_used z)) \<and>
     (\<forall>k k' t i j. ls_tok z k = Some (t, i) \<longrightarrow> ls_tok z k' = Some (t, j) \<longrightarrow> k = k') \<and>
     (\<forall>i t dl. lo (ls_lock z) i = Some (t, dl) \<longrightarrow> t \<in> set (ls_used z))"

definition slot_inv :: "('s \<Rightarrow> leases) \<Rightarrow> 's lsys \<Rightarrow> nat \<Rightarrow> bool" where
  "slot_inv lo z k \<longleftrightarrow> fenced (sy_db (ls_sys z)) (slot (ls_sys z) k) \<and>
     (\<forall>i. slot_on i (slot (ls_sys z) k) \<longrightarrow>
        (\<exists>t. ls_tok z k = Some (t, i)) \<and>
        (on_lease lo z k \<longrightarrow> delivered_rows (sy_db (ls_sys z)) i = 0))"

definition leased_inv :: "('s \<Rightarrow> leases) \<Rightarrow> 's lsys \<Rightarrow> bool" where
  "leased_inv lo z \<longleftrightarrow> sys_inv (ls_sys z) \<and> (\<forall>i. once (sy_db (ls_sys z)) i) \<and> tokens_ok lo z \<and>
     (\<forall>k. slot_inv lo z k)"

lemma on_lease_sys [simp]: "on_lease lo (z\<lparr>ls_sys := y\<rparr>) k = on_lease lo z k"
  by (simp add: on_lease_def split: option.splits)

lemma tokens_ok_sys [simp]: "tokens_ok lo (z\<lparr>ls_sys := y\<rparr>) = tokens_ok lo z"
  by (simp add: tokens_ok_def)

lemma on_lease_unique:
  assumes "tokens_ok lo z" and "on_lease lo z k" and "on_lease lo z k'"
    and "ls_tok z k = Some (t, i)" and "ls_tok z k' = Some (t', i)"
  shows "k = k'"
proof -
  have "t = t'" using assms(2-5) by (simp add: on_lease_def)
  then show ?thesis using assms(1,4,5) unfolding tokens_ok_def by metis
qed

lemma sys_act_grows:
  assumes y: "sys_inv y" and act: "sys_act mode cfg hm pg a y = Some y'"
  shows "log_extends (sy_db y) (sy_db y')"
proof -
  have inv: "db_inv (sy_db y)" using y by (simp add: sys_inv_def)
  note grow = ingest_writer.grows [where a = "(_, _, _, _, _, _, _)", simplified, OF inv]
    enqueue_writer.grows [where a = "(_, _, _, _, _)", simplified, OF inv]
    tick_writer.grows [where a = "(_, _, _, _)", simplified, OF inv]
    retry_writer.grows [where a = "(_, _, _, _)", simplified, OF inv]
    failed_writer.grows [where a = "(_, _, _, _, _)", simplified, OF inv]
    create_writer.grows [where a = "(_, _, _, _, _, _, _)", simplified, OF inv]
    patch_writer.grows [where a = "(_, _, _, _, _)", simplified, OF inv]
  have rec: "log_extends (sy_db y) (snd (recordAttempt fate now input (sy_db y)))" for fate now input
    by (rule recordAttempt_extends [OF prod.collapse [symmetric]])
  have tr: "log_extends (sy_db y) s'"
    if "transition fate now i from_st DELIVERING Worker reason (sy_db y) = (r, s')" for fate now i from_st reason r s'
    using transition_inv [OF inv _ that] by simp
  show ?thesis
    using act grow rec
    by (cases a) (auto split: if_splits option.splits worker_slot.splits prod.splits sum.splits dest: tr)
qed

text \<open>A step of the system that adds no DELIVERED, and whose new snapshots are of undelivered deliveries.\<close>

lemma leased_quiet:
  assumes z: "leased_inv lo z" and inv: "sys_inv y'"
    and grows: "log_extends (sy_db (ls_sys z)) (sy_db y')" and q: "quiet (sy_db (ls_sys z)) (sy_db y')"
    and slots: "\<And>k. slot y' k = slot (ls_sys z) k \<or> slot y' k = Idle \<or>
      (\<exists>t i. ls_tok z k = Some (t, i) \<and> slot_on i (slot y' k) \<and> delivered_rows (sy_db y') i = 0)"
  shows "leased_inv lo (z\<lparr>ls_sys := y'\<rparr>)"
proof -
  have once: "once (sy_db y') i" for i using z once_quiet [OF q] by (simp add: leased_inv_def)
  have same: "delivered_rows (sy_db y') i = delivered_rows (sy_db (ls_sys z)) i" for i
    using q by (simp add: quiet_def)
  have "slot_inv lo (z\<lparr>ls_sys := y'\<rparr>) k" for k
  proof -
    have old: "slot_inv lo z k" using z by (simp add: leased_inv_def)
    consider "slot y' k = slot (ls_sys z) k" | "slot y' k = Idle"
      | t i where "ls_tok z k = Some (t, i)" "slot_on i (slot y' k)" "delivered_rows (sy_db y') i = 0"
      using slots [of k] by blast
    then show ?thesis
    proof cases
      case 1
      then show ?thesis
        using old fenced_quiet [OF q grows] same by (simp add: slot_inv_def)
    next
      case 2
      then show ?thesis by (simp add: slot_inv_def)
    next
      case (3 t i)
      then show ?thesis by (cases "slot y' k") (auto simp: slot_inv_def)
    qed
  qed
  then show ?thesis using inv once z by (simp add: leased_inv_def)
qed

text \<open>The step that delivers, under a lease: the others on the delivery are late and now fenced off.\<close>

lemma attempts_of_record:
  assumes "recordAttempt fate now input s = (r, s')" and "s' \<noteq> s"
  shows "length (attempts_of s' (ra_deliveryId input)) = Suc (length (attempts_of s (ra_deliveryId input)))"
  using recordAttempt_row [OF assms] by (auto simp: attempts_of_def attempt_row_of_def)

lemma fenced_record:
  assumes run: "recordAttempt fate now input s = (r, s')" and zero: "delivered_rows s (ra_deliveryId input) = 0"
    and "snap_ok s st" and "fenced s st"
  shows "fenced s' st"
proof (cases "s' = s")
  case False
  let ?i = "ra_deliveryId input"
  have len: "length (attempts_of s j) \<le> length (attempts_of s' j)" for j
    by (rule prefix_length_le [OF attempts_of_mono [OF recordAttempt_extends [OF run]]])
  have own: "w \<le> int (length (attempts_of s ?i)) \<Longrightarrow> w < int (length (attempts_of s' ?i))" for w
    using attempts_of_record [OF run False] by simp
  have other: "delivered_rows s' j = delivered_rows s j" if "j \<noteq> ?i" for j
    using record_effect(2) [OF run refl zero that] by simp
  have "delivered_rows s' j = 0 \<or> w < int (length (attempts_of s' j))"
    if "w \<le> int (length (attempts_of s j))" "delivered_rows s j = 0 \<or> w < int (length (attempts_of s j))" for j w
    using that own [of w] other [of j] len [of j] by (cases "j = ?i") auto
  then show ?thesis using assms(3,4) by (cases st) auto
qed (use assms in simp)

lemma leased_deliver:
  assumes z: "leased_inv lo z" and slot: "slot (ls_sys z) k = Sending i d st" and lease: "on_lease lo z k"
    and run: "recordAttempt fate now input (sy_db (ls_sys z)) = (r, s')" and i: "ra_deliveryId input = i"
    and inv: "sys_inv (set_slot k Idle (set_db s' (ls_sys z)))"
  shows "leased_inv lo (z\<lparr>ls_sys := set_slot k Idle (set_db s' (ls_sys z))\<rparr>)"
proof -
  let ?y = "ls_sys z"
  have tok: "tokens_ok lo z" and slots: "slot_inv lo z k'" and snap: "snap_ok (sy_db ?y) (slot ?y k')" for k'
    using z slot_ok by (auto simp: leased_inv_def)
  obtain t where t: "ls_tok z k = Some (t, i)" and zero: "delivered_rows (sy_db ?y) i = 0"
    using slots [of k] slot lease by (auto simp: slot_inv_def)
  note effect = record_effect [OF run i zero]
  have "once s' j" for j
    using effect z by (cases "j = i") (auto simp: once_def leased_inv_def)
  moreover have "slot_inv lo (z\<lparr>ls_sys := set_slot k Idle (set_db s' ?y)\<rparr>) k'" for k'
  proof (cases "k' = k")
    case True
    then show ?thesis using slot_member [of ?y k] slot by (simp add: slot_inv_def slot_def)
  next
    case False
    then have same: "slot (set_slot k Idle (set_db s' ?y)) k' = slot ?y k'" by (simp add: slot_def)
    have "fenced s' (slot ?y k')"
      using fenced_record [OF run] i zero slots [of k'] snap [of k'] by (simp add: slot_inv_def)
    moreover have "delivered_rows s' j = 0" if on: "slot_on j (slot ?y k')" and live: "on_lease lo z k'" for j
    proof -
      obtain t' where t': "ls_tok z k' = Some (t', j)" "delivered_rows (sy_db ?y) j = 0"
        using slots [of k'] on live by (auto simp: slot_inv_def)
      then have "j \<noteq> i" using on_lease_unique [OF tok lease live t] False by auto
      then show ?thesis using effect(2) t'(2) by simp
    qed
    ultimately show ?thesis using slots [of k'] same by (auto simp: slot_inv_def)
  qed
  ultimately show ?thesis using inv tok by (simp add: leased_inv_def)
qed

lemma leased_zero:
  assumes "leased_inv lo z" and "status_of (sy_db (ls_sys z)) i \<noteq> Some DELIVERED"
  shows "delivered_rows (sy_db (ls_sys z)) i = 0"
  using assms by (auto simp: leased_inv_def once_def)

lemma slot_set_slot_cases: "slot (set_slot k st y) k' = slot y k' \<or> k' = k \<and> slot (set_slot k st y) k' = st"
  by (cases "k' = k") (auto simp: slot_def)

text \<open>The actions of the system, one group after the other.\<close>

lemma leased_pickup:
  assumes z: "leased_inv lo z" and tok: "ls_tok z k = Some (t, i)"
    and act: "sys_act Unguarded cfg hm pg (Pickup k i) (ls_sys z) = Some y'"
  shows "leased_inv lo (z\<lparr>ls_sys := y'\<rparr>)"
proof -
  have y: "sys_inv (ls_sys z)" using z by (simp add: leased_inv_def)
  obtain d where d: "getForDelivery (sy_db (ls_sys z)) i = Some d" "w_status d \<noteq> DELIVERED"
      "y' = set_slot k (Loaded i d) (ls_sys z)"
    using act by (auto split: if_splits option.splits)
  then have "delivered_rows (sy_db (ls_sys z)) i = 0"
    using leased_zero [OF z] getForDelivery_row [OF d(1)] by (auto simp: status_of_def)
  then show ?thesis
    using tok d(3) slot_set_slot_cases [of k "Loaded i d" "ls_sys z"]
    by (intro leased_quiet [OF z sys_act_inv [OF y act]]) force+
qed

lemma leased_start:
  assumes z: "leased_inv lo z" and lease: "on_lease lo z k"
    and act: "sys_act Unguarded cfg hm pg (Start k fate now) (ls_sys z) = Some y'"
  shows "leased_inv lo (z\<lparr>ls_sys := y'\<rparr>)"
proof -
  let ?y = "ls_sys z"
  have y: "sys_inv ?y" and k: "slot_inv lo z k" using z by (simp_all add: leased_inv_def)
  obtain i d where slot: "slot ?y k = Loaded i d" using act by (auto split: worker_slot.splits)
  then obtain t where t: "ls_tok z k = Some (t, i)" and zero: "delivered_rows (sy_db ?y) i = 0"
    using k lease by (auto simp: slot_inv_def)
  obtain r s' where run: "transition fate now i (w_status d) DELIVERING Worker
      (''attempt_'' @ string_of_int (w_attemptCount d + 1)) (sy_db ?y) = (r, s')" by (metis prod.exhaust)
  have q: "quiet (sy_db ?y) s'" using quiet_transition [OF zero _ run] by simp
  then have zero': "delivered_rows s' i = 0" using zero by (simp add: quiet_def)
  obtain st reqs where y': "y' = set_slot k st (set_db s' (?y\<lparr>sy_sent := reqs\<rparr>))"
      and st: "st = Idle \<or> (\<exists>n. st = Sending i d n)"
  proof (cases r)
    case (Inl e)
    then show ?thesis using that [of Idle "sy_sent ?y"] act slot run by simp
  next
    case (Inr u)
    then show ?thesis using that act slot run by auto
  qed
  show ?thesis
  proof (rule leased_quiet [OF z sys_act_inv [OF y act] sys_act_grows [OF y act]])
    show "quiet (sy_db ?y) (sy_db y')" using q y' by simp
    show "slot y' k' = slot ?y k' \<or> slot y' k' = Idle \<or>
      (\<exists>t i. ls_tok z k' = Some (t, i) \<and> slot_on i (slot y' k') \<and> delivered_rows (sy_db y') i = 0)" for k'
      using slot_set_slot_cases [of k st "set_db s' (?y\<lparr>sy_sent := reqs\<rparr>)" k'] y' st t zero' by auto
  qed
qed

text \<open>Writes that are not a success may come at any time.\<close>

lemma leased_failed_attempt:
  assumes z: "leased_inv lo z" and act: "sys_act Unguarded cfg hm pg a (ls_sys z) = Some y'"
    and slot: "slot (ls_sys z) k = Loaded i d \<or> slot (ls_sys z) k = Sending i d st"
    and y': "y' = set_slot k Idle (set_db (snd (recordAttempt fate now input (sy_db (ls_sys z)))) (ls_sys z))"
    and input: "ra_deliveryId input = i" "ra_attemptNumber input = w_attemptCount d + 1"
      "ra_toStatus input \<noteq> DELIVERED"
  shows "leased_inv lo (z\<lparr>ls_sys := y'\<rparr>)"
proof -
  let ?y = "ls_sys z"
  have y: "sys_inv ?y" and inv: "db_inv (sy_db ?y)" and k: "slot_inv lo z k"
    using z by (simp_all add: leased_inv_def sys_inv_def)
  have "snap_ok (sy_db ?y) (Loaded i d)" "fenced (sy_db ?y) (Loaded i d)"
    using slot_ok [OF y, of k] k slot by (auto simp: slot_inv_def)
  then have "quiet (sy_db ?y) (snd (recordAttempt fate now input (sy_db ?y)))"
    using quiet_fenced [OF inv _ _ input prod.collapse [symmetric]] by blast
  then show ?thesis
    using y' slot_set_slot_cases [of k Idle "set_db (sy_db y') ?y"]
    by (intro leased_quiet [OF z sys_act_inv [OF y act] sys_act_grows [OF y act]]) force+
qed

lemma leased_finish:
  assumes z: "leased_inv lo z" and act: "sys_act Unguarded cfg hm pg (Finish k fate now rnd lost res) (ls_sys z) = Some y'"
    and time: "timely lo cfg (Act (Finish k fate now rnd lost res) :: ('r, 'q) event) z"
  shows "leased_inv lo (z\<lparr>ls_sys := y'\<rparr>)"
proof -
  have y: "sys_inv (ls_sys z)" using z by (simp add: leased_inv_def)
  let ?ar = "attempt_result_of cfg lost (deliver cfg res)"
  obtain i d st where slot: "slot (ls_sys z) k = Sending i d st" using act by (auto split: worker_slot.splits)
  let ?in = "attempt_input cfg rnd i (w_attemptCount d + 1) st (date_of_ts now) ?ar"
  have y': "y' = set_slot k Idle (set_db (snd (recordAttempt fate now ?in (sy_db (ls_sys z)))) (ls_sys z))"
    using act slot by simp
  show ?thesis
  proof (cases "ar_outcome ?ar = SUCCESS")
    case True
    then have "on_lease lo z k" using time by simp
    then show ?thesis
      using leased_deliver [OF z slot _ prod.collapse [symmetric],
          where fate = fate and now = now and input = ?in] sys_act_inv [OF y act] y'
      by (simp add: attempt_input_def)
  next
    case False
    then show ?thesis
      using leased_failed_attempt [OF z act _ y'] slot by (simp add: attempt_input_def)
  qed
qed

lemma leased_action:
  fixes a :: "('r, 'q) action"
  assumes z: "leased_inv lo z" and act: "sys_act Unguarded cfg hm pg a (ls_sys z) = Some y'"
    and ok: "act_allowed (ls_tok z) a" and time: "timely lo cfg (Act a) z"
  shows "leased_inv lo (z\<lparr>ls_sys := y'\<rparr>)"
proof -
  let ?y = "ls_sys z"
  have y: "sys_inv ?y" and inv: "db_inv (sy_db ?y)" using z by (simp_all add: leased_inv_def sys_inv_def)
  note quiet_step = leased_quiet [OF z sys_act_inv [OF y act] sys_act_grows [OF y act]]
  show ?thesis
  proof (cases a)
    case (Pickup k i)
    then obtain t where "ls_tok z k = Some (t, i)" using ok by (auto split: option.splits)
    then show ?thesis using leased_pickup [OF z] act Pickup by blast
  next
    case (Circuit k fate now rnd)
    then obtain i d where slot: "slot ?y k = Loaded i d" using act by (auto split: worker_slot.splits)
    let ?in = "circuit_open_input cfg rnd i (w_attemptCount d + 1) (date_of_ts now) (w_status d)"
    have "y' = set_slot k Idle (set_db (snd (recordAttempt fate now ?in (sy_db ?y))) ?y)"
      using act Circuit slot by simp
    from leased_failed_attempt [OF z act _ this] slot show ?thesis by (simp add: circuit_open_input_def)
  next
    case (Start k fate now)
    then show ?thesis using leased_start [OF z] act time by simp
  next
    case (Finish k fate now rnd lost res)
    then show ?thesis using leased_finish [OF z] act time by blast
  next
    case (Exhausted Q q env job)
    then have "delivered_rows (sy_db ?y) (fj_deliveryId job) = 0" using leased_zero [OF z] time by simp
    then show ?thesis
      using act Exhausted quiet_failed [of "Some job" "\<lparr>dw_db = sy_db ?y, dw_queue = q, dw_log = [], dw_posts = []\<rparr>"]
      by (intro quiet_step) (auto simp: handled_def split: if_splits)
  next
    case (Retry fate now raw)
    have "quiet (sy_db ?y) (snd (retryFromDlq (uuid_in pg) fate now raw (sy_db ?y)))"
      by (rule quiet_retry) (simp add: leased_zero [OF z])
    then show ?thesis using act Retry by (intro quiet_step) auto
  qed (rule quiet_step; use act ok inv in \<open>auto intro!: quiet_ingest quiet_enqueue quiet_tick
      quiet_post_endpoints quiet_patch_endpoint\<close>)+
qed

subsection \<open>The lock's part\<close>

text \<open>
  Steps of the lock and of the clock: nobody gets a lease back, and what is left of the system is as it
  was, except for a slot that is left.
\<close>

lemma leased_lock_step:
  assumes z: "leased_inv lo z" and tok: "tokens_ok lo z'"
    and sys: "ls_sys z' = ls_sys z \<or> ls_sys z' = set_slot k0 Idle (ls_sys z)"
    and keep: "\<And>k i. slot_on i (slot (ls_sys z') k) \<Longrightarrow> ls_tok z' k = ls_tok z k"
    and live: "\<And>k. ls_tok z' k = ls_tok z k \<Longrightarrow> on_lease lo z' k \<Longrightarrow> on_lease lo z k"
  shows "leased_inv lo z'"
proof -
  have db: "sy_db (ls_sys z') = sy_db (ls_sys z)" using sys by auto
  have y: "sys_inv (ls_sys z')" using z sys sys_inv_slot [of "ls_sys z" Idle k0] by (auto simp: leased_inv_def)
  have "slot_inv lo z' k" for k
  proof -
    have old: "slot_inv lo z k" using z by (simp add: leased_inv_def)
    have "slot (ls_sys z') k = slot (ls_sys z) k \<or> slot (ls_sys z') k = Idle"
      using sys slot_set_slot_cases [of k0 Idle "ls_sys z" k] by auto
    then show ?thesis
    proof
      assume same: "slot (ls_sys z') k = slot (ls_sys z) k"
      have "(\<exists>t. ls_tok z' k = Some (t, i)) \<and> (on_lease lo z' k \<longrightarrow> delivered_rows (sy_db (ls_sys z)) i = 0)"
        if "slot_on i (slot (ls_sys z) k)" for i
        using that old keep [of i k] live [of k] same by (auto simp: slot_inv_def)
      then show ?thesis using old same db by (simp add: slot_inv_def)
    qed (simp add: slot_inv_def)
  qed
  then show ?thesis using z y tok db by (simp add: leased_inv_def)
qed

lemma leased_init_inv:
  assumes "lo s = Map.empty"
  shows "leased_inv lo (leased_init n now s)"
proof -
  have "sys_inv (sys_init n)" by (rule reachable_inv) (rule reachable.init)
  moreover have "slot (sys_init n) k = Idle" for k by (simp add: slot_def sys_init_def)
  ultimately show ?thesis
    using assms by (auto simp: leased_inv_def leased_init_def tokens_ok_def slot_inv_def once_def
        sys_init_def delivered_rows_def transitions_of_def empty_db_def)
qed

lemma held_earlier: "held l now' i = Some t \<Longrightarrow> now \<le> now' \<Longrightarrow> held l now i = Some t"
  by (auto simp: held_def split: option.splits if_splits)

lemma slot_leave: "slot (ls_sys (leave k z)) k = Idle"
  by (simp add: leave_def slot_def)

lemma leased_leave:
  assumes z: "leased_inv lo z" and lock: "lo s = lo (ls_lock z) \<or> lo s = (lo (ls_lock z))(i := None)"
  shows "leased_inv lo (leave k (z\<lparr>ls_lock := s\<rparr>))"
proof (rule leased_lock_step [OF z])
  show "tokens_ok lo (leave k (z\<lparr>ls_lock := s\<rparr>))"
    using z lock by (auto simp: leased_inv_def tokens_ok_def leave_def split: if_splits) blast+
  show "ls_sys (leave k (z\<lparr>ls_lock := s\<rparr>)) = ls_sys z \<or>
      ls_sys (leave k (z\<lparr>ls_lock := s\<rparr>)) = set_slot k Idle (ls_sys z)"
    by (simp add: leave_def)
  show "ls_tok (leave k (z\<lparr>ls_lock := s\<rparr>)) k' = ls_tok z k'"
    if "slot_on j (slot (ls_sys (leave k (z\<lparr>ls_lock := s\<rparr>))) k')" for k' j
    using that slot_leave [of k "z\<lparr>ls_lock := s\<rparr>"] by (cases "k' = k") (auto simp: leave_def)
  show "on_lease lo z k'"
    if "on_lease lo (leave k (z\<lparr>ls_lock := s\<rparr>)) k'" for k'
    using that lock by (auto simp: on_lease_def leave_def held_del split: option.splits if_splits)
qed

definition over_leases :: "('s \<Rightarrow> leases) \<Rightarrow> 's lsys \<Rightarrow> leases lsys" where
  "over_leases lo z = \<lparr>ls_sys = ls_sys z, ls_lock = lo (ls_lock z), ls_tok = ls_tok z, ls_used = ls_used z,
     ls_now = ls_now z\<rparr>"

lemma over_leases_simps [simp]:
  "ls_sys (over_leases lo z) = ls_sys z" "ls_lock (over_leases lo z) = lo (ls_lock z)"
  "ls_tok (over_leases lo z) = ls_tok z" "ls_used (over_leases lo z) = ls_used z"
  by (simp_all add: over_leases_def)

lemma timely_over_leases: "timely (\<lambda>l. l) cfg ev (over_leases lo z) = timely lo cfg ev z"
proof -
  have "on_lease (\<lambda>l. l) (over_leases lo z) k = on_lease lo z k" for k
    by (simp add: on_lease_def over_leases_def split: option.split)
  then show ?thesis by (induction lo cfg ev z rule: timely.induct) simp_all
qed

context lease_lock
begin

lemma grab_inv:
  assumes z: "leased_inv leases_of z" and ok: "ok (ls_lock z)" and free: "ls_tok z k = None"
    and fresh: "t \<notin> set (ls_used z)" and acq: "acq (ls_now z) t i (ls_lock z) = (got, s)"
    and z': "z' = z\<lparr>ls_lock := s, ls_used := t # ls_used z,
      ls_tok := (if got then (ls_tok z)(k \<mapsto> (t, i)) else ls_tok z)\<rparr>"
  shows "leased_inv leases_of z'"
proof (rule leased_lock_step [OF z])
  have tok: "tokens_ok leases_of z" and slots: "slot_inv leases_of z k'" for k'
    using z by (simp_all add: leased_inv_def)
  have used: "t' \<noteq> t" if "ls_tok z k' = Some (t', j)" for k' t' j using tok fresh that by (auto simp: tokens_ok_def)
  have ls: "leases_of s = (if got then (leases_of (ls_lock z))(i \<mapsto> (t, ls_now z + ttl)) else leases_of (ls_lock z))"
    using acq_refines [OF ok acq] by (auto simp: lease_acquire_def split: if_splits)
  show "tokens_ok leases_of z'"
    using tok ls used unfolding tokens_ok_def z' by (auto split: if_splits)
  show "ls_tok z' k' = ls_tok z k'" if "slot_on j (slot (ls_sys z') k')" for k' j
    using that slots [of k'] free z' by (cases "k' = k") (auto simp: slot_inv_def)
  show "on_lease leases_of z k'" if "ls_tok z' k' = ls_tok z k'" "on_lease leases_of z' k'" for k'
    using that ls used [of k'] free z'
    by (cases "k' = k") (auto simp: on_lease_def held_upd split: option.splits if_splits)
qed (simp add: z')

lemma heartbeat_inv:
  assumes z: "leased_inv leases_of z" and ok: "ok (ls_lock z)" and t: "ls_tok z k = Some (t, i)"
    and ext: "ext (ls_now z) i t (ls_lock z) = (b, s)"
  shows "leased_inv leases_of (z\<lparr>ls_lock := s\<rparr>)"
proof (rule leased_lock_step [OF z])
  have tok: "tokens_ok leases_of z" using z by (simp add: leased_inv_def)
  have ls: "leases_of s = (if held (leases_of (ls_lock z)) (ls_now z) i = Some t
      then (leases_of (ls_lock z))(i \<mapsto> (t, ls_now z + ttl)) else leases_of (ls_lock z))"
    using ext_refines [OF ok ext] by (auto simp: lease_extend_def split: if_splits)
  show "tokens_ok leases_of (z\<lparr>ls_lock := s\<rparr>)"
    using tok ls t unfolding tokens_ok_def by (auto split: if_splits)
  show "on_lease leases_of z k'" if "on_lease leases_of (z\<lparr>ls_lock := s\<rparr>) k'" for k'
    using that ls by (auto simp: on_lease_def held_upd split: option.splits if_splits)
qed simp_all

lemma pass_time_inv:
  assumes z: "leased_inv leases_of z" and "0 \<le> dt"
  shows "leased_inv leases_of (z\<lparr>ls_now := ls_now z + dt\<rparr>)"
proof (rule leased_lock_step [OF z])
  show "tokens_ok leases_of (z\<lparr>ls_now := ls_now z + dt\<rparr>)"
    using z by (simp add: leased_inv_def tokens_ok_def)
  show "on_lease leases_of z k" if "on_lease leases_of (z\<lparr>ls_now := ls_now z + dt\<rparr>) k" for k
    using that assms(2) by (auto simp: on_lease_def intro: held_earlier split: option.splits)
qed simp_all

lemma leased_act_inv:
  assumes z: "leased_inv leases_of z" and ok: "ok (ls_lock z)"
    and act: "leased_act acq rel ext cfg hm pg ev z = Some z'" and time: "timely leases_of cfg ev z"
  shows "leased_inv leases_of z' \<and> ok (ls_lock z')"
proof (cases ev)
  case (Pass_time dt)
  then show ?thesis using act ok pass_time_inv [OF z] by (auto split: if_splits)
next
  case (Grab k t i)
  obtain got s where acq: "acq (ls_now z) t i (ls_lock z) = (got, s)" by fastforce
  then show ?thesis
    using Grab act time ok grab_inv [OF z ok _ _ acq refl] acq_refines [OF ok acq] by (auto split: if_splits)
next
  case (Heartbeat k)
  then obtain t i where t: "ls_tok z k = Some (t, i)" using act by (auto split: option.splits)
  obtain b s where ext: "ext (ls_now z) i t (ls_lock z) = (b, s)" by fastforce
  show ?thesis using Heartbeat act t ext heartbeat_inv [OF z ok t ext] ext_refines [OF ok ext] by auto
next
  case (Act a)
  then show ?thesis using act time ok leased_action [OF z] by (auto split: if_splits)
next
  case (Let_go k)
  then obtain t i where t: "ls_tok z k = Some (t, i)" using act by (auto split: option.splits)
  obtain b s where rel: "rel (ls_now z) i t (ls_lock z) = (b, s)" by fastforce
  have "leases_of s = leases_of (ls_lock z) \<or> leases_of s = (leases_of (ls_lock z))(i := None)"
    using rel_refines [OF ok rel] by (auto simp: lease_release_def split: if_splits)
  then show ?thesis
    using Let_go act t rel leased_leave [OF z, of s i k] rel_refines [OF ok rel] by (auto simp: leave_def)
next
  case (Die k)
  then show ?thesis using act ok leased_leave [OF z, of "ls_lock z" "[]" k] by (auto simp: leave_def)
qed

lemma leased_run_inv:
  assumes "leased_inv leases_of z" and "ok (ls_lock z)"
    and "leased_run acq rel ext cfg hm pg evs z = Some z'"
    and "timely_run leases_of acq rel ext cfg hm pg evs z"
  shows "leased_inv leases_of z'"
  using assms
proof (induction evs arbitrary: z)
  case (Cons ev evs)
  then obtain z1 where "leased_act acq rel ext cfg hm pg ev z = Some z1" by (auto split: option.splits)
  then show ?case using Cons.IH [of z1] Cons.prems leased_act_inv [OF Cons.prems(1,2), of cfg hm pg ev z1] by simp
qed simp

text \<open>
  The system over a provider of locks refines the system over the table of leases: the same events are
  possible and timely, with the same effect.
\<close>

lemma leased_act_refines:
  assumes ok: "ok (ls_lock z)"
  shows "leased_act (lease_acquire ttl) lease_release (lease_extend ttl) cfg hm pg ev (over_leases leases_of z) =
    map_option (over_leases leases_of) (leased_act acq rel ext cfg hm pg ev z)"
    and "leased_act acq rel ext cfg hm pg ev z = Some z' \<Longrightarrow> ok (ls_lock z')"
proof -
  have a: "lease_acquire ttl now t i (leases_of (ls_lock z)) =
        (fst (acq now t i (ls_lock z)), leases_of (snd (acq now t i (ls_lock z))))" "ok (snd (acq now t i (ls_lock z)))" for now t i
    using acq_refines [OF ok, of now t i] by (metis prod.collapse)+
  have r: "snd (lease_release now i t (leases_of (ls_lock z))) = leases_of (snd (rel now i t (ls_lock z)))"
      "ok (snd (rel now i t (ls_lock z)))" for now t i
    using rel_refines [OF ok, of now i t] by (metis prod.collapse snd_conv)+
  have e: "snd (lease_extend ttl now i t (leases_of (ls_lock z))) = leases_of (snd (ext now i t (ls_lock z)))"
      "ok (snd (ext now i t (ls_lock z)))" for now t i
    using ext_refines [OF ok, of now i t] by (metis prod.collapse snd_conv)+
  show "leased_act (lease_acquire ttl) lease_release (lease_extend ttl) cfg hm pg ev (over_leases leases_of z) =
      map_option (over_leases leases_of) (leased_act acq rel ext cfg hm pg ev z)"
    by (cases ev) (simp_all add: over_leases_def leave_def a r e split_beta option.map_comp o_def split: option.split)
  show "leased_act acq rel ext cfg hm pg ev z = Some z' \<Longrightarrow> ok (ls_lock z')"
    using ok a(2) r(2) e(2) by (cases ev) (auto simp: leave_def split_beta split: if_splits option.splits)
qed

lemma leased_run_refines:
  assumes "ok (ls_lock z)"
  shows "leased_run (lease_acquire ttl) lease_release (lease_extend ttl) cfg hm pg evs (over_leases leases_of z) =
    map_option (over_leases leases_of) (leased_run acq rel ext cfg hm pg evs z)"
  using assms
proof (induction evs arbitrary: z)
  case (Cons ev evs)
  then show ?case
    using leased_act_refines [OF Cons.prems, of cfg hm pg ev]
    by (cases "leased_act acq rel ext cfg hm pg ev z") (simp_all)
qed simp

lemma timely_run_refines:
  assumes "ok (ls_lock z)"
  shows "timely_run (\<lambda>l. l) (lease_acquire ttl) lease_release (lease_extend ttl) cfg hm pg evs (over_leases leases_of z) =
    timely_run leases_of acq rel ext cfg hm pg evs z"
  using assms
proof (induction evs arbitrary: z)
  case (Cons ev evs)
  then show ?case
    using leased_act_refines [OF Cons.prems, of cfg hm pg ev]
    by (cases "leased_act acq rel ext cfg hm pg ev z") (simp_all add: timely_over_leases)
qed simp

end

lemma leased_once:
  fixes R :: "'r redis_api" and c :: "'r client"
  assumes R: "redis_service R ks scripts sha1" and c: "client_ready sha1 c" "lock_keys_ok (ks (conn c))"
    and free: "leases_in (ks (conn c)) = Map.empty"
    and run: "leased_run (acquire_op R cfg) (release_op R) (extend_op R cfg) cfg hm pg evs (leased_init n now c) = Some z"
    and time: "timely_run (\<lambda>c. leases_in (ks (conn c))) (acquire_op R cfg) (release_op R) (extend_op R cfg)
      cfg hm pg evs (leased_init n now c)"
  shows "once (sy_db (ls_sys z)) i"
proof -
  let ?lo = "\<lambda>c. leases_in (ks (conn c))"
  have "leased_inv ?lo (leased_init n now c)" by (rule leased_init_inv [of ?lo]) (rule free)
  then have "leased_inv ?lo z"
    using lease_lock.leased_run_inv [OF redis_service.lock_provides_leases [OF R] _ _ run time] c
    by (simp add: leased_init_def)
  then show ?thesis by (simp add: leased_inv_def)
qed

subsection \<open>Two runs of the model\<close>

type_synonym ev = "(mem_state, mem_queue_state) event"

text \<open>
  The first worker's lease runs out while its request is under way, a second one takes over and
  delivers, and the first one, told by its heartbeat that the lock is lost, records its failure late:
  a timely run.
\<close>

definition demo_events :: "ev list" where
  "demo_events =
     [Act (Create_endpoint demo_schema Tx_ok 0 ''p1'' [] JNull),
      Act (Accept mem_redis mem_empty 1000 demo_ingest_env demo_params)]"

definition takeover_events :: "ev list" where
  "takeover_events = demo_events @
     [Grab 0 ''a'' ''d1'', Grab 1 ''b'' ''d1'', Act (Pickup 0 ''d1''), Act (Start 0 Tx_ok 2000),
      Pass_time 60000, Grab 1 ''c'' ''d1'', Act (Pickup 1 ''d1''), Act (Start 1 Tx_ok 62000), Heartbeat 0,
      Act (Finish 1 Tx_ok 63000 0 False (Response 200 ''ok'')), Let_go 1,
      Act (Finish 0 Tx_ok 64000 0 True (Response 200 ''ok'')), Let_go 0]"

text \<open>
  A worker that stalls for longer than the lease between its read and its transition is not timely: it
  reopens the delivery that a second worker has delivered meanwhile, and the retry delivers it again.
\<close>

definition stalled_events :: "ev list" where
  "stalled_events = demo_events @
     [Grab 0 ''a'' ''d1'', Act (Pickup 0 ''d1''), Pass_time 60000,
      Grab 1 ''b'' ''d1'', Act (Pickup 1 ''d1''), Act (Start 1 Tx_ok 62000),
      Act (Finish 1 Tx_ok 63000 0 False (Response 200 ''ok'')), Let_go 1,
      Act (Start 0 Tx_ok 64000), Die 0,
      Grab 0 ''c'' ''d1'', Act (Pickup 0 ''d1''), Act (Start 0 Tx_ok 65000),
      Act (Finish 0 Tx_ok 66000 0 False (Response 200 ''ok'')), Let_go 0]"

abbreviation mem_leased_run :: "ev list \<Rightarrow> mem_state client lsys option" where
  "mem_leased_run evs \<equiv> leased_run (acquire_op mem_redis default_config) (release_op mem_redis)
     (extend_op mem_redis default_config) default_config (\<lambda>_ _. []) demo_pg evs (leased_init 2 0 mem_client)"

abbreviation mem_timely_run :: "ev list \<Rightarrow> bool" where
  "mem_timely_run evs \<equiv> timely_run (\<lambda>c. leases_in (mem_ks (conn c))) (acquire_op mem_redis default_config)
     (release_op mem_redis) (extend_op mem_redis default_config) default_config (\<lambda>_ _. []) demo_pg evs
     (leased_init 2 0 mem_client)"

definition table_run :: "ev list \<Rightarrow> leases lsys option" where
  "table_run evs = leased_run (lease_acquire (LOCK_TTL_MS default_config)) lease_release
     (lease_extend (LOCK_TTL_MS default_config)) default_config (\<lambda>_ _. []) demo_pg evs (leased_init 2 0 Map.empty)"

definition table_timely :: "ev list \<Rightarrow> bool" where
  "table_timely evs = timely_run (\<lambda>l. l) (lease_acquire (LOCK_TTL_MS default_config)) lease_release
     (lease_extend (LOCK_TTL_MS default_config)) default_config (\<lambda>_ _. []) demo_pg evs (leased_init 2 0 Map.empty)"

lemma mem_no_leases: "leases_in (mem_ks (conn mem_client)) = Map.empty"
  by (simp add: leases_in_def [abs_def] mem_client_def mem_empty_def)

lemma mem_over_leases:
  "over_leases (\<lambda>c. leases_in (mem_ks (conn c))) (leased_init n now mem_client) = leased_init n now Map.empty"
  by (simp add: over_leases_def leased_init_def mem_no_leases)

lemma mem_leased_ready: "client_ready mem_sha1 (ls_lock (leased_init n now mem_client)) \<and>
    lock_keys_ok (mem_ks (conn (ls_lock (leased_init n now mem_client))))"
  by (simp add: leased_init_def demo_lock_ready)

lemma mem_table_run:
  "table_run evs = map_option (over_leases (\<lambda>c. leases_in (mem_ks (conn c)))) (mem_leased_run evs)"
  using mem.lease.leased_run_refines [OF mem_leased_ready] by (simp add: table_run_def mem_over_leases)

lemma mem_table_timely: "table_timely evs = mem_timely_run evs"
  using mem.lease.timely_run_refines [OF mem_leased_ready] by (simp add: table_timely_def mem_over_leases)

lemma takeover_table:
  "(case table_run takeover_events of None \<Rightarrow> False | Some z \<Rightarrow> delivered_rows (sy_db (ls_sys z)) ''d1'' = 1)"
  by code_simp

lemma takeover_timely: "table_timely takeover_events"
  by code_simp

lemma stalled_not_timely: "\<not> table_timely stalled_events"
  by code_simp

lemma stalled_table:
  "(case table_run stalled_events of None \<Rightarrow> False | Some z \<Rightarrow> audit_I1 (sy_db (ls_sys z)) = [''d1''])"
  by code_simp

lemma takeover_runs:
  obtains z where "mem_leased_run takeover_events = Some z" and "mem_timely_run takeover_events"
    and "delivered_rows (sy_db (ls_sys z)) ''d1'' = 1"
  using takeover_table takeover_timely mem_table_run [of takeover_events] mem_table_timely by (auto split: option.splits)

lemma stalled_runs:
  obtains z where "mem_leased_run stalled_events = Some z" and "\<not> mem_timely_run stalled_events"
    and "audit_I1 (sy_db (ls_sys z)) = [''d1'']"
  using stalled_table stalled_not_timely mem_table_run [of stalled_events] mem_table_timely by (auto split: option.splits)

end
