(* ===== verification/Worker_Redis.thy ===== *)
theory Worker_Redis
  imports Worker_Safety
begin

text \<open>
  The processor on a Redis that keeps its contract (\<open>redis_service\<close>): the pickups that must not
  count as attempts. The keys of the lock, the breaker and the bucket are apart, so each of the
  three components sees its own state whatever the others did.
\<close>

subsection \<open>Keys apart\<close>

lemma keys_apart [simp]:
  "lockKey d \<noteq> failsKey e" "lockKey d \<noteq> openKey e" "lockKey d \<noteq> probeKey e" "lockKey d \<noteq> bucketKey e"
  "failsKey e \<noteq> lockKey d" "openKey e \<noteq> lockKey d" "probeKey e \<noteq> lockKey d" "bucketKey e \<noteq> lockKey d"
  by (auto simp: lockKey_def failsKey_def openKey_def probeKey_def bucketKey_def)

lemma breaker_frame [simp]: "breaker_spec cfg (m(lockKey d := x)) now e = breaker_spec cfg m now e"
  by (auto simp: breaker_spec_def breaker_view_defs)

lemma bucket_frame [simp]:
  "tokens_at cfg (m(lockKey d := x)) now e = tokens_at cfg m now e"
  "bucket_ok cfg (m(lockKey d := x)) e = bucket_ok cfg m e"
  by (simp_all add: tokens_at_def bucket_at_def bucket_ok_def)

subsection \<open>An attempt that succeeds\<close>

lemma healthy_attempt:
  fixes w :: "'r world"
  assumes inv: "db_inv (wd_db w)" and d: "workable (wd_db w) (deliveryId job) d" "w_attemptCount d < int4_max"
    and env: "\<And>site. en_fault env site = None" "\<And>site. en_tx env site = Tx_ok" "en_beats env = []"
    and req: "req = outbound_request hm (ms_now w) (deliveryId job) (w_attemptCount d + 1) d"
    and ok: "en_http env req = Response st body" "200 \<le> st" "st < 300"
  obtains w' row where "attempt_delivery R cfg hm env job tok d (w_attemptCount d + 1) Closed w = (Return, w')"
    "wd_redis w' = wd_redis w" "wd_now w' = en_http_done env" "wd_sent w' = wd_sent w @ [req]"
    "find_delivery (wd_db w') (deliveryId job) = Some row" "d_status row = DELIVERED"
    "d_attempt_count row = w_attemptCount d + 1"
proof -
  let ?i = "deliveryId job" and ?n = "w_attemptCount d + 1"
  obtain row where row: "find_delivery (wd_db w) ?i = Some row" "w_attemptCount d = d_attempt_count row"
    using getForDelivery_row [of "wd_db w" ?i d] d(1) by (auto simp: workable_def)
  obtain s1 where tr: "transition Tx_ok (wd_now w) ?i (w_status d) DELIVERING Worker
      (''attempt_'' @ string_of_int ?n) (wd_db w) = (Inr (), s1)"
    using transition_ok [OF find_row_known [OF row(1)]] by blast
  have s1: "db_inv s1" "find_delivery s1 ?i = Some (status_update (wd_now w) DELIVERING row)"
    using transition_inv [OF inv _ tr] transition_row [OF tr] row(1) by simp_all
  let ?ar = "attempt_result_of cfg False (deliver cfg (Response st body))"
  have ar: "ar_outcome ?ar = SUCCESS" using ok(2,3) by (simp add: attempt_result_SUCCESS)
  let ?in = "attempt_input cfg (en_random env) ?i ?n (ms_now w) (date_of_ts (en_http_done env)) ?ar"
  obtain s2 row' where s2: "recordAttempt Tx_ok (en_http_done env) ?in s1 = (Inr (), s2)"
      "find_delivery s2 ?i = Some row'" "d_status row' = DELIVERED" "d_attempt_count row' = ?n"
    using recordAttempt_step [OF s1(1), of ?in "status_update (wd_now w) DELIVERING row" "en_http_done env"]
      s1(2) row(2) d(2) ar by (auto simp: status_update_def)
  have "attempt_delivery R cfg hm env job tok d ?n Closed w =
      (Return, w\<lparr>wd_now := en_http_done env, wd_sent := wd_sent w @ [req], wd_db := s2\<rparr>)"
    using tr ar ok(1) req s2(1)
    by (simp add: attempt_delivery_def env Let_def breaker_bookkeeping_def ms_now_def)
  then show thesis using that s2(2-4) by simp
qed

text \<open>The start of a run that gets the lock and finds the breaker closed.\<close>

lemma pickup_closed:
  assumes R: "redis_service R ks scripts sha1" and ready: "client_ready sha1 c0"
    and free: "live (ks (conn c0)) now (lockKey i) = None"
    and closed: "breaker_spec cfg (ks (conn c0)) now e = Closed" and pos: "0 < CB_FAIL_THRESHOLD cfg"
  obtains lk c c1 where "acquire R cfg now tok i c0 = (lk, c)" "acquired lk" "token lk = tok"
    "checkState R cfg now e c = (Closed, c1)" "client_ready sha1 c1"
    "ks (conn c1) = (ks (conn c0))(lockKey i \<mapsto> (RString tok, Some (now + LOCK_TTL_MS cfg)))"
proof -
  obtain lk c where acq: "acquire R cfg now tok i c0 = (lk, c)" by (metis prod.exhaust)
  note eff = redis_service.acquire_effect [OF R acq]
  then have c: "ks (conn c) = (ks (conn c0))(lockKey i \<mapsto> (RString tok, Some (now + LOCK_TTL_MS cfg)))"
    using free by simp
  obtain bs c1 where chk: "checkState R cfg now e c = (bs, c1)" by (metis prod.exhaust)
  have bs: "bs = Closed"
    using redis_service.checkState_state [OF R pos, of now e c] chk c closed by simp
  then have "ks (conn c1) = ks (conn c)" "client_ready sha1 c1"
    using redis_service.checkState_effect [OF R, of cfg now e c] chk eff(4) ready by (simp_all add: client_ready_def)
  then show thesis using that acq eff(1,2) free chk bs c by simp
qed

text \<open>Taking and giving back a bucket token touches no lock.\<close>

lemma bucket_round_trip:
  assumes R: "redis_service R ks scripts sha1" and ready: "client_ready sha1 c1"
    and ok: "bucket_ok cfg (ks (conn c1)) e" "0 < tokens_at cfg (ks (conn c1)) now e" "0 < RL_MAX_INFLIGHT cfg"
  obtains c2 where "tryAcquire R cfg now e c1 = (Inr True, c2)" "client_ready sha1 c2"
    "ks (conn c2) (lockKey i) = ks (conn c1) (lockKey i)"
    "\<forall>now'. client_ready sha1 (releaseBucketToken R cfg now' e c2)"
    "\<forall>now'. ks (conn (releaseBucketToken R cfg now' e c2)) (lockKey i) = ks (conn c1) (lockKey i)"
proof -
  obtain res c2 where take: "tryAcquire R cfg now e c1 = (res, c2)" by (metis prod.exhaust)
  note eff = redis_service.tryAcquire_effect [OF R ready ok(1) take ok(3)]
  have ok2: "bucket_ok cfg (ks (conn c2)) e"
    using redis_service.bucket_step_ok [OF R ready ok(1,3), of now Take "res = Inr True" c2] take
    by (simp add: map_prod_def)
  have lock: "ks (conn c2) (lockKey i) = ks (conn c1) (lockKey i)" using eff(2) by auto
  have "client_ready sha1 (releaseBucketToken R cfg now' e c2) \<and>
      ks (conn (releaseBucketToken R cfg now' e c2)) (lockKey i) = ks (conn c1) (lockKey i)" for now'
    using redis_service.releaseBucketToken_effect [OF R ok2 ok(3), of now'] eff(3) lock
    by (auto simp: client_ready_def)
  then show thesis using that take eff(1,3) ok(2) lock by simp
qed

text \<open>After \<open>release\<close> nobody holds the lock that was ours.\<close>

lemma release_frees:
  assumes R: "redis_service R ks scripts sha1" and ready: "client_ready sha1 c"
    and own: "ks (conn c) (lockKey i) = Some (RString tok, dl)"
  obtains b c' where "release R now i tok c = (Inr b, c')" "live (ks (conn c')) now (lockKey i) = None"
proof -
  obtain r c' where rel: "release R now i tok c = (r, c')" by (metis prod.exhaust)
  note eff = redis_service.release_effect [OF R ready rel]
  have "live (ks (conn c)) now (lockKey i) \<in> {None, Some (RString tok)}"
    using own by (auto simp: live_def split: option.splits)
  then have "live (ks (conn c')) now (lockKey i) = None" using eff(2) by (auto split: if_splits)
  then show thesis using that rel eff(1) by simp
qed

subsection \<open>Properties\<close>

text \<open>
  A job whose delivery is locked by somebody else does nothing but reschedule itself: no
  attempt is used up, nothing is sent or written, and the lock is left alone.
\<close>

lemma contended_lock_defers:
  fixes R :: "'r redis_api" and w :: "'r world"
  assumes "redis_service R ks scripts sha1"
    and "live (ks (conn (wd_redis w))) (ms_now w) (lockKey (deliveryId job)) \<noteq> None"
    and "en_fault env At_acquire = None" and "en_fault env At_lock_delay = None"
  shows "\<exists>w'. processDelivery R cfg hm env job w = (Throw DelayedError, w') \<and>
    wd_db w' = wd_db w \<and> wd_sent w' = wd_sent w \<and>
    wd_delayed w' = wd_delayed w @ [(jobId job, of_int (ms_now w + 5000))] \<and>
    ks (conn (wd_redis w')) = ks (conn (wd_redis w))"
proof -
  obtain lk c where acq: "acquire R cfg (ms_now w) (en_token env) (deliveryId job) (wd_redis w) = (lk, c)"
    by (metis prod.exhaust)
  then have "\<not> acquired lk" "ks (conn c) = ks (conn (wd_redis w))"
    using redis_service.acquire_effect [OF assms(1) acq] assms(2) by simp_all
  then show ?thesis
    using assms(3,4) acq
    by (simp add: processDelivery_def moveToDelayed_def Let_def ms_now_def LOCK_CONTENTION_DELAY_MS_def)
qed

definition demo_locked :: "mem_state world" where
  "demo_locked = demo_world\<lparr>wd_redis := mem_client\<lparr>conn := mem_empty\<lparr>mem_ks :=
     [lockKey ''d1'' \<mapsto> (RString ''other'', Some 60000)]\<rparr>\<rparr>\<rparr>"

text \<open>
  When the endpoint's bucket is empty the pickup is free: no attempt is recorded, nothing is
  sent, the job is delayed by 5 seconds give or take 2, and the run gives its lock back.
\<close>

lemma rate_limited_pickup_is_free:
  fixes R :: "'r redis_api" and w :: "'r world"
  assumes "redis_service R ks scripts sha1" and "client_ready sha1 (wd_redis w)"
    and "live (ks (conn (wd_redis w))) (ms_now w) (lockKey (deliveryId job)) = None"
    and "workable (wd_db w) (deliveryId job) d" and "w_endpointActive d"
    and "breaker_spec cfg (ks (conn (wd_redis w))) (ms_now w) (w_endpointId d) = Closed"
    and "bucket_ok cfg (ks (conn (wd_redis w))) (w_endpointId d)"
    and "tokens_at cfg (ks (conn (wd_redis w))) (ms_now w) (w_endpointId d) = 0"
    and "0 < LOCK_TTL_MS cfg" and "0 < CB_FAIL_THRESHOLD cfg" and "0 < RL_MAX_INFLIGHT cfg"
    and "\<And>site. en_fault env site = None" and "0 \<le> en_random env" and "en_random env \<le> 1"
  shows "\<exists>w' t. processDelivery R cfg hm env job w = (Throw DelayedError, w') \<and>
    wd_db w' = wd_db w \<and> wd_sent w' = wd_sent w \<and> wd_delayed w' = wd_delayed w @ [(jobId job, t)] \<and>
    of_int (ms_now w + 3000) \<le> t \<and> t \<le> of_int (ms_now w + 7000) \<and>
    ks (conn (wd_redis w')) = (ks (conn (wd_redis w)))(lockKey (deliveryId job) := None)"
proof -
  let ?i = "deliveryId job" and ?m = "ks (conn (wd_redis w))" and ?now = "ms_now w"
  obtain lk c c1 where acq: "acquire R cfg ?now (en_token env) ?i (wd_redis w) = (lk, c)" "acquired lk"
      "token lk = en_token env" and chk: "checkState R cfg ?now (w_endpointId d) c = (Closed, c1)"
    and c1: "client_ready sha1 c1"
      "ks (conn c1) = ?m(lockKey ?i \<mapsto> (RString (en_token env), Some (?now + LOCK_TTL_MS cfg)))"
    by (rule pickup_closed [OF assms(1-3,6,10)])
  obtain res c2 where take: "tryAcquire R cfg ?now (w_endpointId d) c1 = (res, c2)" by (metis prod.exhaust)
  have res: "res = Inr False" and c2: "ks (conn c2) = ks (conn c1)" "client_ready sha1 c2"
    using redis_service.tryAcquire_effect [OF assms(1) c1(1) _ take assms(11)] c1 assms(7,8) by auto
  obtain rr c3 where rel: "release R ?now ?i (en_token env) c2 = (rr, c3)" by (metis prod.exhaust)
  have live: "live (ks (conn c2)) ?now (lockKey ?i) = Some (RString (en_token env))"
    using c2 c1 assms(9) by simp
  have rr: "rr = Inr True" and c3: "ks (conn c3) = ?m(lockKey ?i := None)"
    using redis_service.release_effect [OF assms(1) c2(2) rel] live c2 c1 by (simp_all add: fun_upd_upd)
  let ?t = "of_int (?now + RATE_LIMIT_DELAY_MS) +
     (en_random env * of_int RATE_LIMIT_JITTER_MS * 2 - of_int RATE_LIMIT_JITTER_MS)"
  have now: "ms_now (w\<lparr>wd_redis := x\<rparr>) = ?now" "ms_now (w\<lparr>wd_redis := x, wd_delayed := y\<rparr>) = ?now" for x y
    by (simp_all add: ms_now_def)
  have "processDelivery R cfg hm env job w =
      (Throw DelayedError, w\<lparr>wd_redis := c3, wd_delayed := wd_delayed w @ [(jobId job, ?t)]\<rparr>)"
    using assms(4,5) acq chk take res rel rr
    by (simp add: processDelivery_def process_try_def process_finally_def moveToDelayed_def workable_def
        Let_def assms(12) now)
  moreover have "of_int (?now + 3000) \<le> ?t" "?t \<le> of_int (?now + 7000)"
    using assms(13,14) by (simp_all add: RATE_LIMIT_DELAY_MS_def RATE_LIMIT_JITTER_MS_def)
  ultimately show ?thesis using c3 by auto
qed

definition demo_limited :: "mem_state world" where
  "demo_limited = demo_world\<lparr>wd_redis := mem_client\<lparr>conn := mem_empty\<lparr>mem_ks :=
     [bucketKey ''p1'' \<mapsto> (RHash [''tokens'' \<mapsto> string_of_int 0], Some 600000)]\<rparr>\<rparr>\<rparr>"

text \<open>
  C7: a healthy delivery gets through. When the lock is free, the breaker closed, a bucket token
  available, the endpoint active and answering with a status from 200 to 299 before the first
  heartbeat, and nothing fails, then one run sends exactly one request, makes the delivery DELIVERED
  with one more attempt, completes the job and leaves the lock free.
\<close>

theorem healthy_delivery_succeeds:
  fixes R :: "'r redis_api" and w :: "'r world"
  assumes "redis_service R ks scripts sha1" and "client_ready sha1 (wd_redis w)"
    and "live (ks (conn (wd_redis w))) (ms_now w) (lockKey (deliveryId job)) = None"
    and "breaker_spec cfg (ks (conn (wd_redis w))) (ms_now w) (w_endpointId d) = Closed"
    and "0 < CB_FAIL_THRESHOLD cfg" and "0 < RL_MAX_INFLIGHT cfg"
    and "bucket_ok cfg (ks (conn (wd_redis w))) (w_endpointId d)"
    and "0 < tokens_at cfg (ks (conn (wd_redis w))) (ms_now w) (w_endpointId d)"
    and "db_inv (wd_db w)" and "workable (wd_db w) (deliveryId job) d" and "w_endpointActive d"
    and "w_attemptCount d < int4_max"
    and "\<And>site. en_fault env site = None" and "\<And>site. en_tx env site = Tx_ok" and "en_beats env = []"
    and "en_http env (outbound_request hm (ms_now w) (deliveryId job) (w_attemptCount d + 1) d) = Response st body"
    and "200 \<le> st" and "st < 300"
  shows "\<exists>w' row. processDelivery R cfg hm env job w = (Return, w') \<and>
    wd_sent w' = wd_sent w @ [outbound_request hm (ms_now w) (deliveryId job) (w_attemptCount d + 1) d] \<and>
    find_delivery (wd_db w') (deliveryId job) = Some row \<and> d_status row = DELIVERED \<and>
    d_attempt_count row = w_attemptCount d + 1 \<and>
    live (ks (conn (wd_redis w'))) (ms_now w') (lockKey (deliveryId job)) = None"
proof -
  let ?i = "deliveryId job" and ?e = "w_endpointId d" and ?m = "ks (conn (wd_redis w))" and ?now = "ms_now w"
  obtain lk c c1 where acq: "acquire R cfg ?now (en_token env) ?i (wd_redis w) = (lk, c)" "acquired lk"
      "token lk = en_token env" and chk: "checkState R cfg ?now ?e c = (Closed, c1)"
    and c1: "client_ready sha1 c1"
      "ks (conn c1) = ?m(lockKey ?i \<mapsto> (RString (en_token env), Some (?now + LOCK_TTL_MS cfg)))"
    by (rule pickup_closed [OF assms(1-5)])
  have bk: "bucket_ok cfg (ks (conn c1)) ?e" "0 < tokens_at cfg (ks (conn c1)) ?now ?e"
    using assms(7,8) c1(2) by simp_all
  obtain c2 where c2: "tryAcquire R cfg ?now ?e c1 = (Inr True, c2)" "client_ready sha1 c2"
      "ks (conn c2) (lockKey ?i) = ks (conn c1) (lockKey ?i)"
      "\<forall>now'. client_ready sha1 (releaseBucketToken R cfg now' ?e c2)"
      "\<forall>now'. ks (conn (releaseBucketToken R cfg now' ?e c2)) (lockKey ?i) = ks (conn c1) (lockKey ?i)"
    by (rule bucket_round_trip [OF assms(1) c1(1) bk assms(6), where i = ?i])
  let ?w1 = "w\<lparr>wd_redis := c2\<rparr>"
  have w1: "db_inv (wd_db ?w1)" "workable (wd_db ?w1) ?i d"
    and http: "en_http env (outbound_request hm (ms_now ?w1) ?i (w_attemptCount d + 1) d) = Response st body"
    using assms(9,10,16) by (simp_all add: ms_now_def)
  obtain w' row where run: "attempt_delivery R cfg hm env job (en_token env) d (w_attemptCount d + 1) Closed ?w1 =
      (Return, w')" "wd_redis w' = wd_redis ?w1" "wd_now w' = en_http_done env"
      "wd_sent w' = wd_sent ?w1 @ [outbound_request hm (ms_now ?w1) ?i (w_attemptCount d + 1) d]"
      "find_delivery (wd_db w') ?i = Some row" "d_status row = DELIVERED" "d_attempt_count row = w_attemptCount d + 1"
    by (rule healthy_attempt [OF w1 assms(12-15) refl http assms(17,18), of R cfg "en_token env"])
  define c3 where "c3 = (if ?e = [] then c2 else releaseBucketToken R cfg (ms_now w') ?e c2)"
  have c3: "client_ready sha1 c3" "ks (conn c3) (lockKey ?i) = Some (RString (en_token env), Some (?now + LOCK_TTL_MS cfg))"
    using c2 c1(2) by (simp_all add: c3_def)
  obtain b c4 where rel: "release R (ms_now w') ?i (en_token env) c3 = (Inr b, c4)"
      "live (ks (conn c4)) (ms_now w') (lockKey ?i) = None"
    by (rule release_frees [OF assms(1) c3])
  have "processDelivery R cfg hm env job w = (Return, w'\<lparr>wd_redis := c4\<rparr>)"
    using assms(10,11) acq chk c2(1) run(1,2) rel(1)
    by (simp add: processDelivery_def process_try_def process_finally_def workable_def Let_def assms(13) c3_def ms_now_def
        split: if_splits)
  then show ?thesis using run(4-7) rel(2) by (simp add: ms_now_def)
qed

theorem healthy_delivery_succeeds_witness:
  "\<exists>w' row. processDelivery mem_redis default_config (\<lambda>_ _. ''h'') demo_env demo_job demo_world = (Return, w') \<and>
     find_delivery (wd_db w') ''d1'' = Some row \<and> d_status row = DELIVERED"
proof -
  obtain d where d: "workable (wd_db demo_world) (deliveryId demo_job) d" "w_endpointActive d"
      "w_endpointId d = ''p1''" "w_attemptCount d = 0"
    by (simp add: workable_def getForDelivery_def demo_world_def demo_job_def demo_db_def)
  let ?m = "mem_ks (conn (wd_redis demo_world))"
  have m: "?m = Map.empty" by (simp add: demo_world_def mem_client_def mem_empty_def)
  have "client_ready mem_sha1 (wd_redis demo_world)" by (simp add: client_ready_def demo_world_def mem_client_def)
  moreover have "breaker_spec default_config ?m (ms_now demo_world) ''p1'' = Closed"
    by (simp add: m breaker_spec_def breaker_view_defs live_def default_config_def)
  moreover have "bucket_ok default_config ?m ''p1''" by (simp add: m bucket_ok_def)
  moreover have "tokens_at default_config ?m (ms_now demo_world) ''p1'' = RL_MAX_INFLIGHT default_config"
    by (simp add: m tokens_at_def bucket_at_def live_def)
  ultimately show ?thesis
    using healthy_delivery_succeeds [OF mem.redis_service_axioms _ _ _ _ _ _ _ _ d(1,2),
        of default_config demo_env "\<lambda>_ _. ''h''" 200 "''ok''"] d(3,4) m
    by (force simp: default_config_def demo_env_def demo_world_def demo_db_inv live_def int4_max_def demo_job_def)
qed

end
