(* ===== verification/Job_Life.thy ===== *)
theory Job_Life
  imports Worker_Redis Dlq_Handler Reconciler
begin

text \<open>
  \<open>src/src/worker/index.ts\<close> with the options of \<open>src/src/queue/queues.ts\<close>: the life of one job. The
  BullMQ worker takes the job, runs \<open>processDelivery\<close>, and settles the job by how the run ended;
  a \<open>failed\<close> event goes to the logging listener and to the DLQ handler. BullMQ itself is a parameter:
  \<open>settle\<close> says what becomes of a job, and the locale \<open>bull_worker\<close> has its documented laws. A job
  is taken as often as the list of rounds is long, so statements hold for every number of pickups.
\<close>

subsection \<open>Options\<close>

record job_options =
  jo_attempts :: int
  jo_backoff :: string
  jo_completeAge :: int
  jo_completeCount :: int
  jo_removeOnFail :: bool

definition defaultJobOptions :: "config \<Rightarrow> job_options" where
  "defaultJobOptions cfg =
     \<lparr>jo_attempts = int (length (BACKOFF_BASE_MS cfg)), jo_backoff = ''webhook-backoff'',
      jo_completeAge = REMOVE_ON_COMPLETE_AGE_S cfg, jo_completeCount = REMOVE_ON_COMPLETE_COUNT cfg,
      jo_removeOnFail = False\<rparr>"

record worker_options =
  wo_concurrency :: int
  wo_lockDuration :: ms
  wo_stalledInterval :: ms
  wo_maxStalledCount :: int

definition workerOptions :: "config \<Rightarrow> worker_options" where
  "workerOptions cfg =
     \<lparr>wo_concurrency = WORKER_CONCURRENCY cfg, wo_lockDuration = BULLMQ_LOCK_DURATION_MS cfg,
      wo_stalledInterval = BULLMQ_STALLED_INTERVAL_MS cfg, wo_maxStalledCount = 1\<rparr>"

subsection \<open>BullMQ's part\<close>

datatype run_end = Resolved | Moved_to_delayed | Failed_with exn | Stalled

text \<open>How a run of the processor ends, seen from BullMQ; the job of a dead process stalls.\<close>

fun run_end_of :: "flow \<Rightarrow> run_end" where
  "run_end_of Return = Resolved"
| "run_end_of (Throw e) = (if e = DelayedError then Moved_to_delayed else Failed_with e)"
| "run_end_of Crash = Stalled"

record life_job =
  lj_job :: bull_job
  lj_stalled :: int
  lj_state :: job_state
  lj_due :: ms

text \<open>A \<open>failed\<close> event has the job, if it still exists, and the message of the error.\<close>

type_synonym failed_event = "bull_job option \<times> string"

type_synonym settle_fn =
  "job_options \<Rightarrow> worker_options \<Rightarrow> (int \<Rightarrow> string \<Rightarrow> ms) \<Rightarrow> ms \<Rightarrow> run_end \<Rightarrow> life_job \<Rightarrow>
   life_job \<times> failed_event option"

text \<open>
  The documented laws: a job that returns is completed; \<open>DelayedError\<close> leaves it delayed and uses up
  nothing; another error uses up one attempt and emits \<open>failed\<close>, the job being delayed by its backoff
  or, at the last attempt, failed; a stalled job waits again until it has stalled \<open>maxStalledCount\<close>
  times, then it is failed, with at most one attempt used up by that.
\<close>

locale bull_worker =
  fixes settle :: settle_fn
  assumes keeps_id: "settle jo wo bo now e j = (j', ev) \<Longrightarrow>
      deliveryId (lj_job j') = deliveryId (lj_job j) \<and> jobId (lj_job j') = jobId (lj_job j)"
    and resolved: "settle jo wo bo now Resolved j = (j', ev) \<Longrightarrow> lj_state j' = Completed \<and> ev = None"
    and delayed: "settle jo wo bo now Moved_to_delayed j = (j', ev) \<Longrightarrow>
      lj_state j' = Delayed \<and> attemptsMade (lj_job j') = attemptsMade (lj_job j) \<and>
      lj_stalled j' = lj_stalled j \<and> ev = None"
    and failed: "settle jo wo bo now (Failed_with x) j = (j', ev) \<Longrightarrow>
      attemptsMade (lj_job j') = attemptsMade (lj_job j) + 1 \<and> lj_stalled j' = lj_stalled j \<and>
      (\<exists>m. ev = Some (Some (lj_job j'), m)) \<and>
      (if attemptsMade (lj_job j') < jo_attempts jo
       then lj_state j' = Delayed \<and> lj_due j' = now + bo (attemptsMade (lj_job j')) (jo_backoff jo)
       else lj_state j' = Failed_job)"
    and stalled: "settle jo wo bo now Stalled j = (j', ev) \<Longrightarrow> lj_stalled j < wo_maxStalledCount wo \<Longrightarrow>
      lj_state j' = Waiting \<and> attemptsMade (lj_job j') = attemptsMade (lj_job j) \<and>
      lj_stalled j' = lj_stalled j + 1 \<and> ev = None"
    and stalled_out: "settle jo wo bo now Stalled j = (j', ev) \<Longrightarrow> wo_maxStalledCount wo \<le> lj_stalled j \<Longrightarrow>
      lj_state j' = Failed_job \<and> (\<forall>b m. ev = Some (Some b, m) \<longrightarrow>
        deliveryId b = deliveryId (lj_job j) \<and> attemptsMade b \<le> attemptsMade (lj_job j) + 1)"

text \<open>The message of an error.\<close>

fun exn_message :: "exn \<Rightarrow> string" where
  "exn_message (ErrorExn m) = m"
| "exn_message (RedisExn m) = m"
| "exn_message (AppExn a) = message a"
| "exn_message _ = ''error''"

definition mem_settle :: settle_fn where
  "mem_settle jo wo bo now e j =
     (let n = attemptsMade (lj_job j) + 1; jb = (lj_job j)\<lparr>attemptsMade := n\<rparr>
      in case e of
        Resolved \<Rightarrow> (j\<lparr>lj_job := jb, lj_state := Completed\<rparr>, None)
      | Moved_to_delayed \<Rightarrow> (j\<lparr>lj_state := Delayed\<rparr>, None)
      | Failed_with x \<Rightarrow>
          (if n < jo_attempts jo
           then j\<lparr>lj_job := jb, lj_state := Delayed, lj_due := now + bo n (jo_backoff jo)\<rparr>
           else j\<lparr>lj_job := jb, lj_state := Failed_job\<rparr>, Some (Some jb, exn_message x))
      | Stalled \<Rightarrow>
          if lj_stalled j < wo_maxStalledCount wo
          then (j\<lparr>lj_state := Waiting, lj_stalled := lj_stalled j + 1\<rparr>, None)
          else (j\<lparr>lj_job := jb, lj_state := Failed_job\<rparr>,
                Some (Some jb, ''job stalled more than allowable limit'')))"

interpretation mem_bull: bull_worker mem_settle
  by unfold_locales (auto simp: mem_settle_def Let_def split: run_end.splits if_splits)

subsection \<open>The worker process\<close>

text \<open>
  One pickup: what others have done to the database, to Redis and to the clock since the last one, the
  environment of the run, and that of the \<open>failed\<close> handler.
\<close>

record 'r round =
  rn_db :: "db \<Rightarrow> db"
  rn_redis :: "'r client \<Rightarrow> 'r client"
  rn_now :: ts
  rn_run :: "'r run_env"
  rn_failed :: failed_env

record ('r, 'q) life =
  lf_world :: "'r world"
  lf_job :: life_job
  lf_queue :: 'q
  lf_alerts :: "dlq_alert list"
  lf_posts :: "(string \<times> string) list"
  lf_errors :: "(string option \<times> int option \<times> string) list"

definition before_round :: "'r round \<Rightarrow> 'r world \<Rightarrow> 'r world" where
  "before_round rn w = w\<lparr>wd_db := rn_db rn (wd_db w), wd_redis := rn_redis rn (wd_redis w), wd_now := rn_now rn\<rparr>"

text \<open>The two \<open>failed\<close> listeners: \<open>logger.error\<close>, and \<open>handleFailed\<close> of \<open>registerDlqHandler\<close>.\<close>

definition on_failed ::
  "config \<Rightarrow> 'q queue_api \<Rightarrow> failed_env \<Rightarrow> failed_event \<Rightarrow> ('r, 'q) life \<Rightarrow> ('r, 'q) life" where
  "on_failed cfg Q fe ev L = (case ev of (mjob, err) \<Rightarrow>
     let w = handleFailed cfg Q fe
               (map_option (\<lambda>b. \<lparr>fj_deliveryId = deliveryId b, fj_attemptsMade = attemptsMade b\<rparr>) mjob)
               \<lparr>dw_db = wd_db (lf_world L), dw_queue = lf_queue L, dw_log = lf_alerts L, dw_posts = lf_posts L\<rparr>
     in L\<lparr>lf_world := (lf_world L)\<lparr>wd_db := dw_db w\<rparr>, lf_queue := dw_queue w, lf_alerts := dw_log w,
          lf_posts := dw_posts w,
          lf_errors := lf_errors L @ [(map_option jobId mjob, map_option attemptsMade mjob, err)]\<rparr>)"

definition terminal :: "job_state \<Rightarrow> bool" where
  "terminal st \<longleftrightarrow> st = Completed \<or> st = Failed_job"

definition job_round ::
  "settle_fn \<Rightarrow> 'r redis_api \<Rightarrow> config \<Rightarrow> hmac \<Rightarrow> 'q queue_api \<Rightarrow> 'r round \<Rightarrow> ('r, 'q) life \<Rightarrow> ('r, 'q) life" where
  "job_round settle R cfg hm Q rn L =
     (if terminal (lj_state (lf_job L)) then L
      else
        let (fl, w) = processDelivery R cfg hm (rn_run rn) (lj_job (lf_job L)) (before_round rn (lf_world L));
            (j, ev) = settle (defaultJobOptions cfg) (workerOptions cfg)
                        (backoffStrategy cfg (en_random (rn_run rn))) (ms_now w) (run_end_of fl) (lf_job L);
            L1 = L\<lparr>lf_world := w, lf_job := j\<rparr>
        in case ev of None \<Rightarrow> L1 | Some f \<Rightarrow> on_failed cfg Q (rn_failed rn) f L1)"

primrec job_life ::
  "settle_fn \<Rightarrow> 'r redis_api \<Rightarrow> config \<Rightarrow> hmac \<Rightarrow> 'q queue_api \<Rightarrow> 'r round list \<Rightarrow> ('r, 'q) life \<Rightarrow> ('r, 'q) life"
where
  "job_life settle R cfg hm Q [] L = L"
| "job_life settle R cfg hm Q (rn # rns) L = job_life settle R cfg hm Q rns (job_round settle R cfg hm Q rn L)"

lemma on_failed_simps [simp]:
  "lf_job (on_failed cfg Q fe ev L) = lf_job L"
  "wd_sent (lf_world (on_failed cfg Q fe ev L)) = wd_sent (lf_world L)"
  by (simp_all add: on_failed_def Let_def split: prod.splits)

lemma before_round_simps [simp]:
  "wd_sent (before_round rn w) = wd_sent w" "wd_db (before_round rn w) = rn_db rn (wd_db w)"
  "wd_redis (before_round rn w) = rn_redis rn (wd_redis w)" "wd_now (before_round rn w) = rn_now rn"
  by (simp_all add: before_round_def)

lemma job_life_terminal: "terminal (lj_state (lf_job L)) \<Longrightarrow> job_life settle R cfg hm Q rns L = L"
  by (induction rns) (simp_all add: job_round_def)

subsection \<open>What uses up an attempt\<close>

text \<open>
  Only \<open>moveToDelayed\<close> raises \<open>DelayedError\<close>: not Redis, not PostgreSQL, not the network. Then a run that
  ends with it has sent and written nothing.
\<close>

definition own_delays :: "'r redis_api \<Rightarrow> 'r run_env \<Rightarrow> bool" where
  "own_delays R env \<longleftrightarrow> (\<forall>site. en_fault env site \<noteq> Some DelayedError) \<and>
     (\<forall>r now sha key args. fst (rd_evalsha R r now sha key args) \<noteq> Inl DelayedError)"

lemma withTx_not_delayed:
  assumes "\<And>e s. fn s = Inl e \<Longrightarrow> e \<noteq> DelayedError"
  shows "fst (withTx fate fn s) \<noteq> Inl DelayedError"
  using assms by (cases fate) (auto split: sum.splits)

lemma pg_not_delayed:
  "fst (recordAttempt fate now input s) \<noteq> Inl DelayedError"
  "fst (transition fate now i st st' act reason s) \<noteq> Inl DelayedError"
  unfolding recordAttempt_def transition_def
  by (rule withTx_not_delayed, (auto simp: repo_tx_defs insert_attempt_def insert_transition_def
      update_after_attempt_def split: if_splits option.splits sum.splits) [])+

lemma eval_script_not_delayed:
  assumes "own_delays R env"
  shows "fst (eval_script R sc now key args c) \<noteq> Inl DelayedError"
proof -
  have "rd_evalsha R r t sha k as \<noteq> (Inl DelayedError, r')" for r t sha k as r'
    using assms by (metis fst_conv own_delays_def)
  then show ?thesis
    by (auto simp: eval_script_def isNoScriptError_def split: option.splits prod.splits sum.splits)
qed

lemma redis_not_delayed:
  assumes "own_delays R env"
  shows "fst (tryAcquire R cfg now e c) \<noteq> Inl DelayedError" and "fst (release R now i tok c) \<noteq> Inl DelayedError"
  using eval_script_not_delayed [OF assms, of Token_bucket now] eval_script_not_delayed [OF assms, of Release_lock now]
  by (auto simp: tryAcquire_def release_def evalTokenBucket_def evalReleaseLock_def split: prod.splits sum.splits)
     (metis fst_conv)+

lemma attempt_not_delayed:
  assumes "own_delays R env"
  shows "fst (attempt_delivery R cfg hm env job tok d n bs w) \<noteq> Throw DelayedError"
    and "fst (fail_fast cfg env job n st w) \<noteq> Throw DelayedError"
  using assms pg_not_delayed
  by (auto simp: attempt_delivery_def fail_fast_def own_delays_def Let_def split: prod.splits sum.splits if_splits option.splits)
     (metis fst_conv)+

lemma delayed_run_is_free:
  assumes own: "own_delays R env" and run: "processDelivery R cfg hm env job w = (Throw DelayedError, w')"
  shows "wd_db w' = wd_db w \<and> wd_sent w' = wd_sent w"
  using run
proof (cases rule: processDelivery_cases)
  case (ran lk c fl0 b w2)
  have "fl0 = Throw DelayedError"
    using ran(4) own redis_not_delayed(2) [OF own]
    by (auto simp: process_finally_def own_delays_def split: option.splits sum.splits prod.splits if_splits)
      (metis fst_conv)+
  have "wd_db w2 = wd_db w \<and> wd_sent w2 = wd_sent w"
    using ran(3)
  proof (cases rule: process_try_cases)
    case (circuit d r)
    then show ?thesis using pg_not_delayed(1) \<open>fl0 = Throw DelayedError\<close> by (auto split: sum.splits) (metis fst_conv)+
  next
    case (attempt d bs c)
    then show ?thesis using attempt_not_delayed(1) [OF own] \<open>fl0 = Throw DelayedError\<close> by (metis fst_conv)
  qed simp
  then show ?thesis using ran(5,6) by simp
qed simp

lemma run_sends_one:
  assumes "processDelivery R cfg hm env job w = (fl, w')"
  shows "length (wd_sent w') \<le> length (wd_sent w) + 1"
  using assms
proof (cases rule: processDelivery_cases)
  case (ran lk c fl0 b w2)
  from ran(3) have "length (wd_sent w2) \<le> length (wd_sent w) + 1"
  proof (cases rule: process_try_cases)
    case (attempt d bs c')
    from attempt(5) show ?thesis by (cases rule: attempt_delivery_cases) simp_all
  qed simp_all
  then show ?thesis using ran(6) by simp
qed simp

text \<open>A process that dies in a run leaves its delivery DELIVERING.\<close>

lemma crash_leaves_delivering:
  assumes "processDelivery R cfg hm env job w = (Crash, w')"
  shows "\<exists>row. find_delivery (wd_db w') (deliveryId job) = Some row \<and> d_status row = DELIVERING"
  using assms
proof (cases rule: processDelivery_cases)
  case (ran lk c fl0 b w2)
  have fl0: "fl0 = Crash" using process_finally_flow(2) [of R cfg env job "token lk" fl0 b w2] ran(4) by simp
  from ran(3) have "\<exists>row. find_delivery (wd_db w2) (deliveryId job) = Some row \<and> d_status row = DELIVERING"
  proof (cases rule: process_try_cases)
    case (attempt d bs c')
    obtain row where row: "find_delivery (wd_db w) (deliveryId job) = Some row"
      using getForDelivery_row [of "wd_db w" "deliveryId job" d] attempt(1) by (auto simp: workable_def)
    from attempt(5) show ?thesis
    proof (cases rule: attempt_delivery_cases)
      case stopped
      then show ?thesis using transition_row [OF stopped(1)] row by (auto simp: status_update_def)
    next
      case (finished s1 beat c ar r)
      then show ?thesis using fl0 by (auto split: sum.splits if_splits)
    qed (use fl0 in simp)
  qed (use fl0 in simp_all)
  then show ?thesis using ran(5) by simp
qed simp

subsection \<open>The budget of a job\<close>

definition in_budget :: "config \<Rightarrow> nat \<Rightarrow> ('r, 'q) life \<Rightarrow> bool" where
  "in_budget cfg s0 L \<longleftrightarrow>
     (let n = int (length (BACKOFF_BASE_MS cfg)); j = lf_job L; sent = int (length (wd_sent (lf_world L)))
      in if terminal (lj_state j) then sent \<le> int s0 + n + 1
         else attemptsMade (lj_job j) < n \<and> lj_stalled j \<le> 1 \<and>
              sent \<le> int s0 + attemptsMade (lj_job j) + lj_stalled j)"

context bull_worker
begin

lemma job_round_eq:
  assumes "\<not> terminal (lj_state (lf_job L))"
    and "processDelivery R cfg hm (rn_run rn) (lj_job (lf_job L)) (before_round rn (lf_world L)) = (fl, w)"
    and "settle (defaultJobOptions cfg) (workerOptions cfg) (backoffStrategy cfg (en_random (rn_run rn)))
      (ms_now w) (run_end_of fl) (lf_job L) = (j, ev)"
  shows "job_round settle R cfg hm Q rn L =
    (case ev of None \<Rightarrow> L\<lparr>lf_world := w, lf_job := j\<rparr>
     | Some f \<Rightarrow> on_failed cfg Q (rn_failed rn) f (L\<lparr>lf_world := w, lf_job := j\<rparr>))"
  using assms by (simp add: job_round_def Let_def)

lemma job_round_budget:
  assumes L: "in_budget cfg s0 L" and own: "own_delays R (rn_run rn)"
  shows "in_budget cfg s0 (job_round settle R cfg hm Q rn L)"
proof (cases "terminal (lj_state (lf_job L))")
  case True
  then show ?thesis using L by (simp add: job_round_def)
next
  case False
  let ?w = "before_round rn (lf_world L)" and ?j = "lf_job L"
  obtain fl w where run: "processDelivery R cfg hm (rn_run rn) (lj_job ?j) ?w = (fl, w)" by fastforce
  obtain j ev where st: "settle (defaultJobOptions cfg) (workerOptions cfg)
      (backoffStrategy cfg (en_random (rn_run rn))) (ms_now w) (run_end_of fl) ?j = (j, ev)" by fastforce
  have L': "lf_job (job_round settle R cfg hm Q rn L) = j"
      "wd_sent (lf_world (job_round settle R cfg hm Q rn L)) = wd_sent w"
    using job_round_eq [OF False run st] by (simp_all split: option.splits)
  have one: "int (length (wd_sent w)) \<le> int (length (wd_sent (lf_world L))) + 1"
    using run_sends_one [OF run] by simp
  have old: "attemptsMade (lj_job ?j) < int (length (BACKOFF_BASE_MS cfg))" "lj_stalled ?j \<le> 1"
      "int (length (wd_sent (lf_world L))) \<le> int s0 + attemptsMade (lj_job ?j) + lj_stalled ?j"
    using L False by (simp_all add: in_budget_def Let_def)
  show ?thesis
  proof (cases "run_end_of fl")
    case Resolved
    then show ?thesis
      using resolved [OF st [unfolded Resolved]] L' one old by (simp add: in_budget_def terminal_def Let_def)
  next
    case Moved_to_delayed
    then have "fl = Throw DelayedError" by (cases fl) (auto split: if_splits)
    then have "wd_sent w = wd_sent (lf_world L)" using delayed_run_is_free [OF own] run by simp
    then show ?thesis
      using delayed [OF st [unfolded Moved_to_delayed]] L' old by (simp add: in_budget_def terminal_def Let_def)
  next
    case (Failed_with x)
    then show ?thesis
      using failed [OF st [unfolded Failed_with]] L' one old
      by (auto simp: in_budget_def terminal_def Let_def defaultJobOptions_def split: if_splits)
  next
    case Stalled
    show ?thesis
    proof (cases "lj_stalled ?j < 1")
      case True
      then show ?thesis
        using stalled [OF st [unfolded Stalled]] L' one old
        by (simp add: in_budget_def terminal_def Let_def workerOptions_def)
    next
      case False
      then show ?thesis
        using stalled_out [OF st [unfolded Stalled]] L' one old
        by (simp add: in_budget_def terminal_def Let_def workerOptions_def)
    qed
  qed
qed

lemma job_life_budget:
  assumes "in_budget cfg s0 L" and "\<And>rn. rn \<in> set rns \<Longrightarrow> own_delays R (rn_run rn)"
  shows "in_budget cfg s0 (job_life settle R cfg hm Q rns L)"
  using assms by (induction rns arbitrary: L) (auto intro: job_round_budget)

lemma job_life_requests:
  assumes "BACKOFF_BASE_MS cfg \<noteq> []" and "\<And>rn. rn \<in> set rns \<Longrightarrow> own_delays R (rn_run rn)"
    and "attemptsMade (lj_job (lf_job L)) = 0" and "lj_stalled (lf_job L) = 0"
  shows "length (wd_sent (lf_world (job_life settle R cfg hm Q rns L)))
    \<le> length (wd_sent (lf_world L)) + length (BACKOFF_BASE_MS cfg) + 1"
proof -
  have "in_budget cfg (length (wd_sent (lf_world L))) L" using assms by (simp add: in_budget_def Let_def)
  then have "in_budget cfg (length (wd_sent (lf_world L))) (job_life settle R cfg hm Q rns L)"
    using assms(2) by (rule job_life_budget)
  then show ?thesis by (auto simp: in_budget_def Let_def split: if_splits)
qed

text \<open>A job that stalls once too often is failed with attempts left, which the DLQ handler ignores.\<close>

lemma stalled_out_round:
  assumes L: "\<not> terminal (lj_state (lf_job L))" and "1 \<le> lj_stalled (lf_job L)"
    and few: "attemptsMade (lj_job (lf_job L)) + 1 < int (length (BACKOFF_BASE_MS cfg))"
    and run: "processDelivery R cfg hm (rn_run rn) (lj_job (lf_job L)) (before_round rn (lf_world L)) = (Crash, w)"
    and L': "L' = job_round settle R cfg hm Q rn L"
  shows "lj_state (lf_job L') = Failed_job \<and> lf_alerts L' = lf_alerts L \<and> wd_db (lf_world L') = wd_db w"
proof -
  obtain j ev where st: "settle (defaultJobOptions cfg) (workerOptions cfg)
      (backoffStrategy cfg (en_random (rn_run rn))) (ms_now w) (run_end_of Crash) (lf_job L) = (j, ev)" by fastforce
  have out: "lj_state j = Failed_job"
      "\<And>b m. ev = Some (Some b, m) \<Longrightarrow> attemptsMade b < int (length (BACKOFF_BASE_MS cfg))"
    using stalled_out [OF st [unfolded run_end_of.simps]] assms(2) few by (force simp: workerOptions_def)+
  show ?thesis
  proof (cases ev)
    case None
    then show ?thesis using job_round_eq [OF L run st] L' out(1) by simp
  next
    case (Some f)
    obtain mb m where f: "f = (mb, m)" by fastforce
    have "on_failed cfg Q (rn_failed rn) f K =
        K\<lparr>lf_errors := lf_errors K @ [(map_option jobId mb, map_option attemptsMade mb, m)]\<rparr>" for K :: "('a, 'b) life"
      using out(2) Some f by (cases mb) (auto simp: on_failed_def handleFailed_def)
    then show ?thesis using job_round_eq [OF L run st] L' out(1) Some by simp
  qed
qed

end

text \<open>What can still happen to a delivery that is DELIVERING without a job: nothing.\<close>

definition run_ticks :: "config \<Rightarrow> ('p queue_api \<times> tick_env \<times> 'p) list \<Rightarrow> db \<Rightarrow> db" where
  "run_ticks cfg ticks s = fold (\<lambda>(Q, env, q) s. snd (tick cfg Q env q s)) ticks s"

lemma tick_keeps_status:
  "map_option d_status (find_delivery (snd (tick cfg Q env q s)) i) = map_option d_status (find_delivery s i)"
proof -
  obtain r q' s' where run: "claimUnenqueued cfg Q (te_fate env) (te_now env) (te_scan env)
      (nat (RECONCILER_BATCH_SIZE cfg)) q s = (r, q', s')" by (metis prod_cases3)
  then have "snd (tick cfg Q env q s) = s'" by (simp add: tick_def)
  then show ?thesis
    using claimUnenqueued_db [OF run] by (auto simp: find_delivery_fold_mark option.map_comp o_def)
qed

lemma run_ticks_status:
  "map_option d_status (find_delivery (run_ticks cfg ticks s) i) = map_option d_status (find_delivery s i)"
  unfolding run_ticks_def by (induction ticks arbitrary: s) (auto simp: tick_keeps_status)

lemma delivering_not_claimed:
  assumes "map_option d_status (find_delivery s i) = Some DELIVERING"
  shows "i \<notin> set (claim_select cfg now scan limit s)"
  using assms by (auto simp: claim_select_def due_def needs_recovery_def dest!: in_set_takeD)

lemma delivering_not_retried:
  assumes "map_option d_status (find_delivery s i) = Some DELIVERING" and "uin raw = Some i"
  shows "snd (retryFromDlq uin fate now raw s) = s"
proof -
  obtain r s' where run: "retryFromDlq uin fate now raw s = (r, s')" by fastforce
  then show ?thesis using retryFromDlq_shape [OF run] assms by auto
qed

subsection \<open>Pickups without infrastructure faults\<close>

definition clean_env :: "'r run_env \<Rightarrow> bool" where
  "clean_env env \<longleftrightarrow> (\<forall>site. en_fault env site = None) \<and> (\<forall>site. en_tx env site = Tx_ok) \<and> en_beats env = []"

lemma shas_breaker [simp]:
  "shas (recordFailure R cfg now e c) = shas c" "shas (onProbeResult R cfg now e ok c) = shas c"
  "shas (releaseBucketToken R cfg now e c) = shas c" "shas (snd (checkState R cfg now e c)) = shas c"
  "shas (snd (acquire R cfg now tok i c)) = shas c"
  by (simp_all add: recordFailure_def onProbeResult_def releaseBucketToken_def checkState_def acquire_def Let_def
      split_beta split: option.splits)

lemma shas_bookkeeping [simp]: "shas (breaker_bookkeeping R cfg now e bs oc c) = shas c"
  by (simp add: breaker_bookkeeping_def)

text \<open>An attempt is recorded, as a success or as a failure that the run throws.\<close>

definition attempted :: "flow \<Rightarrow> db \<Rightarrow> string \<Rightarrow> int \<Rightarrow> bool" where
  "attempted fl s i n \<longleftrightarrow> db_inv s \<and> (\<exists>row. find_delivery s i = Some row \<and> d_attempt_count row = n \<and>
     (fl = Return \<and> d_status row = DELIVERED \<or> (\<exists>m. fl = Throw (ErrorExn m)) \<and> d_status row = FAILED))"

lemma record_next:
  assumes "db_inv s" and "find_delivery s (ra_deliveryId input) = Some d"
    and "ra_attemptNumber input = d_attempt_count d + 1" and "d_attempt_count d < int4_max"
    and "ra_toStatus input = DELIVERED \<longleftrightarrow> ra_outcome input = SUCCESS"
  obtains s' row where "recordAttempt Tx_ok now input s = (Inr (), s')" "db_inv s'"
    "find_delivery s' (ra_deliveryId input) = Some row" "d_status row = ra_toStatus input"
    "d_attempt_count row = ra_attemptNumber input"
  using recordAttempt_step [OF assms, of now] assms(3) by force

lemma clean_attempt:
  assumes inv: "db_inv (wd_db w)" and d: "workable (wd_db w) (deliveryId job) d" "w_attemptCount d < int4_max"
    and env: "clean_env env"
    and run: "attempt_delivery R cfg hm env job tok d (w_attemptCount d + 1) bs w = (fl, w')"
  shows "attempted fl (wd_db w') (deliveryId job) (w_attemptCount d + 1) \<and> shas (wd_redis w') = shas (wd_redis w)"
proof -
  let ?i = "deliveryId job" and ?n = "w_attemptCount d + 1"
  have clean: "en_fault env site = None" "en_tx env site = Tx_ok" "en_beats env = []" for site
    using env by (simp_all add: clean_env_def)
  then have fault: "(if P then en_fault env At_breaker else None) = None" for P by simp
  obtain row where row: "find_delivery (wd_db w) ?i = Some row" "w_attemptCount d = d_attempt_count row"
    using getForDelivery_row [of "wd_db w" ?i d] d(1) by (auto simp: workable_def)
  obtain s1 where tr: "transition Tx_ok (wd_now w) ?i (w_status d) DELIVERING Worker
      (''attempt_'' @ string_of_int ?n) (wd_db w) = (Inr (), s1)"
    using transition_ok [OF find_row_known [OF row(1)]] by blast
  have s1: "db_inv s1" "find_delivery s1 ?i = Some (status_update (wd_now w) DELIVERING row)"
    using transition_inv [OF inv _ tr] transition_row [OF tr] row(1) by simp_all
  let ?req = "outbound_request hm (ms_now w) ?i ?n d"
  let ?ar = "attempt_result_of cfg False (deliver cfg (en_http env ?req))"
  let ?in = "attempt_input cfg (en_random env) ?i ?n (ms_now w) (date_of_ts (en_http_done env)) ?ar"
  have pre: "find_delivery s1 (ra_deliveryId ?in) = Some (status_update (wd_now w) DELIVERING row)"
      "ra_attemptNumber ?in = d_attempt_count (status_update (wd_now w) DELIVERING row) + 1"
      "d_attempt_count (status_update (wd_now w) DELIVERING row) < int4_max"
      "ra_toStatus ?in = DELIVERED \<longleftrightarrow> ra_outcome ?in = SUCCESS"
    using s1(2) row(2) d(2) by (simp_all add: status_update_def)
  obtain s2 row' where s2: "recordAttempt Tx_ok (en_http_done env) ?in s1 = (Inr (), s2)" "db_inv s2"
      "find_delivery s2 (ra_deliveryId ?in) = Some row'" "d_status row' = ra_toStatus ?in"
      "d_attempt_count row' = ra_attemptNumber ?in"
    by (rule record_next [OF s1(1) pre])
  have "fl = (if ar_outcome ?ar \<noteq> SUCCESS then Throw (ErrorExn (ar_reason ?ar)) else Return) \<and> wd_db w' = s2 \<and>
      shas (wd_redis w') = shas (wd_redis w)"
    using run tr s2(1) by (auto simp: attempt_delivery_def fault clean Let_def ms_now_def)
  then show ?thesis using s2(2-5) by (auto simp: attempted_def)
qed

lemma clean_fail_fast:
  assumes inv: "db_inv (wd_db w)" and d: "workable (wd_db w) (deliveryId job) d" "w_attemptCount d < int4_max"
    and env: "clean_env env" and run: "fail_fast cfg env job (w_attemptCount d + 1) (w_status d) w = (fl, w')"
  shows "attempted fl (wd_db w') (deliveryId job) (w_attemptCount d + 1) \<and> wd_redis w' = wd_redis w"
proof -
  obtain row where row: "find_delivery (wd_db w) (deliveryId job) = Some row" "w_attemptCount d = d_attempt_count row"
    using getForDelivery_row [of "wd_db w" "deliveryId job" d] d(1) by (auto simp: workable_def)
  let ?in = "circuit_open_input cfg (en_random env) (deliveryId job) (w_attemptCount d + 1) (ms_now w) (w_status d)"
  have pre: "find_delivery (wd_db w) (ra_deliveryId ?in) = Some row" "ra_attemptNumber ?in = d_attempt_count row + 1"
      "d_attempt_count row < int4_max" "ra_toStatus ?in = DELIVERED \<longleftrightarrow> ra_outcome ?in = SUCCESS"
    using row d(2) by simp_all
  obtain s2 row' where "recordAttempt Tx_ok (wd_now w) ?in (wd_db w) = (Inr (), s2)" "db_inv s2"
      "find_delivery s2 (ra_deliveryId ?in) = Some row'" "d_status row' = ra_toStatus ?in"
      "d_attempt_count row' = ra_attemptNumber ?in"
    by (rule record_next [OF inv pre])
  then show ?thesis using run env by (auto simp: fail_fast_def clean_env_def attempted_def)
qed

text \<open>
  A pickup in order: nobody has touched the delivery since the last one, its endpoint is active, the
  lock is free and the bucket has a token, and neither PostgreSQL nor Redis nor BullMQ fails. The
  breaker may be in any state and the endpoint may answer anything.
\<close>

definition in_order ::
  "('r \<Rightarrow> keyspace) \<Rightarrow> (lua_script \<Rightarrow> string) \<Rightarrow> config \<Rightarrow> 'q queue_api \<Rightarrow> 'r round \<Rightarrow> ('r, 'q) life \<Rightarrow> bool" where
  "in_order ks sha1 cfg Q rn L \<longleftrightarrow>
     (let w = before_round rn (lf_world L); i = deliveryId (lj_job (lf_job L)); m = ks (conn (wd_redis w))
      in db_inv (wd_db w) \<and> find_delivery (wd_db w) i = find_delivery (wd_db (lf_world L)) i \<and>
         (case getForDelivery (wd_db w) i of
            None \<Rightarrow> False
          | Some d \<Rightarrow> w_endpointActive d \<and> w_attemptCount d < int4_max \<and>
                      bucket_ok cfg m (w_endpointId d) \<and> 0 < tokens_at cfg m (ms_now w) (w_endpointId d)) \<and>
         client_ready sha1 (wd_redis w) \<and> live m (ms_now w) (lockKey i) = None \<and> clean_env (rn_run rn) \<and>
         fe_read_fault (rn_failed rn) = None \<and> fe_fate (rn_failed rn) = Tx_ok \<and>
         fe_last_fault (rn_failed rn) = None \<and> (\<exists>q. q_add Q (lf_queue L) ''dlq'' i i = Inr q))"

text \<open>The frame of the breaker's keys.\<close>

lemma bucket_probe_frame [simp]:
  "tokens_at cfg (m(probeKey e' := x)) now e = tokens_at cfg m now e"
  "bucket_ok cfg (m(probeKey e' := x)) e = bucket_ok cfg m e"
proof -
  have "probeKey e' \<noteq> bucketKey e" by (simp add: probeKey_def bucketKey_def)
  then show "tokens_at cfg (m(probeKey e' := x)) now e = tokens_at cfg m now e"
    "bucket_ok cfg (m(probeKey e' := x)) e = bucket_ok cfg m e"
    by (simp_all add: tokens_at_def bucket_at_def bucket_ok_def)
qed

lemma clean_finally:
  assumes R: "redis_service R ks scripts sha1" and ready: "client_ready sha1 (wd_redis w)"
    and env: "clean_env env" and "fl \<noteq> Crash"
  shows "\<exists>w'. process_finally R cfg env job tok (fl, b, w) = (fl, w') \<and> wd_db w' = wd_db w"
proof -
  have clean: "en_fault env site = None" for site using env by (simp add: clean_env_def)
  have rel: "\<exists>x c'. release R now i tok c = (Inr x, c')" if "client_ready sha1 c" for c now i
    using redis_service.release_effect(1) [OF R that prod.collapse [symmetric]] by (metis prod.collapse)
  define c where "c = (case b of Some e \<Rightarrow> if e = [] then wd_redis w else
      releaseBucketToken R cfg (ms_now w) e (wd_redis w) | None \<Rightarrow> wd_redis w)"
  have "client_ready sha1 c" using ready by (auto simp: c_def client_ready_def split: option.split)
  then obtain x c' where "release R (ms_now w) (deliveryId job) tok c = (Inr x, c')" using rel by blast
  then show ?thesis
    using assms(4) by (auto simp: process_finally_def clean c_def ms_now_def split: option.splits if_splits)
qed

lemma clean_run:
  fixes R :: "'r redis_api"
  assumes R: "redis_service R ks scripts sha1" and ready: "client_ready sha1 (wd_redis w)"
    and free: "live (ks (conn (wd_redis w))) (ms_now w) (lockKey (deliveryId job)) = None"
    and pos: "0 < RL_MAX_INFLIGHT cfg"
    and bk: "bucket_ok cfg (ks (conn (wd_redis w))) (w_endpointId d)"
      "0 < tokens_at cfg (ks (conn (wd_redis w))) (ms_now w) (w_endpointId d)"
    and inv: "db_inv (wd_db w)" and d: "workable (wd_db w) (deliveryId job) d" "w_attemptCount d < int4_max"
    and act: "w_endpointActive d" and env: "clean_env env"
    and run: "processDelivery R cfg hm env job w = (fl, w')"
  shows "attempted fl (wd_db w') (deliveryId job) (w_attemptCount d + 1)"
proof -
  let ?i = "deliveryId job" and ?e = "w_endpointId d" and ?n = "w_attemptCount d + 1" and ?now = "ms_now w"
  have clean: "en_fault env site = None" for site using env by (simp add: clean_env_def)
  have now: "ms_now (w\<lparr>wd_redis := x\<rparr>) = ?now" for x by (simp add: ms_now_def)
  obtain lk c where acq: "acquire R cfg ?now (en_token env) ?i (wd_redis w) = (lk, c)" by fastforce
  note got = redis_service.acquire_effect [OF R acq]
  obtain bs c1 where chk: "checkState R cfg ?now ?e c = (bs, c1)" by fastforce
  have c1: "client_ready sha1 c1" using got(4) ready shas_breaker(4) [of R cfg ?now ?e c] chk by (simp add: client_ready_def)
  obtain fl0 b w2 where body: "process_try R cfg hm env job (token lk) (w\<lparr>wd_redis := c\<rparr>) = (fl0, b, w2)"
    by (metis prod_cases3)
  have "attempted fl0 (wd_db w2) ?i ?n \<and> client_ready sha1 (wd_redis w2)"
  proof (cases "bs = Open")
    case True
    obtain fl1 w1 where ff: "fail_fast cfg env job ?n (w_status d) (w\<lparr>wd_redis := c1\<rparr>) = (fl1, w1)" by fastforce
    have "attempted fl1 (wd_db w1) ?i ?n \<and> wd_redis w1 = c1"
      using clean_fail_fast [OF _ _ d(2) env ff] inv d(1) by simp
    then show ?thesis
      using body True chk ff d(1) act c1 by (auto simp: process_try_def clean workable_def now Let_def)
  next
    case False
    obtain res c2 where take: "tryAcquire R cfg ?now ?e c1 = (res, c2)" by fastforce
    have ks1: "ks (conn c1) = (ks (conn c))(probeKey ?e := ks (conn c1) (probeKey ?e))"
      using redis_service.checkState_effect(1) [OF R, of cfg ?now ?e c] chk by (auto simp: fun_eq_iff split: if_splits)
    have "bucket_ok cfg (ks (conn c1)) ?e" "0 < tokens_at cfg (ks (conn c1)) ?now ?e"
      using bk got(2,3) free by (subst ks1; simp)+
    then have res: "res = Inr True" and c2: "client_ready sha1 c2"
      using redis_service.tryAcquire_effect [OF R c1 _ take pos] by simp_all
    obtain fl1 w1 where at: "attempt_delivery R cfg hm env job (token lk) d ?n bs (w\<lparr>wd_redis := c2\<rparr>) = (fl1, w1)"
      by fastforce
    have "attempted fl1 (wd_db w1) ?i ?n \<and> client_ready sha1 (wd_redis w1)"
      using clean_attempt [OF _ _ d(2) env at] inv d(1) c2 by (simp add: client_ready_def)
    then show ?thesis
      using body False chk take res at d(1) act by (auto simp: process_try_def clean workable_def now Let_def)
  qed
  then have rec: "attempted fl0 (wd_db w2) ?i ?n" and w2: "client_ready sha1 (wd_redis w2)" by auto
  then have "fl0 \<noteq> Crash" by (auto simp: attempted_def)
  from clean_finally [OF R w2 env this, of cfg job "token lk" b] obtain w3
    where fin: "process_finally R cfg env job (token lk) (fl0, b, w2) = (fl0, w3)" "wd_db w3 = wd_db w2" by auto
  have "acquired lk" using got(2) free by simp
  then have "fl = fl0 \<and> w' = w3" using run acq body fin(1) by (simp add: processDelivery_def clean)
  then show ?thesis using rec fin(2) by simp
qed

subsection \<open>Every delivery is finished\<close>

primrec in_order_life ::
  "('r \<Rightarrow> keyspace) \<Rightarrow> (lua_script \<Rightarrow> string) \<Rightarrow> settle_fn \<Rightarrow> 'r redis_api \<Rightarrow> config \<Rightarrow> hmac \<Rightarrow> 'q queue_api \<Rightarrow>
   'r round list \<Rightarrow> ('r, 'q) life \<Rightarrow> bool"
where
  "in_order_life ks sha1 settle R cfg hm Q [] L = True"
| "in_order_life ks sha1 settle R cfg hm Q (rn # rns) L =
     ((if terminal (lj_state (lf_job L)) then True else in_order ks sha1 cfg Q rn L) \<and>
      in_order_life ks sha1 settle R cfg hm Q rns (job_round settle R cfg hm Q rn L))"

text \<open>The state of a job that goes on, after \<open>k\<close> attempts, and of one that has come to its end.\<close>

definition going_on :: "config \<Rightarrow> string \<Rightarrow> int \<Rightarrow> dlq_alert list \<Rightarrow> int \<Rightarrow> ('r, 'q) life \<Rightarrow> bool" where
  "going_on cfg i a0 al0 k L \<longleftrightarrow> \<not> terminal (lj_state (lf_job L)) \<and> deliveryId (lj_job (lf_job L)) = i \<and>
     attemptsMade (lj_job (lf_job L)) = k \<and> k < int (length (BACKOFF_BASE_MS cfg)) \<and> lf_alerts L = al0 \<and>
     (\<exists>row. find_delivery (wd_db (lf_world L)) i = Some row \<and> d_attempt_count row = a0 + k \<and>
        d_status row \<noteq> DELIVERED \<and> d_status row \<noteq> DLQ)"

definition came_to_end :: "config \<Rightarrow> string \<Rightarrow> int \<Rightarrow> dlq_alert list \<Rightarrow> ('r, 'q) life \<Rightarrow> bool" where
  "came_to_end cfg i a0 al0 L \<longleftrightarrow>
     (\<exists>row. find_delivery (wd_db (lf_world L)) i = Some row \<and>
       (lj_state (lf_job L) = Completed \<and> d_status row = DELIVERED \<and> a0 < d_attempt_count row \<and>
          d_attempt_count row \<le> a0 + int (length (BACKOFF_BASE_MS cfg)) \<and> lf_alerts L = al0 \<or>
        lj_state (lf_job L) = Failed_job \<and> d_status row = DLQ \<and>
          d_attempt_count row = a0 + int (length (BACKOFF_BASE_MS cfg)) \<and>
          (\<exists>al. lf_alerts L = al0 @ [al] \<and> al_delivery_id al = i)))"

lemma on_failed_early:
  assumes "attemptsMade b < int (length (BACKOFF_BASE_MS cfg))"
  shows "lf_alerts (on_failed cfg Q fe (Some b, m) L) = lf_alerts L"
    and "wd_db (lf_world (on_failed cfg Q fe (Some b, m) L)) = wd_db (lf_world L)"
  using assms by (simp_all add: on_failed_def handleFailed_def)

lemma on_failed_last:
  assumes "db_inv (wd_db (lf_world L))" and "find_delivery (wd_db (lf_world L)) (deliveryId b) = Some row"
    and "d_status row \<noteq> DLQ" and "fe_read_fault fe = None" "fe_fate fe = Tx_ok" "fe_last_fault fe = None"
    and "q_add Q (lf_queue L) ''dlq'' (deliveryId b) (deliveryId b) = Inr q"
    and "int (length (BACKOFF_BASE_MS cfg)) \<le> attemptsMade b"
  shows "\<exists>row' al. find_delivery (wd_db (lf_world (on_failed cfg Q fe (Some b, m) L))) (deliveryId b) = Some row' \<and>
    d_status row' = DLQ \<and> d_attempt_count row' = d_attempt_count row \<and>
    lf_alerts (on_failed cfg Q fe (Some b, m) L) = lf_alerts L @ [al] \<and> al_delivery_id al = deliveryId b"
proof -
  let ?j = "\<lparr>fj_deliveryId = deliveryId b, fj_attemptsMade = attemptsMade b\<rparr>"
  let ?w = "\<lparr>dw_db = wd_db (lf_world L), dw_queue = lf_queue L, dw_log = lf_alerts L, dw_posts = lf_posts L\<rparr>"
  have "db_inv (dw_db ?w)" "find_delivery (dw_db ?w) (fj_deliveryId ?j) = Some row"
      "q_add Q (dw_queue ?w) ''dlq'' (fj_deliveryId ?j) (fj_deliveryId ?j) = Inr q"
      "int (length (BACKOFF_BASE_MS cfg)) \<le> fj_attemptsMade ?j"
    using assms by simp_all
  from handleFailed_last [OF this(1,2) assms(3-6) this(3) refl this(4)]
  show ?thesis by (auto simp: on_failed_def Let_def)
qed

context bull_worker
begin

lemma job_round_in_order:
  fixes R :: "'r redis_api" and L :: "('r, 'q) life"
  assumes R: "redis_service R ks scripts sha1" and pos: "0 < RL_MAX_INFLIGHT cfg"
    and L: "going_on cfg i a0 al0 k L" and ok: "in_order ks sha1 cfg Q rn L"
    and a0: "0 \<le> k"
  shows "came_to_end cfg i a0 al0 (job_round settle R cfg hm Q rn L) \<or>
    going_on cfg i a0 al0 (k + 1) (job_round settle R cfg hm Q rn L)"
proof -
  let ?w = "before_round rn (lf_world L)" and ?j = "lf_job L" and ?n = "int (length (BACKOFF_BASE_MS cfg))"
  have live: "\<not> terminal (lj_state ?j)" and i: "deliveryId (lj_job ?j) = i" and k: "attemptsMade (lj_job ?j) = k" "k < ?n"
    and al: "lf_alerts L = al0" using L by (simp_all add: going_on_def)
  obtain row where row: "find_delivery (wd_db (lf_world L)) i = Some row" "d_attempt_count row = a0 + k"
      "d_status row \<noteq> DELIVERED" "d_status row \<noteq> DLQ" using L by (auto simp: going_on_def)
  obtain d where d: "getForDelivery (wd_db ?w) i = Some d" "w_endpointActive d" "w_attemptCount d < int4_max"
      "bucket_ok cfg (ks (conn (wd_redis ?w))) (w_endpointId d)"
      "0 < tokens_at cfg (ks (conn (wd_redis ?w))) (ms_now ?w) (w_endpointId d)"
    and w: "db_inv (wd_db ?w)" "find_delivery (wd_db ?w) i = Some row" "client_ready sha1 (wd_redis ?w)"
      "live (ks (conn (wd_redis ?w))) (ms_now ?w) (lockKey i) = None" "clean_env (rn_run rn)"
    and fe: "fe_read_fault (rn_failed rn) = None" "fe_fate (rn_failed rn) = Tx_ok" "fe_last_fault (rn_failed rn) = None"
    and q: "\<exists>q. q_add Q (lf_queue L) ''dlq'' i i = Inr q"
    using ok i row(1) by (auto simp: in_order_def Let_def split: option.splits)
  have wk: "workable (wd_db ?w) i d" "w_attemptCount d = a0 + k"
    using getForDelivery_row [OF d(1)] d(1) w(2) row by (auto simp: workable_def)
  obtain fl w1 where run: "processDelivery R cfg hm (rn_run rn) (lj_job ?j) ?w = (fl, w1)" by fastforce
  have att: "attempted fl (wd_db w1) i (a0 + k + 1)"
    using clean_run [OF R w(3) _ pos d(4,5) w(1) _ d(3,2) w(5) run] w(4) wk i by (simp add: add.assoc)
  then obtain row1 where row1: "db_inv (wd_db w1)" "find_delivery (wd_db w1) i = Some row1"
      "d_attempt_count row1 = a0 + k + 1" by (auto simp: attempted_def)
  obtain j ev where st: "settle (defaultJobOptions cfg) (workerOptions cfg)
      (backoffStrategy cfg (en_random (rn_run rn))) (ms_now w1) (run_end_of fl) ?j = (j, ev)" by fastforce
  have ji: "deliveryId (lj_job j) = i" using keeps_id [OF st] i by simp
  consider "fl = Return" "d_status row1 = DELIVERED" | m where "fl = Throw (ErrorExn m)" "d_status row1 = FAILED"
    using att row1(2) by (auto simp: attempted_def)
  then show ?thesis
  proof cases
    case 1
    then have "lj_state j = Completed" "ev = None" using resolved [of _ _ _ _ ?j j ev] st by auto
    then have "came_to_end cfg i a0 al0 (job_round settle R cfg hm Q rn L)"
      using job_round_eq [OF live run st] row1 1(2) k a0 al by (simp add: came_to_end_def)
    then show ?thesis ..
  next
    case (2 m)
    then have "run_end_of fl = Failed_with (ErrorExn m)" by simp
    note f = failed [OF st [unfolded this]]
    then obtain msg where ev: "ev = Some (Some (lj_job j), msg)" by blast
    note round = job_round_eq [OF live run st]
    let ?L1 = "L\<lparr>lf_world := w1, lf_job := j\<rparr>"
    show ?thesis
    proof (cases "k + 1 < ?n")
      case True
      then have "going_on cfg i a0 al0 (k + 1) (job_round settle R cfg hm Q rn L)"
        using f ev round k ji al row1 2(2) on_failed_early [of "lj_job j" cfg Q "rn_failed rn" msg ?L1]
        by (auto simp: going_on_def terminal_def defaultJobOptions_def)
      then show ?thesis ..
    next
      case False
      then have n: "k + 1 = ?n" using k(2) by simp
      obtain q' where q': "q_add Q (lf_queue ?L1) ''dlq'' (deliveryId (lj_job j)) (deliveryId (lj_job j)) = Inr q'"
        using q ji by auto
      have "\<exists>row' al. find_delivery (wd_db (lf_world (on_failed cfg Q (rn_failed rn) (Some (lj_job j), msg) ?L1))) i = Some row' \<and>
          d_status row' = DLQ \<and> d_attempt_count row' = d_attempt_count row1 \<and>
          lf_alerts (on_failed cfg Q (rn_failed rn) (Some (lj_job j), msg) ?L1) = lf_alerts L @ [al] \<and> al_delivery_id al = i"
        using on_failed_last [OF _ _ _ fe q', of row1 cfg msg] row1 ji 2(2) f k(1) n by simp
      then have "came_to_end cfg i a0 al0 (job_round settle R cfg hm Q rn L)"
        using round ev f k n al row1 by (auto simp: came_to_end_def defaultJobOptions_def)
      then show ?thesis ..
    qed
  qed
qed

lemma job_life_in_order:
  fixes R :: "'r redis_api" and L :: "('r, 'q) life"
  assumes R: "redis_service R ks scripts sha1" and pos: "0 < RL_MAX_INFLIGHT cfg"
    and "in_order_life ks sha1 settle R cfg hm Q rns L"
    and "going_on cfg i a0 al0 k L" and "0 \<le> k" and "int (length (BACKOFF_BASE_MS cfg)) \<le> k + int (length rns)"
  shows "came_to_end cfg i a0 al0 (job_life settle R cfg hm Q rns L)"
  using assms(3-)
proof (induction rns arbitrary: L k)
  case Nil
  then show ?case by (simp add: going_on_def)
next
  case (Cons rn rns)
  let ?L = "job_round settle R cfg hm Q rn L"
  have "in_order ks sha1 cfg Q rn L" using Cons.prems(1,2) by (simp add: going_on_def)
  from job_round_in_order [OF R pos Cons.prems(2) this Cons.prems(3), of hm] show ?case
  proof
    assume ended: "came_to_end cfg i a0 al0 ?L"
    then have "terminal (lj_state (lf_job ?L))" by (auto simp: came_to_end_def terminal_def)
    then show ?thesis using ended by (simp add: job_life_terminal)
  next
    assume "going_on cfg i a0 al0 (k + 1) ?L"
    then show ?thesis using Cons.IH [of ?L "k + 1"] Cons.prems by simp
  qed
qed

end

subsection \<open>Properties\<close>


definition once_config :: config where
  "once_config = default_config\<lparr>BACKOFF_BASE_MS := [10000]\<rparr>"

definition demo_life :: "(mem_state, mem_queue_state) life" where
  "demo_life = \<lparr>lf_world = demo_world,
     lf_job = \<lparr>lj_job = demo_job, lj_stalled = 0, lj_state = Waiting, lj_due = 0\<rparr>,
     lf_queue = [], lf_alerts = [], lf_posts = [], lf_errors = []\<rparr>"

definition demo_round :: "mem_state round" where
  "demo_round = \<lparr>rn_db = id, rn_redis = id, rn_now = wd_now demo_world,
     rn_run = demo_env\<lparr>en_http := (\<lambda>_. Response 503 ''busy'')\<rparr>, rn_failed = demo_failed_env\<rparr>"

lemma demo_round_in_order: "in_order mem_ks mem_sha1 once_config mem_queue demo_round demo_life"
proof -
  let ?w = "before_round demo_round demo_world"
  have w: "wd_db ?w = demo_db" "mem_ks (conn (wd_redis ?w)) = Map.empty" "client_ready mem_sha1 (wd_redis ?w)"
    by (simp_all add: demo_round_def demo_world_def mem_client_def mem_empty_def client_ready_def)
  obtain d where d: "getForDelivery demo_db ''d1'' = Some d" "w_endpointActive d" "w_attemptCount d = 0"
    by (simp add: getForDelivery_def demo_db_def)
  have "clean_env (rn_run demo_round)" by (simp add: demo_round_def demo_env_def clean_env_def)
  moreover have "bucket_ok once_config Map.empty e" "0 < tokens_at once_config Map.empty t e" for e t
    by (simp_all add: bucket_ok_def tokens_at_def bucket_at_def live_def once_config_def default_config_def)
  moreover have "\<exists>q. q_add mem_queue [] ''dlq'' ''d1'' ''d1'' = Inr q" by (simp add: mem_queue_def mem_queue_add_def)
  ultimately show ?thesis
    using w d by (simp add: in_order_def demo_life_def demo_job_def Let_def demo_db_inv live_def int4_max_def
        demo_round_def demo_failed_env_def demo_world_def)
qed


text \<open>
  C21: the budget of a job. Whatever fails, one job sends at most as many requests as it has attempts
  and one more for a stalled run: a pickup that is put off sends nothing, every other one uses up an
  attempt or a stall.
\<close>

theorem job_request_bound:
  fixes R :: "'r redis_api" and Q :: "'q queue_api"
  assumes "bull_worker settle" and "BACKOFF_BASE_MS cfg \<noteq> []"
    and "\<And>rn. rn \<in> set rns \<Longrightarrow> own_delays R (rn_run rn)"
    and "attemptsMade (lj_job (lf_job L)) = 0" and "lj_stalled (lf_job L) = 0"
  shows "length (wd_sent (lf_world (job_life settle R cfg hm Q rns L)))
    \<le> length (wd_sent (lf_world L)) + length (BACKOFF_BASE_MS cfg) + 1"
  by (rule bull_worker.job_life_requests [OF assms])

lemma lua_run_not_delayed: "fst (lua_run R sc now key args r) \<noteq> Inl DelayedError"
  by (induction R sc now key args r rule: lua_run.induct)
    (auto simp: release_lock_lua_def extend_lock_lua_def token_bucket_lua_def Let_def split: option.splits prod.splits)

lemma mem_evalsha_not_delayed: "fst (rd_evalsha mem_redis r now sha key args) \<noteq> Inl DelayedError"
  by (auto simp: mem_redis_def lua_run_not_delayed split: option.split)

theorem job_request_bound_witness:
  "length (wd_sent (lf_world (job_life mem_settle mem_redis default_config (\<lambda>_ _. ''h'') mem_queue
     (replicate 20 demo_round) demo_life))) \<le> 6"
proof -
  have own: "own_delays mem_redis (rn_run rn)" if "rn \<in> set (replicate 20 demo_round)" for rn
    using that mem_evalsha_not_delayed by (simp add: own_delays_def demo_round_def demo_env_def)
  have start: "BACKOFF_BASE_MS default_config \<noteq> []" "attemptsMade (lj_job (lf_job demo_life)) = 0"
      "lj_stalled (lf_job demo_life) = 0" and len: "length (BACKOFF_BASE_MS default_config) = 5"
      "length (wd_sent (lf_world demo_life)) = 0"
    by (simp_all add: demo_life_def demo_job_def demo_world_def default_config_def)
  show ?thesis
    using job_request_bound [OF mem_bull.bull_worker_axioms start(1) own start(2,3),
        of "replicate 20 demo_round" "\<lambda>_ _. ''h''" mem_queue] len by linarith
qed

text \<open>
  C38: a delivery whose worker dies twice is lost. BullMQ fails a job that stalls more than
  \<open>maxStalledCount\<close> times although it has attempts left; the DLQ handler ignores such a failure, so no
  alert is raised and the delivery stays DELIVERING. No later sweep of the reconciler claims it or
  changes its status, and the manual retry refuses it.
\<close>

theorem stalled_delivery_lost:
  fixes R :: "'r redis_api" and Q :: "'q queue_api" and ticks :: "('p queue_api \<times> tick_env \<times> 'p) list"
  assumes "bull_worker settle" and "\<not> terminal (lj_state (lf_job L))" and "1 \<le> lj_stalled (lf_job L)"
    and "attemptsMade (lj_job (lf_job L)) + 1 < int (length (BACKOFF_BASE_MS cfg))"
    and "processDelivery R cfg hm (rn_run rn) (lj_job (lf_job L)) (before_round rn (lf_world L)) = (Crash, w)"
    and "L' = job_round settle R cfg hm Q rn L" and "i = deliveryId (lj_job (lf_job L))"
    and "s = run_ticks cfg ticks (wd_db (lf_world L'))"
  shows "lj_state (lf_job L') = Failed_job \<and> lf_alerts L' = lf_alerts L \<and>
    map_option d_status (find_delivery s i) = Some DELIVERING \<and>
    i \<notin> set (claim_select cfg now scan limit s) \<and>
    (uin raw = Some i \<longrightarrow> snd (retryFromDlq uin fate now' raw s) = s)"
proof -
  have out: "lj_state (lf_job L') = Failed_job" "lf_alerts L' = lf_alerts L" "wd_db (lf_world L') = wd_db w"
    using bull_worker.stalled_out_round [OF assms(1-6)] by simp_all
  have "map_option d_status (find_delivery (wd_db w) i) = Some DELIVERING"
    using crash_leaves_delivering [OF assms(5)] assms(7) by auto
  then have st: "map_option d_status (find_delivery s i) = Some DELIVERING"
    using assms(8) out(3) by (simp add: run_ticks_status)
  then show ?thesis using out(1,2) delivering_not_claimed [OF st] delivering_not_retried [OF st, of uin] by blast
qed

text \<open>A beat while the extend script is not available ends the process.\<close>

definition short_config :: config where
  "short_config = default_config\<lparr>LOCK_TTL_MS := 50\<rparr>"

definition dying_round :: "mem_state round" where
  "dying_round = demo_round\<lparr>rn_redis := (\<lambda>c. c\<lparr>shas := (shas c)(Extend_lock := None)\<rparr>),
     rn_run := demo_env\<lparr>en_beats := [(5500, id)]\<rparr>\<rparr>"

lemma dying_round_crashes:
  "fst (processDelivery mem_redis short_config (\<lambda>_ _. ''h'') (rn_run dying_round) demo_job
     (before_round dying_round demo_world)) = Crash"
  by code_simp

theorem stalled_delivery_lost_witness:
  "map_option d_status (find_delivery (run_ticks short_config ([] :: (mem_queue_state queue_api \<times> tick_env \<times> mem_queue_state) list)
     (wd_db (lf_world (job_round mem_settle mem_redis short_config (\<lambda>_ _. ''h'') mem_queue dying_round
       (demo_life\<lparr>lf_job := (lf_job demo_life)\<lparr>lj_stalled := 1\<rparr>\<rparr>))))) ''d1'') = Some DELIVERING"
proof -
  let ?L = "demo_life\<lparr>lf_job := (lf_job demo_life)\<lparr>lj_stalled := 1\<rparr>\<rparr>"
  have L: "\<not> terminal (lj_state (lf_job ?L))" "1 \<le> lj_stalled (lf_job ?L)" "lj_job (lf_job ?L) = demo_job"
      "lf_world ?L = demo_world" "attemptsMade (lj_job (lf_job ?L)) + 1 < int (length (BACKOFF_BASE_MS short_config))"
    by (simp_all add: demo_life_def terminal_def demo_job_def short_config_def default_config_def)
  obtain w where "processDelivery mem_redis short_config (\<lambda>_ _. ''h'') (rn_run dying_round) (lj_job (lf_job ?L))
      (before_round dying_round (lf_world ?L)) = (Crash, w)"
    using dying_round_crashes L(3,4) by (metis prod.collapse)
  from stalled_delivery_lost [OF mem_bull.bull_worker_axioms L(1,2,5) this refl refl refl,
      where ticks = "[] :: (mem_queue_state queue_api \<times> tick_env \<times> mem_queue_state) list" and Q = mem_queue]
  have "map_option d_status (find_delivery (run_ticks short_config ([] :: (mem_queue_state queue_api \<times> tick_env \<times> mem_queue_state) list)
     (wd_db (lf_world (job_round mem_settle mem_redis short_config (\<lambda>_ _. ''h'') mem_queue dying_round ?L))))
       (deliveryId (lj_job (lf_job ?L)))) = Some DELIVERING" by blast
  then show ?thesis by (simp only: L(3) demo_job_def bull_job.select_convs)
qed

end
