(* ===== verification/Json_Parse.thy ===== *)
theory Json_Parse
  imports Js_Lib
begin

text \<open>
  \<open>JSON.parse\<close>, as the sources use it on cursors and on request bodies. The parser works on the UTF-8
  bytes of the text; an escaped surrogate without its partner becomes U+FFFD, as it does when such a
  string leaves the process. A number keeps the text of its literal. An object keeps its members in
  the order of the text, and the last member of a name is its value (\<open>obj_get\<close>). The descent carries
  fuel; \<open>json_parse_enough\<close> shows that the fuel \<open>json_parse\<close> supplies never runs out.
\<close>

definition is_ws :: "char \<Rightarrow> bool" where
  "is_ws c \<longleftrightarrow> of_char c \<in> {9, 10, 13, 32 :: nat}"

definition skip_ws :: "string \<Rightarrow> string" where
  "skip_ws s = dropWhile is_ws s"

subsection \<open>Strings\<close>

text \<open>The UTF-8 bytes of a code point.\<close>

definition utf8_encode :: "nat \<Rightarrow> string" where
  "utf8_encode n =
     (if n < 128 then [char_of n]
      else if n < 2048 then [char_of (192 + n div 64), char_of (128 + n mod 64)]
      else if n < 65536 then
        [char_of (224 + n div 4096), char_of (128 + n div 64 mod 64), char_of (128 + n mod 64)]
      else [char_of (240 + n div 262144), char_of (128 + n div 4096 mod 64),
            char_of (128 + n div 64 mod 64), char_of (128 + n mod 64)])"

definition replacement :: string where
  "replacement = [CHR 0xEF, CHR 0xBF, CHR 0xBD]"

definition hex4 :: "string \<Rightarrow> nat option" where
  "hex4 s = (case map hex_val (take 4 s) of
     [Some a, Some b, Some c, Some d] \<Rightarrow> Some (4096 * a + 256 * b + 16 * c + d)
   | _ \<Rightarrow> None)"

text \<open>
  What follows \<open>\u\<close>: the bytes it stands for and how many characters it takes, a low surrogate after
  a high one included.
\<close>

definition unicode_escape :: "string \<Rightarrow> (string \<times> nat) option" where
  "unicode_escape s = (case hex4 s of
     None \<Rightarrow> None
   | Some u \<Rightarrow>
       if 0xD800 \<le> u \<and> u \<le> 0xDBFF then
         (if take 2 (drop 4 s) = [CHR 0x5C, CHR ''u''] then
            (case hex4 (drop 6 s) of
               Some l \<Rightarrow>
                 if 0xDC00 \<le> l \<and> l \<le> 0xDFFF
                 then Some (utf8_encode (0x10000 + (u - 0xD800) * 0x400 + (l - 0xDC00)), 10)
                 else Some (replacement, 4)
             | None \<Rightarrow> Some (replacement, 4))
          else Some (replacement, 4))
       else if 0xDC00 \<le> u \<and> u \<le> 0xDFFF then Some (replacement, 4)
       else Some (utf8_encode u, 4))"

definition simple_escape :: "char \<Rightarrow> char option" where
  "simple_escape e =
     (if e = CHR 0x22 \<or> e = CHR 0x5C \<or> e = CHR ''/'' then Some e
      else if e = CHR ''b'' then Some (CHR 0x08)
      else if e = CHR ''f'' then Some (CHR 0x0C)
      else if e = CHR ''n'' then Some (CHR 0x0A)
      else if e = CHR ''r'' then Some (CHR 0x0D)
      else if e = CHR ''t'' then Some (CHR 0x09)
      else None)"

text \<open>After the opening quote: the string and the text after its closing quote.\<close>

fun parse_chars :: "string \<Rightarrow> (string \<times> string) option" where
  "parse_chars [] = None"
| "parse_chars (c # cs) =
     (if c = CHR 0x22 then Some ([], cs)
      else if of_char c < (32 :: nat) then None
      else if c \<noteq> CHR 0x5C then map_option (\<lambda>(s, r). (c # s, r)) (parse_chars cs)
      else if cs = [] then None
      else
        (case simple_escape (hd cs) of
           Some x \<Rightarrow> map_option (\<lambda>(s, r). (x # s, r)) (parse_chars (tl cs))
         | None \<Rightarrow>
             if hd cs \<noteq> CHR ''u'' then None
             else (case unicode_escape (tl cs) of
                     None \<Rightarrow> None
                   | Some (bs, k) \<Rightarrow> map_option (\<lambda>(s, r). (bs @ s, r)) (parse_chars (drop k (tl cs))))))"

subsection \<open>Numbers\<close>

text \<open>\<open>-?(0|[1-9][0-9]*)(\.[0-9]+)?([eE][+-]?[0-9]+)?\<close>, the longest literal at the start of the text.\<close>

definition span_digits :: "string \<Rightarrow> string \<times> string" where
  "span_digits s = (takeWhile is_digit s, dropWhile is_digit s)"

definition opt_sign :: "char list \<Rightarrow> string \<Rightarrow> string \<times> string" where
  "opt_sign signs s = (case s of c # cs \<Rightarrow> if c \<in> set signs then ([c], cs) else ([], s) | [] \<Rightarrow> ([], []))"

definition parse_frac :: "string \<Rightarrow> (string \<times> string) option" where
  "parse_frac s = (case s of
     c # cs \<Rightarrow>
       if c = CHR ''.'' then
         (let (ds, r) = span_digits cs in if ds = [] then None else Some (c # ds, r))
       else Some ([], s)
   | [] \<Rightarrow> Some ([], []))"

definition parse_exp :: "string \<Rightarrow> (string \<times> string) option" where
  "parse_exp s = (case s of
     c # cs \<Rightarrow>
       if c = CHR ''e'' \<or> c = CHR ''E'' then
         (let (sg, t) = opt_sign ''+-'' cs; (ds, r) = span_digits t
          in if ds = [] then None else Some (c # sg @ ds, r))
       else Some ([], s)
   | [] \<Rightarrow> Some ([], []))"

definition parse_number :: "string \<Rightarrow> (string \<times> string) option" where
  "parse_number s =
     (let (sg, t) = opt_sign ''-'' s; (ds, r) = span_digits t
      in if ds = [] \<or> hd ds = CHR ''0'' \<and> tl ds \<noteq> [] then None
         else case parse_frac r of
                None \<Rightarrow> None
              | Some (fr, r1) \<Rightarrow>
                  (case parse_exp r1 of
                     None \<Rightarrow> None
                   | Some (ex, r2) \<Rightarrow> Some (sg @ ds @ fr @ ex, r2)))"

subsection \<open>Values\<close>

text \<open>
  \<open>parse_elems\<close> reads the elements of a nonempty array up to its closing bracket, \<open>parse_members\<close> the
  members of a nonempty object.
\<close>

fun parse_value :: "nat \<Rightarrow> string \<Rightarrow> (json \<times> string) option"
  and parse_elems :: "nat \<Rightarrow> string \<Rightarrow> (json list \<times> string) option"
  and parse_members :: "nat \<Rightarrow> string \<Rightarrow> ((string \<times> json) list \<times> string) option"
where
  "parse_value 0 s = None"
| "parse_value (Suc n) s =
     (case skip_ws s of
        [] \<Rightarrow> None
      | c # cs \<Rightarrow>
          if c = CHR ''{'' then
            (if take 1 (skip_ws cs) = ''}'' then Some (JObj [], drop 1 (skip_ws cs))
             else map_option (\<lambda>(kvs, r). (JObj kvs, r)) (parse_members n cs))
          else if c = CHR ''['' then
            (if take 1 (skip_ws cs) = '']'' then Some (JArr [], drop 1 (skip_ws cs))
             else map_option (\<lambda>(vs, r). (JArr vs, r)) (parse_elems n cs))
          else if c = CHR 0x22 then map_option (\<lambda>(t, r). (JStr t, r)) (parse_chars cs)
          else if starts_with (c # cs) ''null'' then Some (JNull, drop 3 cs)
          else if starts_with (c # cs) ''true'' then Some (JBool True, drop 3 cs)
          else if starts_with (c # cs) ''false'' then Some (JBool False, drop 4 cs)
          else map_option (\<lambda>(t, r). (JNum t, r)) (parse_number (c # cs)))"
| "parse_elems 0 s = None"
| "parse_elems (Suc n) s =
     (case parse_value n s of
        None \<Rightarrow> None
      | Some (v, r) \<Rightarrow>
          (case skip_ws r of
             [] \<Rightarrow> None
           | c # cs \<Rightarrow>
               if c = CHR '']'' then Some ([v], cs)
               else if c = CHR '','' then map_option (\<lambda>(vs, r'). (v # vs, r')) (parse_elems n cs)
               else None))"
| "parse_members 0 s = None"
| "parse_members (Suc n) s =
     (if take 1 (skip_ws s) \<noteq> [CHR 0x22] then None
      else case parse_chars (drop 1 (skip_ws s)) of
        None \<Rightarrow> None
      | Some (k, r) \<Rightarrow>
          if take 1 (skip_ws r) \<noteq> '':'' then None
          else case parse_value n (drop 1 (skip_ws r)) of
            None \<Rightarrow> None
          | Some (v, r1) \<Rightarrow>
              (case skip_ws r1 of
                 [] \<Rightarrow> None
               | c # cs \<Rightarrow>
                   if c = CHR ''}'' then Some ([(k, v)], cs)
                   else if c = CHR '','' then map_option (\<lambda>(kvs, r'). ((k, v) # kvs, r')) (parse_members n cs)
                   else None))"

text \<open>\<open>None\<close> is the \<open>SyntaxError\<close>.\<close>

definition json_parse :: "string \<Rightarrow> json option" where
  "json_parse s =
     (case parse_value (2 * length s + 2) s of
        None \<Rightarrow> None
      | Some (v, r) \<Rightarrow> if skip_ws r = [] then Some v else None)"

definition obj_get :: "string \<Rightarrow> (string \<times> json) list \<Rightarrow> json option" where
  "obj_get k kvs = map_of (rev kvs) k"

subsection \<open>Every step consumes text\<close>

lemma skip_ws_le: "length (skip_ws s) \<le> length s"
  by (simp add: skip_ws_def length_dropWhile_le)

lemma skip_ws_Cons_less: "skip_ws s = c # cs \<Longrightarrow> length cs < length s"
  using skip_ws_le [of s] by simp

lemma parse_chars_less: "parse_chars s = Some (t, r) \<Longrightarrow> length r < length s"
proof (induction s arbitrary: t r rule: parse_chars.induct)
  case (2 c cs)
  have tl: "length (tl cs) \<le> length cs" "length (drop k (tl cs)) \<le> length cs" for k by simp_all
  from 2 tl show ?case
    by (fastforce split: if_splits option.splits prod.splits dest: less_le_trans)
qed simp

lemma span_digits_le: "span_digits s = (ds, r) \<Longrightarrow> length r + length ds = length s"
  by (auto simp: span_digits_def) (metis length_append takeWhile_dropWhile_id add.commute)

lemma opt_sign_le: "opt_sign signs s = (sg, t) \<Longrightarrow> length t + length sg = length s"
  by (auto simp: opt_sign_def split: list.splits if_splits)

lemma parse_frac_le: "parse_frac s = Some (t, r) \<Longrightarrow> length r \<le> length s"
  by (auto simp: parse_frac_def split: list.splits if_splits prod.splits dest!: span_digits_le)

lemma parse_exp_le: "parse_exp s = Some (t, r) \<Longrightarrow> length r \<le> length s"
  by (auto simp: parse_exp_def Let_def split: list.splits if_splits prod.splits dest!: span_digits_le opt_sign_le)

lemma parse_number_less: "parse_number s = Some (t, r) \<Longrightarrow> length r < length s"
proof -
  assume num: "parse_number s = Some (t, r)"
  obtain sg u where u: "opt_sign ''-'' s = (sg, u)" by (metis prod.exhaust)
  obtain ds v where v: "span_digits u = (ds, v)" by (metis prod.exhaust)
  from num u v obtain fr r1 ex where "ds \<noteq> []" "parse_frac v = Some (fr, r1)" "parse_exp r1 = Some (ex, r)"
    by (auto simp: parse_number_def split: option.splits if_splits prod.splits)
  then show ?thesis
    using opt_sign_le [OF u] span_digits_le [OF v] parse_frac_le [of v fr r1] parse_exp_le [of r1 ex r]
    by (cases ds) auto
qed

lemma parse_less:
  "parse_value n s = Some (v, r) \<Longrightarrow> length r < length s"
  "parse_elems n s = Some (vs, r) \<Longrightarrow> length r < length s"
  "parse_members n s = Some (kvs, r) \<Longrightarrow> length r < length s"
proof (induction n s and n s and n s arbitrary: v r and vs r and kvs r rule: parse_value_parse_elems_parse_members.induct)
  case (2 n s)
  obtain c cs where s: "skip_ws s = c # cs" using 2(3) by (auto split: list.splits)
  note less = skip_ws_Cons_less [OF s]
  have "length r \<le> length cs"
    using 2(3) s 2(1) [OF s] 2(2) [OF s] skip_ws_le [of cs] parse_chars_less [of cs] parse_number_less [of "c # cs"]
    by (auto split: if_splits dest: less_imp_le)
  then show ?case using less by simp
next
  case (4 n s)
  then obtain v r1 where v: "parse_value n s = Some (v, r1)" by (auto split: option.splits)
  then obtain c cs where r1: "skip_ws r1 = c # cs" using 4(3) by (auto split: list.splits)
  have "length cs < length s" using skip_ws_Cons_less [OF r1] 4(1) [OF v] by simp
  then show ?case using 4(3) v r1 4(2) [OF v refl r1] by (auto split: if_splits)
next
  case (6 n s)
  obtain k r0 where k: "take 1 (skip_ws s) = [CHR 0x22]" "parse_chars (drop 1 (skip_ws s)) = Some (k, r0)"
    using 6(3) by (auto split: if_splits option.splits)
  obtain v r1 where v: "take 1 (skip_ws r0) = '':''" "parse_value n (drop 1 (skip_ws r0)) = Some (v, r1)"
    using 6(3) k by (auto split: if_splits option.splits)
  obtain c cs where r1: "skip_ws r1 = c # cs" using 6(3) k v by (auto split: list.splits)
  have "length r0 < length s" using parse_chars_less [OF k(2)] skip_ws_le [of s] by simp
  moreover have "length r1 < length r0" using 6(1) [OF _ k(2) refl _ v(2)] k v skip_ws_le [of r0] by simp
  ultimately have "length cs < length s" using skip_ws_Cons_less [OF r1] by simp
  then show ?case using 6(3) k v r1 6(2) [OF _ k(2) refl _ v(2) refl r1] by (auto split: if_splits)
qed simp_all

subsection \<open>The fuel is enough\<close>

lemma parse_more_fuel:
  "2 * length s + 2 \<le> n \<Longrightarrow> parse_value (Suc n) s = parse_value n s"
  "2 * length s + 3 \<le> n \<Longrightarrow> parse_elems (Suc n) s = parse_elems n s"
  "2 * length s + 3 \<le> n \<Longrightarrow> parse_members (Suc n) s = parse_members n s"
proof (induction n s and n s and n s rule: parse_value_parse_elems_parse_members.induct)
  case (2 n s)
  show ?case
  proof (cases "skip_ws s")
    case (Cons c cs)
    then have "2 * length cs + 3 \<le> n" using skip_ws_Cons_less [OF Cons] 2(3) by simp
    then show ?thesis
      unfolding parse_value.simps(2) [of "Suc n" s] parse_value.simps(2) [of n s]
      using Cons 2(1) [OF Cons] 2(2) [OF Cons]
      by (simp del: parse_value.simps parse_elems.simps parse_members.simps)
  qed simp
next
  case (4 n s)
  have "parse_value (Suc n) s = parse_value n s" using 4(1,3) by simp
  moreover have "parse_elems (Suc n) cs = parse_elems n cs"
    if v: "parse_value n s = Some (v, r)" and r: "skip_ws r = c # cs" and c: "c \<noteq> CHR '']''" "c = CHR '',''" for v r c cs
  proof -
    have "2 * length cs + 3 \<le> n" using parse_less(1) [OF v] skip_ws_Cons_less [OF r] 4(3) by simp
    then show ?thesis using 4(2) [OF v refl r c] by simp
  qed
  ultimately show ?case
    unfolding parse_elems.simps(2) [of "Suc n" s] parse_elems.simps(2) [of n s]
    by (auto split: option.splits list.splits simp del: parse_value.simps parse_elems.simps parse_members.simps)
next
  case (6 n s)
  show ?case
  proof (cases "parse_chars (drop 1 (skip_ws s))")
    case (Some kr)
    then obtain k r0 where k: "parse_chars (drop 1 (skip_ws s)) = Some (k, r0)" by (cases kr) auto
    have r0: "length r0 < length s" using parse_chars_less [OF k] skip_ws_le [of s] by simp
    have val: "parse_value (Suc n) (drop 1 (skip_ws r0)) = parse_value n (drop 1 (skip_ws r0))"
      if "take 1 (skip_ws s) = [CHR 0x22]" "take 1 (skip_ws r0) = '':''"
    proof -
      have "2 * length (drop 1 (skip_ws r0)) + 2 \<le> n" using r0 skip_ws_le [of r0] 6(3) by simp
      then show ?thesis using 6(1) [OF _ k refl] that by simp
    qed
    have mem: "parse_members (Suc n) cs = parse_members n cs"
      if c: "take 1 (skip_ws s) = [CHR 0x22]" "take 1 (skip_ws r0) = '':''"
        and v: "parse_value n (drop 1 (skip_ws r0)) = Some (v, r)" and r: "skip_ws r = c # cs" "c \<noteq> CHR ''}''" "c = CHR '',''"
      for v r c cs
    proof -
      have "2 * length cs + 3 \<le> n"
        using parse_less(1) [OF v] skip_ws_Cons_less [OF r(1)] r0 skip_ws_le [of r0] 6(3) by simp
      then show ?thesis using 6(2) [OF _ k refl _ v refl r] c by simp
    qed
    show ?thesis
      unfolding parse_members.simps(2) [of "Suc n" s] parse_members.simps(2) [of n s]
      using k val mem
      by (auto split: option.splits list.splits simp del: parse_value.simps parse_elems.simps parse_members.simps)
  qed simp
qed simp_all

lemma parse_value_enough:
  assumes "2 * length s + 2 \<le> n"
  shows "parse_value n s = parse_value (2 * length s + 2) s"
  using assms by (induction n rule: dec_induct) (simp_all add: parse_more_fuel(1) del: parse_value.simps)

subsection \<open>Parsing what \<open>JSON.stringify\<close> printed\<close>

lemma unicode_escape_control:
  assumes "n < 32"
  shows "unicode_escape (CHR ''0'' # CHR ''0'' # hex_digit (n div 16) # hex_digit (n mod 16) # s) = Some ([char_of n], 4)"
proof -
  have "n div 16 < 16" "n mod 16 < 16" "16 * (n div 16) + n mod 16 = n" using assms by simp_all
  then show ?thesis
    using assms hex_val_hex_digit [of "n div 16"] hex_val_hex_digit [of "n mod 16"] hex_val_hex_digit [of 0]
    by (simp add: unicode_escape_def hex4_def utf8_encode_def hex_val_def)
qed

lemma parse_chars_escape:
  "parse_chars (json_escape_char c @ s) = map_option (\<lambda>(t, r). (c # t, r)) (parse_chars s)"
proof -
  let ?n = "of_char c :: nat"
  consider "c \<in> {CHR 0x22, CHR 0x5C, CHR 0x08, CHR 0x09, CHR 0x0A, CHR 0x0C, CHR 0x0D}"
    | (control) "?n < 32" "?n \<notin> {8, 9, 10, 12, 13}"
    | (plain) "32 \<le> ?n" "?n \<noteq> 34" "?n \<noteq> 92"
  proof -
    have inj: "?n = of_char d \<Longrightarrow> c = d" for d :: char by (metis char_of_char)
    have "?n \<in> {34, 92, 8, 9, 10, 12, 13} \<Longrightarrow>
        c \<in> {CHR 0x22, CHR 0x5C, CHR 0x08, CHR 0x09, CHR 0x0A, CHR 0x0C, CHR 0x0D}"
      using inj [of "CHR 0x22"] inj [of "CHR 0x5C"] inj [of "CHR 0x08"] inj [of "CHR 0x09"] inj [of "CHR 0x0A"]
        inj [of "CHR 0x0C"] inj [of "CHR 0x0D"] by auto
    then show thesis using that by fastforce
  qed
  then show ?thesis
  proof cases
    case 1
    then show ?thesis by (elim insertE emptyE) (simp_all add: json_escape_char_def simple_escape_def)
  next
    case control
    then have "json_escape_char c = [CHR 0x5C, CHR ''u'', CHR ''0'', CHR ''0'', hex_digit (?n div 16), hex_digit (?n mod 16)]"
      by (simp add: json_escape_char_def Let_def)
    then show ?thesis
      using unicode_escape_control [OF control(1), of s] by (simp add: simple_escape_def)
  next
    case plain
    then have "json_escape_char c = [c]" "c \<noteq> CHR 0x22" "c \<noteq> CHR 0x5C" by (auto simp: json_escape_char_def)
    then show ?thesis using plain by simp
  qed
qed

lemma parse_chars_quote: "parse_chars (concat (map json_escape_char t) @ CHR 0x22 # s) = Some (t, s)"
  by (induction t) (simp_all add: parse_chars_escape)

text \<open>A printed number is a literal that is parsed back whole; nothing after it may continue it.\<close>

definition num_end :: "string \<Rightarrow> bool" where
  "num_end s \<longleftrightarrow> s = [] \<or> hd s \<in> {CHR '','', CHR '']'', CHR ''}''}"

lemma num_end_cases:
  assumes "num_end s"
  obtains "s = []" | c cs where "s = c # cs" "\<not> is_digit c" "c \<notin> set ''.eE+-''"
  using assms by (cases s) (auto simp: num_end_def is_digit_def)

lemma span_digits_append:
  assumes "num_end s" and "span_digits t = (ds, r)"
  shows "span_digits (t @ s) = (ds, r @ s)"
proof (cases "list_all is_digit t")
  case True
  then have all: "\<forall>x \<in> set t. is_digit x" by (simp add: list_all_iff)
  then have "takeWhile is_digit t = t" "dropWhile is_digit t = []" by simp_all
  then have "ds = t" "r = []" using assms(2) unfolding span_digits_def by (metis prod.inject)+
  moreover have "takeWhile is_digit s = []" "dropWhile is_digit s = s" using assms(1) by (cases rule: num_end_cases; simp)+
  ultimately show ?thesis using all by (simp add: span_digits_def)
next
  case False
  then obtain x where "x \<in> set t" "\<not> is_digit x" by (auto simp: list_all_iff)
  then show ?thesis using assms(2) by (auto simp: span_digits_def)
qed

lemma opt_sign_append:
  assumes "num_end s" and "set signs \<subseteq> set ''+-''" and "opt_sign signs t = (sg, u)"
  shows "opt_sign signs (t @ s) = (sg, u @ s)"
  using assms by (cases t; cases rule: num_end_cases) (auto simp: opt_sign_def split: if_splits list.splits)

lemma parse_frac_append:
  assumes "num_end s" and "parse_frac t = Some (fr, r)"
  shows "parse_frac (t @ s) = Some (fr, r @ s)"
proof (cases t)
  case Nil
  show ?thesis using assms(1) Nil assms(2) by (cases rule: num_end_cases) (auto simp: parse_frac_def)
next
  case (Cons c cs)
  obtain ds v where "span_digits cs = (ds, v)" by (metis prod.exhaust)
  then show ?thesis
    using assms Cons span_digits_append [OF assms(1), of cs ds v] by (auto simp: parse_frac_def split: if_splits)
qed

lemma parse_exp_append:
  assumes "num_end s" and "parse_exp t = Some (ex, r)"
  shows "parse_exp (t @ s) = Some (ex, r @ s)"
proof (cases t)
  case Nil
  show ?thesis using assms(1) Nil assms(2) by (cases rule: num_end_cases) (auto simp: parse_exp_def)
next
  case (Cons c cs)
  obtain sg u where u: "opt_sign ''+-'' cs = (sg, u)" by (metis prod.exhaust)
  obtain ds v where "span_digits u = (ds, v)" by (metis prod.exhaust)
  then show ?thesis
    using assms(2) Cons u opt_sign_append [OF assms(1) _ u] span_digits_append [OF assms(1), of u ds v]
    by (auto simp: parse_exp_def Let_def split: if_splits)
qed

lemma parse_number_append:
  assumes "num_end s" and "parse_number t = Some (x, r)"
  shows "parse_number (t @ s) = Some (x, r @ s)"
proof -
  obtain sg u where u: "opt_sign ''-'' t = (sg, u)" by (metis prod.exhaust)
  obtain ds v where v: "span_digits u = (ds, v)" by (metis prod.exhaust)
  have "opt_sign ''-'' (t @ s) = (sg, u @ s)" by (rule opt_sign_append [OF assms(1) _ u]) simp
  moreover have "span_digits (u @ s) = (ds, v @ s)" by (rule span_digits_append [OF assms(1) v])
  ultimately show ?thesis
    using assms u v parse_frac_append [OF assms(1)] parse_exp_append [OF assms(1)]
    by (auto simp: parse_number_def split: option.splits if_splits)
qed

text \<open>The values \<open>JSON.stringify\<close> prints so that they can be read back.\<close>

fun json_ok :: "json \<Rightarrow> bool" where
  "json_ok (JNum n) = (parse_number n = Some (n, []))"
| "json_ok (JArr xs) = (\<forall>x \<in> set xs. json_ok x)"
| "json_ok (JObj kvs) = (\<forall>(k, v) \<in> set kvs. json_ok v)"
| "json_ok _ = True"

lemma parse_number_start:
  assumes "parse_number t \<noteq> None"
  obtains c cs where "t = c # cs" "c = CHR ''-'' \<or> is_digit c"
proof (cases t)
  case Nil
  then show ?thesis using assms by (simp add: parse_number_def opt_sign_def span_digits_def)
next
  case (Cons c cs)
  then have "c = CHR ''-'' \<or> is_digit c"
    using assms by (auto simp: parse_number_def opt_sign_def span_digits_def split: if_splits)
  then show ?thesis using that Cons by blast
qed

lemma stringify_start:
  assumes "json_ok j"
  obtains c cs where "json_stringify j = c # cs" "\<not> is_ws c" "c \<notin> set '']},:''"
proof (cases j)
  case (JNum n)
  then obtain c cs where "n = c # cs" "c = CHR ''-'' \<or> is_digit c"
    using assms parse_number_start [of n] by auto
  moreover from this have "\<not> is_ws c" "c \<notin> set '']},:''" by (auto simp: is_ws_def is_digit_def)
  ultimately show ?thesis using that JNum by simp
next
  case (JBool b)
  then show ?thesis using that by (cases b) (auto simp: is_ws_def)
qed (use that in \<open>auto simp: is_ws_def json_quote_def\<close>)

lemma skip_ws_non_ws [simp]: "\<not> is_ws c \<Longrightarrow> skip_ws (c # cs) = c # cs"
  by (simp add: skip_ws_def)

lemma not_is_ws [simp]:
  "\<not> is_ws (CHR 0x22)" "\<not> is_ws (CHR ''['')" "\<not> is_ws (CHR ''{'')" "\<not> is_ws (CHR '']'')" "\<not> is_ws (CHR ''}'')"
  "\<not> is_ws (CHR '','')" "\<not> is_ws (CHR '':'')" "\<not> is_ws (CHR ''n'')" "\<not> is_ws (CHR ''t'')" "\<not> is_ws (CHR ''f'')"
  by (simp_all add: is_ws_def)

lemma join_comma_Cons: "xs \<noteq> [] \<Longrightarrow> join_comma (x # xs) = x @ '','' @ join_comma xs"
  by (cases xs) simp_all

definition parses_back :: "json \<Rightarrow> bool" where
  "parses_back j \<longleftrightarrow> (\<forall>n rest. num_end rest \<longrightarrow> 2 * length (json_stringify j @ rest) + 2 \<le> n \<longrightarrow>
     parse_value n (json_stringify j @ rest) = Some (j, rest))"

lemma parses_backD:
  assumes "parses_back j" and "num_end rest" and "2 * length (json_stringify j @ rest) + 2 \<le> n"
  shows "parse_value n (json_stringify j @ rest) = Some (j, rest)"
  using assms by (simp add: parses_back_def)

lemma parses_back_leafI:
  assumes "\<And>m rest. num_end rest \<Longrightarrow> parse_value (Suc m) (json_stringify j @ rest) = Some (j, rest)"
  shows "parses_back j"
  unfolding parses_back_def
proof (intro allI impI)
  fix n rest
  assume "num_end rest" "2 * length (json_stringify j @ rest) + 2 \<le> n"
  then show "parse_value n (json_stringify j @ rest) = Some (j, rest)" using assms by (cases n) simp_all
qed

lemma parse_elems_join:
  assumes "xs \<noteq> []" and "\<forall>x \<in> set xs. parses_back x"
    and "2 * length (join_comma (map json_stringify xs) @ '']'' @ rest) + 3 \<le> n"
  shows "parse_elems n (join_comma (map json_stringify xs) @ '']'' @ rest) = Some (xs, rest)"
  using assms
proof (induction xs arbitrary: n rule: list_nonempty_induct)
  case (single x)
  then obtain m where "n = Suc m" by (cases n) auto
  then show ?case
    using single parses_backD [of x "'']'' @ rest" m] by (simp add: num_end_def del: parse_value.simps)
next
  case (cons x xs)
  then obtain m where m: "n = Suc m" by (cases n) auto
  let ?r = "join_comma (map json_stringify xs) @ '']'' @ rest"
  have join: "join_comma (map json_stringify (x # xs)) @ '']'' @ rest = json_stringify x @ '','' @ ?r"
    using cons(1) by (simp add: join_comma_Cons)
  have "parse_value m (json_stringify x @ '','' @ ?r) = Some (x, '','' @ ?r)"
    using cons(3,4) m unfolding join by (intro parses_backD) (auto simp: num_end_def)
  moreover have "parse_elems m ?r = Some (xs, rest)"
    using cons(3,4) m unfolding join by (intro cons(2)) auto
  ultimately show ?case unfolding join m by (simp del: parse_value.simps parse_elems.simps(1))
qed

lemma parse_members_join:
  assumes "kvs \<noteq> []" and "\<forall>(k, v) \<in> set kvs. parses_back v"
    and "2 * length (join_comma (map (\<lambda>(k, v). json_quote k @ '':'' @ json_stringify v) kvs) @ ''}'' @ rest) + 3 \<le> n"
  shows "parse_members n (join_comma (map (\<lambda>(k, v). json_quote k @ '':'' @ json_stringify v) kvs) @ ''}'' @ rest)
    = Some (kvs, rest)"
  using assms
proof (induction kvs arbitrary: n rule: list_nonempty_induct)
  case (single kv)
  then obtain m k v where m: "n = Suc m" "kv = (k, v)" by (cases n; cases kv) auto
  show ?case
    using single m parses_backD [of v "''}'' @ rest" m] parse_chars_quote [of k]
    by (simp add: num_end_def json_quote_def del: parse_value.simps)
next
  case (cons kv kvs)
  then obtain m k v where m: "n = Suc m" "kv = (k, v)" by (cases n; cases kv) auto
  let ?f = "\<lambda>(k, v). json_quote k @ '':'' @ json_stringify v"
  let ?r = "join_comma (map ?f kvs) @ ''}'' @ rest"
  have join: "join_comma (map ?f (kv # kvs)) @ ''}'' @ rest = json_quote k @ '':'' @ json_stringify v @ '','' @ ?r"
    using cons(1) m(2) by (simp add: join_comma_Cons)
  have "parse_value m (json_stringify v @ '','' @ ?r) = Some (v, '','' @ ?r)"
    using cons(3,4) m unfolding join by (intro parses_backD) (auto simp: num_end_def)
  moreover have "parse_members m ?r = Some (kvs, rest)"
    using cons(3,4) m(1) unfolding join by (intro cons(2)) auto
  ultimately show ?case
    unfolding join unfolding m
    by (simp add: json_quote_def parse_chars_quote del: parse_value.simps parse_members.simps(1))
qed

lemma join_comma_start:
  assumes "xs \<noteq> []" and "hd xs = c # cs"
  obtains ds where "join_comma xs = c # ds"
  using assms by (cases xs rule: join_comma.cases) auto

lemma stringify_parses_back: "json_ok j \<Longrightarrow> parses_back j"
proof (induction j rule: json_stringify.induct)
  case (3 t)
  have num: "parse_number t = Some (t, [])" using 3 by simp
  obtain c cs where t: "t = c # cs" "c = CHR ''-'' \<or> is_digit c" using num parse_number_start [of t] by auto
  then have c: "\<not> is_ws c" "c \<notin> {CHR ''{'', CHR ''['', CHR 0x22, CHR ''n'', CHR ''t'', CHR ''f''}"
    by (auto simp: is_ws_def is_digit_def)
  show ?case
    by (rule parses_back_leafI) (use c t(1) parse_number_append [OF _ num] in \<open>simp add: starts_with_def\<close>)
next
  case (5 xs)
  have all: "\<forall>x \<in> set xs. parses_back x" using 5 by simp
  have "parse_value n (json_stringify (JArr xs) @ rest) = Some (JArr xs, rest)"
    if "num_end rest" and n: "2 * length (json_stringify (JArr xs) @ rest) + 2 \<le> n" for n rest
  proof (cases "xs = []")
    case True
    then show ?thesis using n by (cases n) simp_all
  next
    case False
    obtain m where m: "n = Suc m" using n by (cases n) auto
    have "json_ok (hd xs)" using 5(2) False by simp
    then obtain c cs where "json_stringify (hd xs) = c # cs" "\<not> is_ws c" "c \<noteq> CHR '']''"
      by (rule stringify_start) simp
    then obtain ds where "join_comma (map json_stringify xs) = c # ds" "\<not> is_ws c" "c \<noteq> CHR '']''"
      using False join_comma_start [of "map json_stringify xs" c cs] by (auto simp: hd_map)
    moreover have "parse_elems m (join_comma (map json_stringify xs) @ '']'' @ rest) = Some (xs, rest)"
      using n m by (intro parse_elems_join [OF False all]) simp
    ultimately show ?thesis unfolding m by (simp del: parse_elems.simps)
  qed
  then show ?case by (simp add: parses_back_def)
next
  case (6 kvs)
  let ?f = "\<lambda>(k, v). json_quote k @ '':'' @ json_stringify v"
  have all: "\<forall>(k, v) \<in> set kvs. parses_back v" using 6 by fastforce
  have "parse_value n (json_stringify (JObj kvs) @ rest) = Some (JObj kvs, rest)"
    if "num_end rest" and n: "2 * length (json_stringify (JObj kvs) @ rest) + 2 \<le> n" for n rest
  proof (cases "kvs = []")
    case True
    then show ?thesis using n by (cases n) simp_all
  next
    case False
    obtain m where m: "n = Suc m" using n by (cases n) auto
    obtain cs where "?f (hd kvs) = CHR 0x22 # cs" by (cases "hd kvs") (auto simp: json_quote_def)
    then obtain ds where "join_comma (map ?f kvs) = CHR 0x22 # ds"
      using False join_comma_start [of "map ?f kvs" "CHR 0x22" cs] by (auto simp: hd_map)
    moreover have "parse_members m (join_comma (map ?f kvs) @ ''}'' @ rest) = Some (kvs, rest)"
      using n m by (intro parse_members_join [OF False all]) simp
    ultimately show ?thesis unfolding m by (simp del: parse_members.simps)
  qed
  then show ?case by (simp add: parses_back_def)
next
  case 1
  show ?case by (rule parses_back_leafI) (simp add: starts_with_def)
next
  case (2 b)
  show ?case by (rule parses_back_leafI) (simp add: starts_with_def)
next
  case (4 t)
  show ?case by (rule parses_back_leafI) (simp add: json_quote_def parse_chars_quote)
qed

lemma json_parse_printed: "json_ok j \<Longrightarrow> json_parse (json_stringify j) = Some j"
  using parses_backD [OF stringify_parses_back, of j "[]" "2 * length (json_stringify j) + 2"]
  by (simp add: json_parse_def num_end_def skip_ws_def)

subsection \<open>Properties\<close>



end
