(* ===== verification/Js_Text.thy ===== *)
theory Js_Text
  imports Json_Parse Complex_Main
begin

text \<open>
  String operations and number parsing of JavaScript, as the query parameters of the read routes go
  through them: \<open>split\<close>, \<open>trim\<close>, \<open>toUpperCase\<close> and \<open>Number(s)\<close>.
\<close>

fun split_on :: "char \<Rightarrow> string \<Rightarrow> string list" where
  "split_on c [] = [[]]"
| "split_on c (x # xs) =
     (if x = c then [] # split_on c xs
      else case split_on c xs of [] \<Rightarrow> [[x]] | w # ws \<Rightarrow> (x # w) # ws)"

lemma split_on_sep: "c \<notin> set w \<Longrightarrow> split_on c (w @ c # r) = w # split_on c r"
  by (induction w) auto

lemma split_on_word: "c \<notin> set w \<Longrightarrow> split_on c w = [w]"
  by (induction w) auto

lemma split_join_comma: "ws \<noteq> [] \<Longrightarrow> \<forall>w \<in> set ws. CHR '','' \<notin> set w \<Longrightarrow> split_on (CHR '','') (join_comma ws) = ws"
  by (induction ws rule: join_comma.induct) (simp_all add: split_on_sep split_on_word)

text \<open>White space: the ASCII characters and the UTF-8 bytes of the others.\<close>

definition is_blank :: "char \<Rightarrow> bool" where
  "is_blank c \<longleftrightarrow> of_char c \<in> {9, 10, 11, 12, 13, 32 :: nat}"

definition wide_blanks :: "string list" where
  "wide_blanks =
     [[CHR 0xC2, CHR 0xA0], [CHR 0xE1, CHR 0x9A, CHR 0x80]] @
     map (\<lambda>b. [CHR 0xE2, CHR 0x80, b])
       [CHR 0x80, CHR 0x81, CHR 0x82, CHR 0x83, CHR 0x84, CHR 0x85, CHR 0x86, CHR 0x87, CHR 0x88, CHR 0x89, CHR 0x8A,
        CHR 0xA8, CHR 0xA9, CHR 0xAF] @
     [[CHR 0xE2, CHR 0x81, CHR 0x9F], [CHR 0xE3, CHR 0x80, CHR 0x80], [CHR 0xEF, CHR 0xBB, CHR 0xBF]]"

fun strip :: "string list \<Rightarrow> string \<Rightarrow> string" where
  "strip ws [] = []"
| "strip ws (c # cs) =
     (if is_blank c then strip ws cs
      else if take 2 (c # cs) \<in> set ws then strip ws (drop 1 cs)
      else if take 3 (c # cs) \<in> set ws then strip ws (drop 2 cs)
      else c # cs)"

definition trim :: "string \<Rightarrow> string" where
  "trim s = rev (strip (map rev wide_blanks) (rev (strip wide_blanks s)))"

definition upper :: "char \<Rightarrow> char" where
  "upper c = (if 97 \<le> (of_char c :: nat) \<and> (of_char c :: nat) \<le> 122 then char_of ((of_char c :: nat) - 32) else c)"

text \<open>
  \<open>toUpperCase\<close> where its result is compared with ASCII words: besides the ASCII letters, the dotless
  i becomes I. Other characters outside ASCII stay here as they are; their upper case spells no part of
  a status name.
\<close>

fun toUpperCase :: "string \<Rightarrow> string" where
  "toUpperCase [] = []"
| "toUpperCase (c # cs) =
     (if c = CHR 0xC4 \<and> take 1 cs = [CHR 0xB1] then CHR ''I'' # toUpperCase (drop 1 cs)
      else upper c # toUpperCase cs)"

subsection \<open>\<open>Number(s)\<close>\<close>

text \<open>The value of a numeric text, before it is rounded to a double.\<close>

datatype numeric = NaN | Infinite | Finite rat

definition scaled :: "nat \<Rightarrow> int \<Rightarrow> rat" where
  "scaled m k = (if 0 \<le> k then of_nat m * 10 ^ nat k else of_nat m / 10 ^ nat (- k))"

text \<open>An exponent part that ends the text; no text is exponent 0.\<close>

definition exponent :: "string \<Rightarrow> int option" where
  "exponent s = (case s of
     [] \<Rightarrow> Some 0
   | c # cs \<Rightarrow>
       let (sg, ds) = opt_sign ''+-'' cs in
       if (c = CHR ''e'' \<or> c = CHR ''E'') \<and> ds \<noteq> [] \<and> list_all is_digit ds
       then Some ((if sg = ''-'' then - 1 else 1) * int (digits_val ds)) else None)"

definition unsigned_decimal :: "string \<Rightarrow> numeric" where
  "unsigned_decimal s =
     (if s = ''Infinity'' then Infinite
      else
        let (ip, r) = span_digits s;
            (fp, r') = (if take 1 r = ''.'' then span_digits (drop 1 r) else ([], r))
        in if ip @ fp = [] then NaN
           else case exponent r' of
                  None \<Rightarrow> NaN
                | Some e \<Rightarrow> Finite (scaled (digits_val (ip @ fp)) (e - int (length fp))))"

definition radix_digits :: "nat \<Rightarrow> string \<Rightarrow> numeric" where
  "radix_digits b ds =
     (if ds = [] \<or> (\<exists>c \<in> set ds. case hex_val c of None \<Rightarrow> True | Some v \<Rightarrow> b \<le> v) then NaN
      else Finite (of_nat (foldl (\<lambda>n c. b * n + the (hex_val c)) 0 ds)))"

definition js_Number :: "string \<Rightarrow> numeric" where
  "js_Number str =
     (let s = trim str; p = take 2 s in
      if s = [] then Finite 0
      else if p = ''0x'' \<or> p = ''0X'' then radix_digits 16 (drop 2 s)
      else if p = ''0o'' \<or> p = ''0O'' then radix_digits 8 (drop 2 s)
      else if p = ''0b'' \<or> p = ''0B'' then radix_digits 2 (drop 2 s)
      else
        let (sg, u) = opt_sign ''+-'' s in
        if sg = ''-'' then (case unsigned_decimal u of Finite x \<Rightarrow> Finite (- x) | v \<Rightarrow> v) else unsigned_decimal u)"

subsection \<open>Doubles\<close>

text \<open>
  Rounding to the nearest double, ties to even: the unit in the last place of \<open>x\<close> is 52 binary places
  below its leading bit, but not below that of the subnormal numbers; from \<open>2 ^ 1024\<close> on it is infinite.
\<close>

fun bits :: "nat \<Rightarrow> nat" where
  "bits n = (if n = 0 then 0 else bits (n div 2) + 1)"

declare bits.simps [simp del]

definition leading_bit :: "rat \<Rightarrow> int" where
  "leading_bit x = (if 1 \<le> x then int (bits (nat \<lfloor>x\<rfloor>)) - 1 else - int (bits (nat (\<lceil>1 / x\<rceil> - 1))))"

definition round_even :: "rat \<Rightarrow> int" where
  "round_even x =
     (let k = \<lfloor>x\<rfloor>; r = x - of_int k in if r < 1 / 2 \<or> r = 1 / 2 \<and> even k then k else k + 1)"

definition to_double :: "rat \<Rightarrow> numeric" where
  "to_double x =
     (if x = 0 then Finite 0
      else
        let u = 2 powi (max (leading_bit \<bar>x\<bar>) (- 1022) - 52);
            y = of_int (round_even (x / u)) * u
        in if 2 ^ 1024 \<le> \<bar>y\<bar> then Infinite else Finite y)"

text \<open>\<open>Number(s)\<close>, the double.\<close>

definition toNumber :: "string \<Rightarrow> numeric" where
  "toNumber s = (case js_Number s of Finite x \<Rightarrow> to_double x | v \<Rightarrow> v)"

text \<open>\<open>z.number().int()\<close>: neither \<open>NaN\<close> nor infinite, and \<open>Number.isInteger\<close>.\<close>

definition z_int :: "numeric \<Rightarrow> int option" where
  "z_int v = (case v of Finite x \<Rightarrow> if of_int \<lfloor>x\<rfloor> = x then Some \<lfloor>x\<rfloor> else None | _ \<Rightarrow> None)"

text \<open>\<open>z.coerce.number().int().min(1).max(200)\<close>.\<close>

definition limit_of :: "string \<Rightarrow> nat option" where
  "limit_of s = (case z_int (toNumber s) of
     Some n \<Rightarrow> if 1 \<le> n \<and> n \<le> 200 then Some (nat n) else None
   | None \<Rightarrow> None)"

subsection \<open>Rounding\<close>

lemma bits_bound: "n < 2 ^ bits n"
  by (induction n rule: bits.induct) (subst bits.simps, auto)

lemma bits_least: "0 < n \<Longrightarrow> 2 ^ bits n \<le> 2 * n"
proof (induction n rule: bits.induct)
  case (1 n)
  have "bits n = bits (n div 2) + 1" using 1(2) by (subst bits.simps) simp
  then show ?case using 1 by (cases "n div 2 = 0") (auto simp: bits.simps [of 0])
qed

lemma bits_le: "n < 2 ^ k \<Longrightarrow> bits n \<le> k"
proof (cases "n = 0")
  case False
  assume "n < 2 ^ k"
  with bits_least [of n] False have "(2::nat) ^ bits n < 2 ^ Suc k" by simp
  then have "bits n < Suc k" by (rule power_less_imp_less_exp [rotated]) simp
  then show ?thesis by simp
qed (simp add: bits.simps)

lemma round_even_int [simp]: "round_even (of_int k) = k"
  by (simp add: round_even_def Let_def)

lemma round_even_near: "\<bar>of_int (round_even x) - x\<bar> \<le> 1 / 2"
  using floor_correct [of x] by (auto simp: round_even_def Let_def abs_if) linarith+

text \<open>The double is within half a unit in the last place, and whole numbers below \<open>2 ^ 53\<close> are doubles.\<close>

lemma to_double_near:
  assumes "to_double x = Finite y" and "x \<noteq> 0"
  shows "\<bar>y - x\<bar> \<le> 2 powi (max (leading_bit \<bar>x\<bar>) (- 1022) - 52) / 2"
proof -
  define u :: rat where "u = 2 powi (max (leading_bit \<bar>x\<bar>) (- 1022) - 52)"
  have u: "0 < u" by (simp add: u_def)
  have y: "y = of_int (round_even (x / u)) * u"
    using assms by (simp add: to_double_def Let_def u_def split: if_splits)
  have "y - x = (of_int (round_even (x / u)) - x / u) * u" using u y by (simp add: field_simps)
  then have "\<bar>y - x\<bar> = \<bar>of_int (round_even (x / u)) - x / u\<bar> * u" using u by (simp add: abs_mult)
  also have "\<dots> \<le> 1 / 2 * u" using round_even_near u by (intro mult_right_mono) auto
  finally show ?thesis by (simp add: u_def)
qed

lemma to_double_int:
  assumes "\<bar>n\<bar> < 2 ^ 53"
  shows "to_double (of_int n) = Finite (of_int n)"
proof (cases "n = 0")
  case False
  define b where "b = bits (nat \<bar>n\<bar>)"
  have "nat \<bar>n\<bar> < 2 ^ 53" using assms by simp
  then have b: "b \<le> 53" unfolding b_def by (rule bits_le)
  have "1 \<le> \<bar>n\<bar>" using False by simp
  then have "leading_bit \<bar>of_int n\<bar> = int b - 1"
    by (simp add: leading_bit_def b_def flip: of_int_abs)
  then have u: "2 powi (max (leading_bit \<bar>of_int n :: rat\<bar>) (- 1022) - 52) = inverse (2 ^ (53 - b) :: rat)"
    using b by (simp add: power_int_def nat_diff_distrib power_one_over inverse_eq_divide max_def of_nat_diff)
  have "(of_int n :: rat) / inverse (2 ^ (53 - b)) = of_int (n * 2 ^ (53 - b))" by (simp add: divide_inverse)
  moreover have "\<bar>of_int n :: rat\<bar> < 2 ^ 1024"
  proof -
    have "\<bar>of_int n :: rat\<bar> < 2 ^ 53" using assms by (metis of_int_abs of_int_less_iff of_int_numeral of_int_power)
    also have "(2 :: rat) ^ 53 \<le> 2 ^ 1024" by (rule power_increasing) simp_all
    finally show ?thesis .
  qed
  moreover have "of_int (n * 2 ^ (53 - b)) * inverse (2 ^ (53 - b)) = (of_int n :: rat)" by (simp add: mult.assoc)
  ultimately show ?thesis using False unfolding to_double_def u Let_def
    by (simp only: round_even_int of_int_eq_0_iff if_False not_le [symmetric])
qed (simp add: to_double_def)

subsection \<open>Whole numbers\<close>

definition plain :: "char \<Rightarrow> bool" where
  "plain c \<longleftrightarrow> of_char c < (128 :: nat) \<and> \<not> is_blank c"

lemma digit_plain: "is_digit c \<Longrightarrow> plain c"
  by (auto simp: is_digit_def is_blank_def plain_def)

lemma wide_blanks_lead: "w \<in> set wide_blanks \<union> set (map rev wide_blanks) \<Longrightarrow> \<not> plain (hd w) \<and> w \<noteq> []"
  unfolding wide_blanks_def by (auto simp: plain_def)

lemma strip_plain:
  assumes "plain c" and "ws = wide_blanks \<or> ws = map rev wide_blanks"
  shows "strip ws (c # cs) = c # cs"
proof -
  have no: "take k (c # cs) \<notin> set ws" if "0 < k" for k
  proof
    assume "take k (c # cs) \<in> set ws"
    with assms(2) have "\<not> plain (hd (take k (c # cs)))" using wide_blanks_lead by blast
    with assms(1) that show False by (cases k) simp_all
  qed
  show ?thesis using assms(1) no [of 2] no [of 3] by (simp add: plain_def del: take_Cons_numeral)
qed

lemma trim_plain:
  assumes "s \<noteq> []" and "plain (hd s)" and "plain (last s)"
  shows "trim s = s"
proof -
  have "strip wide_blanks s = s" using assms(1,2) strip_plain [of "hd s" wide_blanks "tl s"] by simp
  moreover have "rev s = last s # tl (rev s)" using assms(1) by (metis hd_rev list.collapse rev_is_Nil_conv)
  then have "strip (map rev wide_blanks) (rev s) = rev s" using assms(3) strip_plain by metis
  ultimately show ?thesis by (simp add: trim_def)
qed

lemma trim_digits: "s \<noteq> [] \<Longrightarrow> list_all is_digit s \<Longrightarrow> trim s = s"
  by (rule trim_plain) (simp_all add: list_all_iff digit_plain)

lemma span_digits_all: "list_all is_digit s \<Longrightarrow> span_digits s = (s, [])"
  by (simp add: span_digits_def list_all_iff)

lemma js_Number_digits:
  assumes "s \<noteq> []" and "list_all is_digit s"
  shows "js_Number s = Finite (of_nat (digits_val s))"
proof -
  obtain c cs where s: "s = c # cs" "is_digit c" using assms by (cases s) auto
  have no: "take 2 s \<noteq> [CHR ''0'', x]" if "\<not> is_digit x" for x
  proof
    assume "take 2 s = [CHR ''0'', x]"
    then have "x \<in> set s" by (metis in_set_takeD list.set_intros(1,2))
    then show False using assms(2) that by (simp add: list_all_iff)
  qed
  have "opt_sign ''+-'' s = ([], s)" "s \<noteq> ''Infinity''" using s by (auto simp: opt_sign_def is_digit_def)
  then have "unsigned_decimal s = Finite (of_nat (digits_val s))"
    using assms by (simp add: unsigned_decimal_def span_digits_all exponent_def scaled_def)
  then show ?thesis
    using assms trim_digits [OF assms] \<open>opt_sign ''+-'' s = ([], s)\<close> no
    by (simp add: js_Number_def Let_def is_digit_def)
qed

lemma toNumber_digits:
  assumes "s \<noteq> []" and "list_all is_digit s" and "digits_val s < 2 ^ 53"
  shows "toNumber s = Finite (of_nat (digits_val s))"
  using to_double_int [of "int (digits_val s)"] assms by (simp add: toNumber_def js_Number_digits)

lemma z_int_digits:
  assumes "s \<noteq> []" and "list_all is_digit s" and "digits_val s < 2 ^ 53"
  shows "z_int (toNumber s) = Some (int (digits_val s))"
  by (simp add: toNumber_digits [OF assms] z_int_def)

lemma limit_digits:
  assumes "s \<noteq> []" and "list_all is_digit s" and "1 \<le> digits_val s" and "digits_val s \<le> 200"
  shows "limit_of s = Some (digits_val s)"
  using z_int_digits [OF assms(1,2)] assms(3,4) by (simp add: limit_of_def)

lemma limit_text: "1 \<le> n \<Longrightarrow> n \<le> 200 \<Longrightarrow> limit_of (string_of_nat n) = Some n"
  using string_of_nat_digits [of n] by (simp add: limit_digits)

lemma limit_of_bounds: "limit_of v = Some n \<Longrightarrow> 1 \<le> n \<and> n \<le> 200"
  by (auto simp: limit_of_def split: option.splits if_splits)

end
