(* ===== verification/Test_Receiver.thy ===== *)
theory Test_Receiver
  imports Worker Js_Text
begin

text \<open>
  \<open>src/src/test-receiver/index.ts\<close>: the stand-in for a customer's endpoint that the integration and
  chaos tests deliver to. It verifies the signature over the raw bytes, logs every request and
  answers by route. The log keeps the raw body (the parsed copy is only for reading). A timestamp
  header is a decimal integer or, for any other text, the \<open>NaN\<close> that \<open>Number\<close> makes of it.
\<close>

record logged_request =
  lr_id :: "string option"
  lr_attempt :: "int option"
  lr_ts :: "int option"
  lr_path :: string
  lr_body :: string
  lr_validSignature :: bool

record chaos_config =
  errorRate :: rat
  timeoutRate :: rat
  slowDripMs :: rat

record receiver =
  requestLog :: "logged_request list"
  flapCounts :: "string \<Rightarrow> nat option"
  chaosConfig :: chaos_config

definition chaos_off :: chaos_config where
  "chaos_off = \<lparr>errorRate = 0, timeoutRate = 0, slowDripMs = 0\<rparr>"

definition receiver_init :: receiver where
  "receiver_init = \<lparr>requestLog = [], flapCounts = Map.empty, chaosConfig = chaos_off\<rparr>"

datatype answer = Sends int json | Sends_after int int json | Drips rat | Hangs

subsection \<open>\<open>logRequest\<close>\<close>

definition number_text :: "string \<Rightarrow> string" where
  "number_text h = (case js_number h of Some n \<Rightarrow> string_of_int n | None \<Rightarrow> ''NaN'')"

text \<open>\<open>verify(SIGNING_SECRET, Number(tsHeader), rawBody, sigHex)\<close>\<close>

definition verify_header :: "hmac \<Rightarrow> string \<Rightarrow> string \<Rightarrow> string \<Rightarrow> string \<Rightarrow> bool" where
  "verify_header hm secret tsHeader rawBody sigHex =
     (let expected = buffer_from_hex (to_hex (hm secret (number_text tsHeader @ ''.'' @ rawBody)));
          actual = buffer_from_hex sigHex
      in if length expected \<noteq> length actual then False else expected = actual)"

definition strip_prefix :: "string \<Rightarrow> string \<Rightarrow> string" where
  "strip_prefix p s = (if starts_with s p then drop (length p) s else s)"

definition truthy :: "string option \<Rightarrow> bool" where
  "truthy v \<longleftrightarrow> (case v of None \<Rightarrow> False | Some s \<Rightarrow> s \<noteq> [])"

definition header_number :: "string option \<Rightarrow> int option" where
  "header_number h = (case h of None \<Rightarrow> None | Some s \<Rightarrow> if s = [] then None else js_number s)"

definition log_entry :: "hmac \<Rightarrow> string \<Rightarrow> string \<Rightarrow> (string \<times> string) list \<Rightarrow> string \<Rightarrow> logged_request" where
  "log_entry hm SIGNING_SECRET path headers rawBody =
     (let idHeader = map_of headers ''x-webhook-id'';
          attemptHeader = map_of headers ''x-webhook-attempt'';
          tsHeader = map_of headers ''x-webhook-timestamp'';
          sigHeader = (case map_of headers ''x-webhook-signature'' of None \<Rightarrow> [] | Some x \<Rightarrow> x);
          sigHex = strip_prefix ''sha256='' sigHeader
      in \<lparr>lr_id = idHeader, lr_attempt = header_number attemptHeader, lr_ts = header_number tsHeader,
          lr_path = path, lr_body = rawBody,
          lr_validSignature =
            (truthy idHeader \<and> truthy tsHeader \<and> sigHex \<noteq> [] \<and>
             verify_header hm SIGNING_SECRET (the tsHeader) rawBody sigHex)\<rparr>)"

definition logRequest ::
  "hmac \<Rightarrow> string \<Rightarrow> string \<Rightarrow> (string \<times> string) list \<Rightarrow> string \<Rightarrow> receiver \<Rightarrow> logged_request \<times> receiver" where
  "logRequest hm SIGNING_SECRET path headers rawBody rc =
     (let entry = log_entry hm SIGNING_SECRET path headers rawBody
      in (entry, rc\<lparr>requestLog := requestLog rc @ [entry]\<rparr>))"

subsection \<open>The routes\<close>

definition invalid_signature :: answer where
  "invalid_signature = Sends 401 (JObj [(''error'', JStr ''invalid_signature'')])"

definition num_json :: "int \<Rightarrow> json" where
  "num_json n = JNum (string_of_int n)"

definition post_ok :: "logged_request \<Rightarrow> answer" where
  "post_ok entry = (if \<not> lr_validSignature entry then invalid_signature else Sends 200 (JObj [(''ok'', JBool True)]))"

text \<open>\<open>Number(...) || 500\<close>: a missing number and zero both give the default.\<close>

definition number_or :: "string \<Rightarrow> int \<Rightarrow> int" where
  "number_or s dflt = (case js_number s of None \<Rightarrow> dflt | Some n \<Rightarrow> if n = 0 then dflt else n)"

definition post_fail :: "string \<Rightarrow> logged_request \<Rightarrow> answer" where
  "post_fail status entry =
     (if \<not> lr_validSignature entry then invalid_signature
      else Sends (number_or status 500)
        (JObj [(''failed'', JBool True), (''status'', num_json (number_or status 500))]))"

definition post_timeout :: "string \<Rightarrow> logged_request \<Rightarrow> answer" where
  "post_timeout delay entry =
     (if \<not> lr_validSignature entry then invalid_signature
      else Sends_after (number_or delay 0) 200
        (JObj [(''ok'', JBool True), (''delayedMs'', num_json (number_or delay 0))]))"

definition post_flap :: "string \<Rightarrow> logged_request \<Rightarrow> receiver \<Rightarrow> answer \<times> receiver" where
  "post_flap n entry rc =
     (if \<not> lr_validSignature entry then (invalid_signature, rc)
      else
        let failuresBeforeSuccess = number_or n 0;
            key = (case lr_id entry of None \<Rightarrow> ''unknown'' | Some i \<Rightarrow> i);
            priorFailures = (case flapCounts rc key of None \<Rightarrow> 0 | Some k \<Rightarrow> k)
        in if int priorFailures < failuresBeforeSuccess
           then (Sends 503 (JObj [(''failed'', JBool True), (''failureNumber'', num_json (int priorFailures + 1)),
                   (''of'', num_json failuresBeforeSuccess)]),
                 rc\<lparr>flapCounts := (flapCounts rc)(key \<mapsto> priorFailures + 1)\<rparr>)
           else (Sends 200 (JObj [(''ok'', JBool True), (''recoveredAfterFailures'', num_json (int priorFailures))]), rc))"

definition or_keep :: "rat option \<Rightarrow> rat \<Rightarrow> rat" where
  "or_keep v old = (case v of None \<Rightarrow> old | Some x \<Rightarrow> x)"

definition post_chaos ::
  "rat option \<Rightarrow> rat option \<Rightarrow> rat option \<Rightarrow> rat \<Rightarrow> logged_request \<Rightarrow> receiver \<Rightarrow> answer \<times> receiver" where
  "post_chaos error_rate timeout_rate slow_drip_ms roll entry rc =
     (if \<not> lr_validSignature entry then (invalid_signature, rc)
      else
        let c = \<lparr>errorRate = or_keep error_rate (errorRate (chaosConfig rc)),
                 timeoutRate = or_keep timeout_rate (timeoutRate (chaosConfig rc)),
                 slowDripMs = or_keep slow_drip_ms (slowDripMs (chaosConfig rc))\<rparr>;
            rc' = rc\<lparr>chaosConfig := c\<rparr>
        in (if roll < timeoutRate c then Hangs
            else if roll < timeoutRate c + errorRate c
            then Sends 500 (JObj [(''chaos'', JStr ''error_rate'')])
            else if slowDripMs c > 0 then Drips (slowDripMs c)
            else Sends 200 (JObj [(''ok'', JBool True)]), rc'))"

text \<open>\<open>queryNumber\<close>: a parameter that occurs once and is a finite number; the values a name has are a list.\<close>

definition queryNumber :: "string list \<Rightarrow> rat option" where
  "queryNumber vs = (case vs of
     [v] \<Rightarrow> (case toNumber v of Finite x \<Rightarrow> Some x | _ \<Rightarrow> None)
   | _ \<Rightarrow> None)"

definition chaos_request :: "(string \<Rightarrow> string list) \<Rightarrow> rat \<Rightarrow> logged_request \<Rightarrow> receiver \<Rightarrow> answer \<times> receiver" where
  "chaos_request q roll entry rc =
     post_chaos (queryNumber (q ''error_rate'')) (queryNumber (q ''timeout_rate'')) (queryNumber (q ''slow_drip_ms'')) roll entry rc"

text \<open>The secret and the port of the receiver.\<close>

definition receiver_secret :: "(string \<Rightarrow> string option) \<Rightarrow> string" where
  "receiver_secret env = (case env ''TEST_RECEIVER_SECRET'' of None \<Rightarrow> ''whsec_test_receiver_secret'' | Some s \<Rightarrow> s)"

definition receiver_port :: "(string \<Rightarrow> string option) \<Rightarrow> numeric" where
  "receiver_port env = (case env ''PORT'' of None \<Rightarrow> Finite 4000 | Some p \<Rightarrow> toNumber p)"

definition get_requests :: "string option \<Rightarrow> receiver \<Rightarrow> logged_request list" where
  "get_requests webhook_id rc = (case webhook_id of
     None \<Rightarrow> requestLog rc | Some i \<Rightarrow> filter (\<lambda>r. lr_id r = Some i) (requestLog rc))"

definition reset :: "receiver \<Rightarrow> receiver" where
  "reset rc = \<lparr>requestLog = [], flapCounts = Map.empty, chaosConfig = chaos_off\<rparr>"

subsection \<open>Lemmas\<close>

text \<open>The knobs are persistent: a request without parameters behaves as the last one that set them.\<close>

lemma chaos_knobs_persist:
  assumes "lr_validSignature e" and "lr_validSignature e'"
    and "\<And>k. q' k = []"
  shows "fst (chaos_request q' roll e' (snd (chaos_request q roll0 e rc))) = fst (chaos_request q roll e rc)"
  using assms by (simp add: chaos_request_def post_chaos_def queryNumber_def or_keep_def Let_def)

lemma verify_header_iff:
  "verify_header hm secret h body sig \<longleftrightarrow> buffer_from_hex sig = hm secret (number_text h @ ''.'' @ body)"
  by (auto simp: verify_header_def Let_def)

lemma number_text_string_of_int [simp]: "number_text (string_of_int n) = string_of_int n"
  by (simp add: number_text_def)

lemma string_of_int_nonempty [simp]: "string_of_int n \<noteq> []"
  using string_of_nat_digits by (simp add: string_of_int_def)

text \<open>The receiver accepts what the worker sends when they share the secret.\<close>

lemma receiver_accepts:
  assumes "did \<noteq> []" and "\<And>k m. hm k m \<noteq> []"
    and "req = outbound_request hm now did n d"
  shows "log_entry hm (w_signingSecret d) path (hq_headers req) (hq_body req) =
    \<lparr>lr_id = Some did, lr_attempt = Some n, lr_ts = Some (now div 1000), lr_path = path,
     lr_body = outboundBody d, lr_validSignature = True\<rparr>"
proof -
  have "to_hex (hm k m) \<noteq> []" for k m using assms(2) [of k m] by (cases "hm k m") auto
  then show ?thesis
    using assms(1,3)
    by (simp add: outbound_request_def Let_def buildWebhookHeaders_def log_entry_def sign_def truthy_def
        strip_prefix_def starts_with_def header_number_def verify_header_iff signedPayload_def)
qed

text \<open>The first \<open>n\<close> valid requests of one delivery fail, the later ones succeed.\<close>

fun flap_run :: "string \<Rightarrow> logged_request list \<Rightarrow> receiver \<Rightarrow> answer list" where
  "flap_run n [] rc = []"
| "flap_run n (e # es) rc = (case post_flap n e rc of (a, rc') \<Rightarrow> a # flap_run n es rc')"

fun answer_status :: "answer \<Rightarrow> int option" where
  "answer_status (Sends c b) = Some c"
| "answer_status (Sends_after t c b) = Some c"
| "answer_status (Drips t) = Some 200"
| "answer_status Hangs = None"

lemma flap_run_statuses:
  assumes "\<forall>e \<in> set es. lr_validSignature e \<and> lr_id e = Some i"
    and "prior = (case flapCounts rc i of None \<Rightarrow> 0 | Some k \<Rightarrow> k)" and "prior \<le> n"
  shows "map answer_status (flap_run (string_of_int (int n)) es rc) =
    replicate (min (length es) (n - prior)) (Some 503) @ replicate (length es - (n - prior)) (Some 200)"
  using assms
proof (induction es arbitrary: rc prior)
  case (Cons e es)
  have n: "number_or (string_of_int (int n)) 0 = int n" by (simp add: number_or_def)
  show ?case
  proof (cases "prior < n")
    case True
    let ?rc = "rc\<lparr>flapCounts := (flapCounts rc)(i \<mapsto> prior + 1)\<rparr>"
    have "map answer_status (flap_run (string_of_int (int n)) es ?rc) =
        replicate (min (length es) (n - Suc prior)) (Some 503) @ replicate (length es - (n - Suc prior)) (Some 200)"
      using Cons.IH [of "Suc prior" ?rc] Cons.prems(1) True by simp
    moreover have "n - prior = Suc (n - Suc prior)" using True by simp
    ultimately show ?thesis
      using Cons.prems True n by (simp add: post_flap_def Let_def)
  next
    case False
    then have "n - prior = 0" by simp
    then show ?thesis
      using Cons.IH [of prior rc] Cons.prems False n by (simp add: post_flap_def Let_def)
  qed
qed simp

end
