(* ===== verification/Js_Date.thy ===== *)
theory Js_Date
  imports Js_Lib
begin

text \<open>
  Dates as texts. \<open>new Date(s)\<close> reads the format that \<open>toISOString\<close> prints for the years 0 to 9999;
  what it makes of other texts is up to the engine and an argument. Reading back a printed date gives
  the date (\<open>js_date_toISOString\<close>), so \<open>toISOString\<close> loses nothing.
\<close>

definition days_from_civil :: "int \<Rightarrow> int \<Rightarrow> int \<Rightarrow> int" where
  "days_from_civil y m d =
     (let y1 = (if m \<le> 2 then y - 1 else y);
          era = y1 div 400;
          yoe = y1 mod 400;
          mp = (if 2 < m then m - 3 else m + 9);
          doy = (153 * mp + 2) div 5 + d - 1
      in era * 146097 + (yoe * 365 + yoe div 4 - yoe div 100 + doy) - 719468)"

subsection \<open>The calendar\<close>

text \<open>A day of a 400-year era, counted from 1 March of year 0, as century, four-year group, year and day.\<close>

lemma era_day:
  assumes "0 \<le> (doe :: int)" and "doe < 146097"
  obtains n100 n4 n1 day where "doe = 36524 * n100 + 1461 * n4 + 365 * n1 + day"
    "0 \<le> n100" "n100 \<le> 3" "0 \<le> n4" "n4 \<le> 24" "0 \<le> n1" "n1 \<le> 3" "0 \<le> day" "day \<le> 365"
    "day = 365 \<longrightarrow> n1 = 3" "1461 * n4 + 365 * n1 + day = 36524 \<longrightarrow> n100 = 3"
proof -
  define n100 where "n100 = min (doe div 36524) 3"
  define r1 where "r1 = doe - 36524 * n100"
  define n4 where "n4 = r1 div 1461"
  define r2 where "r2 = r1 mod 1461"
  define n1 where "n1 = min (r2 div 365) 3"
  have "0 \<le> n100" "n100 \<le> 3" "0 \<le> r1" "r1 \<le> 36524" "r1 = 36524 \<longrightarrow> n100 = 3"
    using assms unfolding n100_def r1_def by (auto simp: min_def)
  moreover from this have "0 \<le> n4" "n4 \<le> 24" "r1 = 1461 * n4 + r2" "0 \<le> r2" "r2 \<le> 1460"
    unfolding n4_def r2_def by auto
  moreover from this have "0 \<le> n1" "n1 \<le> 3" "0 \<le> r2 - 365 * n1" "r2 - 365 * n1 \<le> 365" "r2 - 365 * n1 = 365 \<longrightarrow> n1 = 3"
    unfolding n1_def by (auto simp: min_def)
  ultimately show thesis using that [of n100 n4 n1 "r2 - 365 * n1"] unfolding r1_def by simp
qed

lemma year_of_era:
  assumes "0 \<le> (doe :: int)" and "doe < 146097"
  defines "yoe \<equiv> (doe - doe div 1460 + doe div 36524 - doe div 146096) div 365"
  shows "0 \<le> yoe" and "yoe < 400" and "0 \<le> doe - (365 * yoe + yoe div 4 - yoe div 100)"
    and "doe - (365 * yoe + yoe div 4 - yoe div 100) \<le> 365"
proof -
  obtain n100 n4 n1 day where doe: "doe = 36524 * n100 + 1461 * n4 + 365 * n1 + day"
    and n: "0 \<le> n100" "n100 \<le> 3" "0 \<le> n4" "n4 \<le> 24" "0 \<le> n1" "n1 \<le> 3" "0 \<le> day" "day \<le> 365"
      "day = 365 \<longrightarrow> n1 = 3" "1461 * n4 + 365 * n1 + day = 36524 \<longrightarrow> n100 = 3"
    using era_day [OF assms(1,2)] .
  define t where "t = (24 * n100 + n4 + 365 * n1 + day) div 1460"
  have "doe div 1460 = (24 * n100 + n4 + 365 * n1 + day + 1460 * (25 * n100 + n4)) div 1460"
    by (rule arg_cong [of _ _ "\<lambda>x. x div 1460"]) (simp add: doe)
  also have "\<dots> = 25 * n100 + n4 + t" unfolding t_def by simp
  finally have a: "doe div 1460 = 25 * n100 + n4 + t" .
  have b: "doe div 36524 - doe div 146096 = n100"
  proof (cases "doe = 146096")
    case True
    then show ?thesis using doe n by auto
  next
    case False
    then have "doe div 146096 = 0" using assms(1,2) by simp
    moreover have "36524 * n100 \<le> doe" "doe < 36524 * n100 + 36524"
      using doe n False assms(2) by auto
    then have "doe div 36524 = n100" by (simp add: div_pos_geq int_div_pos_eq [of _ _ _ "doe - 36524 * n100"])
    ultimately show ?thesis by simp
  qed
  have t: "0 \<le> day - t" "day - t \<le> 364" using n unfolding t_def by auto
  define y where "y = 100 * n100 + 4 * n4 + n1"
  have "doe - doe div 1460 + doe div 36524 - doe div 146096 = 365 * y + (day - t)"
    using a b doe by (simp add: y_def)
  then have yoe: "yoe = y" unfolding yoe_def using t by simp
  have "y div 4 = 25 * n100 + n4" "y div 100 = n100" using n unfolding y_def by simp_all
  then have doy: "doe - (365 * yoe + yoe div 4 - yoe div 100) = day" using doe yoe by (simp add: y_def)
  show "0 \<le> yoe" "yoe < 400" using yoe n unfolding y_def by simp_all
  show "0 \<le> doe - (365 * yoe + yoe div 4 - yoe div 100)" "doe - (365 * yoe + yoe div 4 - yoe div 100) \<le> 365"
    using doy n by simp_all
qed

lemma civil_from_days:
  assumes "civil_from_days days = (y, m, d)"
  shows "days_from_civil y m d = days" and "1 \<le> m" and "m \<le> 12" and "1 \<le> d" and "d \<le> 31"
proof -
  define era doe where "era = (days + 719468) div 146097" and "doe = (days + 719468) mod 146097"
  define yoe where "yoe = (doe - doe div 1460 + doe div 36524 - doe div 146096) div 365"
  define doy where "doy = doe - (365 * yoe + yoe div 4 - yoe div 100)"
  define mp where "mp = (5 * doy + 2) div 153"
  have "0 \<le> doe" "doe < 146097" unfolding doe_def by simp_all
  note y = year_of_era [OF this, folded yoe_def, folded doy_def]
  have mp: "0 \<le> mp" "mp \<le> 11" using y(3,4) unfolding mp_def by auto
  have days: "days = era * 146097 + doe - 719468" unfolding era_def doe_def by simp
  have "civil_from_days days = (yoe + era * 400 + (if (if mp < 10 then mp + 3 else mp - 9) \<le> 2 then 1 else 0),
      if mp < 10 then mp + 3 else mp - 9, doy - (153 * mp + 2) div 5 + 1)"
    by (simp only: civil_from_days_def Let_def mp_def doy_def yoe_def era_def doe_def)
  then have res: "m = (if mp < 10 then mp + 3 else mp - 9)" "d = doy - (153 * mp + 2) div 5 + 1"
    "y = yoe + era * 400 + (if m \<le> 2 then 1 else 0)"
    using assms by (simp_all only: prod.inject)
  show "1 \<le> m" "m \<le> 12" using res mp by auto
  show "1 \<le> d" "d \<le> 31" using res(2) y(3,4) unfolding mp_def by auto
  have "(if 2 < m then m - 3 else m + 9) = mp" "(if m \<le> 2 then y - 1 else y) = yoe + era * 400"
    using res mp by auto
  then show "days_from_civil y m d = days"
    using y(1,2) days res(2) by (simp add: days_from_civil_def Let_def doy_def)
qed

subsection \<open>Reading a printed date\<close>

definition num_at :: "nat \<Rightarrow> nat \<Rightarrow> string \<Rightarrow> int" where
  "num_at i w s = int (digits_val (take w (drop i s)))"

definition iso_ms :: "string \<Rightarrow> ms" where
  "iso_ms s = 86400000 * days_from_civil (num_at 0 4 s) (num_at 5 2 s) (num_at 8 2 s) +
     3600000 * num_at 11 2 s + 60000 * num_at 14 2 s + 1000 * num_at 17 2 s + num_at 20 3 s"

text \<open>\<open>new Date(s)\<close>; \<open>None\<close> is an Invalid Date.\<close>

definition js_date :: "(string \<Rightarrow> ms option) \<Rightarrow> string \<Rightarrow> ms option" where
  "js_date other s = (if toISOString (iso_ms s) = s then Some (iso_ms s) else other s)"

definition four_digit_year :: "ms \<Rightarrow> bool" where
  "four_digit_year t = (case civil_from_days (t div 86400000) of (y, _) \<Rightarrow> 0 \<le> y \<and> y \<le> 9999)"

lemma digits_val_foldl: "foldl (\<lambda>n c. 10 * n + digit_val c) k s = k * 10 ^ length s + digits_val s"
proof (induction s arbitrary: k)
  case (Cons c s)
  have "foldl (\<lambda>n c. 10 * n + digit_val c) (digit_val c) s = digit_val c * 10 ^ length s + digits_val s" by (rule Cons)
  then have "digits_val (c # s) = digit_val c * 10 ^ length s + digits_val s" by (simp add: digits_val_def)
  then show ?case using Cons [of "10 * k + digit_val c"] by (simp add: algebra_simps)
qed (simp add: digits_val_def)

lemma digits_val_zeros: "digits_val (replicate n (CHR ''0'') @ s) = digits_val s"
proof (induction n)
  case (Suc n)
  then show ?case by (simp add: digits_val_def digit_val_def)
qed simp

lemma length_string_of_nat: "n < 10 ^ w \<Longrightarrow> 1 \<le> w \<Longrightarrow> length (string_of_nat n) \<le> w"
proof (induction n arbitrary: w rule: string_of_nat.induct)
  case (1 n)
  show ?case
  proof (cases "n < 10")
    case False
    then obtain v where w: "w = Suc v" "1 \<le> v" using 1(2,3) by (cases w; cases "w - 1") auto
    then have "n div 10 < 10 ^ v" using 1(2) by simp
    then show ?thesis using 1(1) [OF False _ w(2)] w False by (subst string_of_nat.simps) simp
  qed (use 1 in \<open>subst string_of_nat.simps, simp\<close>)
qed

lemma pad_digits:
  assumes "0 \<le> n" and "n < 10 ^ w" and "1 \<le> w"
  shows "length (pad w n) = w" and "int (digits_val (pad w n)) = n"
proof -
  have "nat n < 10 ^ w" using assms by (simp add: nat_less_iff)
  then have "length (string_of_nat (nat n)) \<le> w" using assms(3) by (rule length_string_of_nat)
  then show "length (pad w n) = w" "int (digits_val (pad w n)) = n"
    using assms(1) by (simp_all add: pad_def string_of_int_def digits_val_zeros Let_def)
qed

lemma time_of_day:
  shows "3600000 * (r div 3600000) + 60000 * (r div 60000 mod 60) + 1000 * (r div 1000 mod 60) + r mod 1000 = (r :: int)"
proof -
  have "r div 60000 = r div 1000 div 60" "r div 3600000 = r div 60000 div 60" by (simp_all add: zdiv_zmult2_eq [symmetric])
  then show ?thesis
    using mult_div_mod_eq [of 1000 r] mult_div_mod_eq [of 60 "r div 1000"] mult_div_mod_eq [of 60 "r div 60000"] by linarith
qed

lemma iso_ms_fields:
  assumes "length y = 4" "length mo = 2" "length d = 2" "length h = 2" "length mi = 2" "length sec = 2" "length ms = 3"
  shows "iso_ms (y @ ''-'' @ mo @ ''-'' @ d @ ''T'' @ h @ '':'' @ mi @ '':'' @ sec @ ''.'' @ ms @ ''Z'') =
    86400000 * days_from_civil (int (digits_val y)) (int (digits_val mo)) (int (digits_val d)) +
    3600000 * int (digits_val h) + 60000 * int (digits_val mi) + 1000 * int (digits_val sec) + int (digits_val ms)"
  using assms by (simp add: iso_ms_def num_at_def)

lemma iso_ms_toISOString:
  assumes "four_digit_year t"
  shows "iso_ms (toISOString t) = t"
proof -
  obtain y m d where ymd: "civil_from_days (t div 86400000) = (y, m, d)" by (metis prod.exhaust)
  have y: "0 \<le> y" "y < 10 ^ 4" using assms ymd by (simp_all add: four_digit_year_def)
  note c = civil_from_days [OF ymd]
  define r where "r = t mod 86400000"
  have r: "0 \<le> r" "r < 86400000" unfolding r_def by simp_all
  have r': "r div 3600000 < 10 ^ 2" "0 \<le> r div 3600000" using r by simp_all
  note ps = pad_digits [of y 4] pad_digits [of m 2] pad_digits [of d 2] pad_digits [of "r div 3600000" 2]
    pad_digits [of "r div 60000 mod 60" 2] pad_digits [of "r div 1000 mod 60" 2] pad_digits [of "r mod 1000" 3]
  have iso: "toISOString t = pad 4 y @ ''-'' @ pad 2 m @ ''-'' @ pad 2 d @ ''T'' @ pad 2 (r div 3600000) @ '':'' @
      pad 2 (r div 60000 mod 60) @ '':'' @ pad 2 (r div 1000 mod 60) @ ''.'' @ pad 3 (r mod 1000) @ ''Z''"
    using ymd y by (simp add: toISOString_def iso_year_def r_def Let_def)
  have bounds: "m < 10 ^ 2" "0 \<le> m" "d < 10 ^ 2" "0 \<le> d" using c by simp_all
  have mods: "0 \<le> k mod 60" "k mod 60 < 10 ^ 2" "0 \<le> k mod 1000" "k mod 1000 < 10 ^ 3" for k :: int
    using pos_mod_bound [of 60 k] by simp_all
  have "iso_ms (toISOString t) = 86400000 * days_from_civil y m d + (3600000 * (r div 3600000) +
      60000 * (r div 60000 mod 60) + 1000 * (r div 1000 mod 60) + r mod 1000)"
    unfolding iso by (subst iso_ms_fields) (simp_all only: ps y bounds r' mods one_le_numeral add.assoc)
  also have "\<dots> = t" unfolding time_of_day c(1) by (simp add: r_def)
  finally show ?thesis .
qed

lemma js_date_toISOString [simp]: "four_digit_year t \<Longrightarrow> js_date other (toISOString t) = Some t"
  by (simp add: js_date_def iso_ms_toISOString)

end
