(* ===== verification/Delivery_Reads.thy ===== *)
theory Delivery_Reads
  imports Invariants Js_Text Js_Date "HOL-Library.List_Lexorder" "HOL-Library.Char_ord"
begin

text \<open>
  The read side of \<open>src/src/db/deliveries.repo.ts\<close> (\<open>list\<close>, \<open>listDlq\<close>, \<open>getDetail\<close>), with the status
  filter and the id check of the routes in \<open>src/src/api/routes/deliveries.ts\<close>. PostgreSQL's readings of
  texts (\<open>::uuid\<close>, \<open>::timestamptz\<close>) are arguments. Ids compare as texts, which on canonical uuids is
  their order.
\<close>

subsection \<open>Newest first\<close>

text \<open>The sort key of \<open>ORDER BY d.updated_at DESC, d.id DESC\<close>, smallest first.\<close>

datatype page_key = Page_key ts string

instantiation page_key :: linorder
begin

fun less_eq_page_key :: "page_key \<Rightarrow> page_key \<Rightarrow> bool" where
  "less_eq_page_key (Page_key t i) (Page_key u j) \<longleftrightarrow> u < t \<or> u = t \<and> j \<le> i"

definition less_page_key :: "page_key \<Rightarrow> page_key \<Rightarrow> bool" where
  "less_page_key a b \<longleftrightarrow> a \<le> b \<and> \<not> b \<le> a"

instance
proof
  fix a b c :: page_key
  show "a < b \<longleftrightarrow> a \<le> b \<and> \<not> b \<le> a" by (rule less_page_key_def)
  show "a \<le> a" by (cases a) simp
  show "a \<le> b \<Longrightarrow> b \<le> c \<Longrightarrow> a \<le> c" by (cases a; cases b; cases c) auto
  show "a \<le> b \<Longrightarrow> b \<le> a \<Longrightarrow> a = b" by (cases a; cases b) auto
  show "a \<le> b \<or> b \<le> a" by (cases a; cases b) auto
qed

end

definition row_key :: "delivery_row \<Rightarrow> page_key" where
  "row_key d = Page_key (d_updated_at d) (d_id d)"

text \<open>
  \<open>WHERE (updated_at, id) < cursor ORDER BY ... LIMIT limit + 1\<close>, then \<open>slice(0, limit)\<close> and
  \<open>hasMore\<close>.
\<close>

definition paginate :: "('a \<Rightarrow> page_key) \<Rightarrow> page_key option \<Rightarrow> nat \<Rightarrow> 'a list \<Rightarrow> 'a list \<times> bool" where
  "paginate key cursor limit rows =
     (let found = take (limit + 1) (sort_key key
            (filter (\<lambda>r. case cursor of None \<Rightarrow> True | Some c \<Rightarrow> c < key r) rows))
      in (take limit found, length found > limit))"

subsection \<open>\<open>list\<close>\<close>

text \<open>A \<open>Date\<close>: \<open>None\<close> is an Invalid Date.\<close>

type_synonym js_date_value = "ms option"

record list_filters =
  lf_statuses :: "string list"
  lf_endpointId :: "string option"
  lf_from :: "js_date_value option"
  lf_to :: "js_date_value option"

definition matches :: "string list \<Rightarrow> string option \<Rightarrow> ts option \<Rightarrow> ts option \<Rightarrow> delivery_row \<Rightarrow> bool" where
  "matches statuses endpoint from to d \<longleftrightarrow>
     (statuses = [] \<or> status_name (d_status d) \<in> set statuses) \<and>
     (case endpoint of None \<Rightarrow> True | Some e \<Rightarrow> d_endpoint_id d = e) \<and>
     (case from of None \<Rightarrow> True | Some t \<Rightarrow> t \<le> d_created_at d) \<and>
     (case to of None \<Rightarrow> True | Some t \<Rightarrow> d_created_at d \<le> t)"

text \<open>\<open>JOIN events ev ON ev.id = d.event_id\<close>: a row without its event is dropped.\<close>

definition joined :: "db \<Rightarrow> delivery_row list" where
  "joined s = filter (\<lambda>d. find_event s (d_event_id d) \<noteq> None) (deliveries s)"

text \<open>A parameter with a cast: the statement fails when PostgreSQL cannot read the text.\<close>

definition cast :: "pg_error \<Rightarrow> ('a \<Rightarrow> 'b option) \<Rightarrow> 'a option \<Rightarrow> exn + 'b option" where
  "cast err read v = (case v of
     None \<Rightarrow> Inr None
   | Some x \<Rightarrow> (case read x of None \<Rightarrow> Inl (PgExn err) | Some y \<Rightarrow> Inr (Some y)))"

text \<open>
  \<open>toISOString\<close> throws on an Invalid Date before the statement is sent; then the parameters are read in
  their order. The cursor's id is compared as the text it is.
\<close>

definition list_deliveries ::
  "(string \<Rightarrow> string option) \<Rightarrow> (string \<Rightarrow> ts option) \<Rightarrow> list_filters \<Rightarrow> (string \<times> string) option \<Rightarrow> nat \<Rightarrow>
   db \<Rightarrow> exn + (delivery_row list \<times> bool)" where
  "list_deliveries uuid timestamptz f cursor limit s =
     (if lf_from f = Some None \<or> lf_to f = Some None then Inl (ErrorExn ''Invalid time value'')
      else case cast Invalid_text_representation uuid (lf_endpointId f) of Inl e \<Rightarrow> Inl e | Inr endpoint \<Rightarrow>
      (case cast Invalid_datetime_format (\<lambda>d. timestamptz (toISOString (the d))) (lf_from f) of Inl e \<Rightarrow> Inl e | Inr from \<Rightarrow>
      (case cast Invalid_datetime_format (\<lambda>d. timestamptz (toISOString (the d))) (lf_to f) of Inl e \<Rightarrow> Inl e | Inr to \<Rightarrow>
      (case cast Invalid_datetime_format (\<lambda>(u, i). map_option (\<lambda>t. Page_key t i) (timestamptz u)) cursor of
         Inl e \<Rightarrow> Inl e
       | Inr after \<Rightarrow>
           Inr (paginate row_key after limit (filter (matches (lf_statuses f) endpoint from to) (joined s)))))))"

subsection \<open>\<open>listDlq\<close>\<close>

text \<open>\<open>dlq_entered_at\<close>: when the last transition to DLQ was written.\<close>

definition dlq_entered_at :: "db \<Rightarrow> string \<Rightarrow> ts option" where
  "dlq_entered_at s i =
     (case filter (\<lambda>t. t_delivery_id t = i \<and> t_to_status t = DLQ) (delivery_transitions s) of
        [] \<Rightarrow> None | ts \<Rightarrow> Some (t_created_at (last ts)))"

text \<open>
  The driver sends a \<open>Date\<close> with its milliseconds and an Invalid Date as a text PostgreSQL rejects. The
  cursor's id is a \<open>uuid\<close> parameter.
\<close>

definition listDlq ::
  "(string \<Rightarrow> string option) \<Rightarrow> (js_date_value \<times> string) option \<Rightarrow> nat \<Rightarrow> db \<Rightarrow> exn + (delivery_row list \<times> bool)" where
  "listDlq uuid cursor limit s =
     (case cast Invalid_datetime_format (map_option ts_of_date) (map_option fst cursor) of Inl e \<Rightarrow> Inl e | Inr t \<Rightarrow>
     (case cast Invalid_text_representation uuid (map_option snd cursor) of Inl e \<Rightarrow> Inl e | Inr i \<Rightarrow>
        Inr (paginate row_key (case (t, i) of (Some u, Some j) \<Rightarrow> Some (Page_key u j) | _ \<Rightarrow> None) limit
          (filter (\<lambda>d. d_status d = DLQ \<and> dlq_entered_at s (d_id d) \<noteq> None) (joined s)))))"

subsection \<open>\<open>getDetail\<close>\<close>

record delivery_detail =
  dt_delivery :: delivery_row
  dt_event :: event_row
  dt_endpoint :: endpoint_row
  dt_attempts :: "attempt_row list"
  dt_transitions :: "transition_row list"

definition getDetail :: "db \<Rightarrow> string \<Rightarrow> delivery_detail option" where
  "getDetail s i =
     (case find_delivery s i of None \<Rightarrow> None | Some d \<Rightarrow>
     (case find_event s (d_event_id d) of None \<Rightarrow> None | Some ev \<Rightarrow>
     (case find_endpoint s (d_endpoint_id d) of None \<Rightarrow> None | Some e \<Rightarrow>
        Some \<lparr>dt_delivery = d, dt_event = ev, dt_endpoint = e,
              dt_attempts = sort_key a_attempt_number
                (filter (\<lambda>a. a_delivery_id a = i) (delivery_attempts s)),
              dt_transitions = filter (\<lambda>t. t_delivery_id t = i) (delivery_transitions s)\<rparr>)))"

subsection \<open>The status filter and the id check of the routes\<close>

definition VALID_STATUSES :: "string list" where
  "VALID_STATUSES = map status_name [PENDING, DELIVERING, DELIVERED, FAILED, DLQ]"

definition parse_statuses :: "string option \<Rightarrow> string list" where
  "parse_statuses v = (case v of None \<Rightarrow> [] | Some s \<Rightarrow>
     if s = [] then []
     else filter (\<lambda>x. x \<in> set VALID_STATUSES) (map (\<lambda>w. toUpperCase (trim w)) (split_on (CHR '','') s)))"

text \<open>\<open>/^[0-9a-f]{8}-...$/i\<close>\<close>

definition is_uuid_text :: "string \<Rightarrow> bool" where
  "is_uuid_text s \<longleftrightarrow> length s = 36 \<and>
     list_all (\<lambda>(k, c). if k \<in> {8, 13, 18, 23 :: nat} then c = CHR ''-''
        else is_digit c \<or> c \<in> set ''abcdefABCDEF'') (enumerate 0 s)"

definition get_delivery :: "(string \<Rightarrow> string option) \<Rightarrow> db \<Rightarrow> string \<Rightarrow> exn + delivery_detail" where
  "get_delivery uuid s raw =
     (if \<not> is_uuid_text raw then Inl (AppExn (deliveryNotFound raw))
      else case uuid raw of
             None \<Rightarrow> Inl (PgExn Invalid_text_representation)
           | Some i \<Rightarrow> (case getDetail s i of
                           None \<Rightarrow> Inl (AppExn (deliveryNotFound raw))
                         | Some dt \<Rightarrow> Inr dt))"

subsection \<open>Pages\<close>

definition after_cursor :: "page_key option \<Rightarrow> delivery_row \<Rightarrow> bool" where
  "after_cursor cursor r = (case cursor of None \<Rightarrow> True | Some c \<Rightarrow> c < row_key r)"

lemma paginate_sorted:
  "paginate row_key cursor limit rows =
     (take limit (filter (after_cursor cursor) (sort_key row_key rows)),
      length (filter (after_cursor cursor) (sort_key row_key rows)) > limit)"
  by (auto simp: paginate_def filter_sort after_cursor_def [abs_def] Let_def min_def)

lemma sort_key_strict:
  assumes "distinct (map key xs)"
  shows "sorted_wrt (\<lambda>a b. key a < key b) (sort_key key xs)"
proof -
  have "distinct (map key (sort_key key xs))"
    using assms by (metis distinct_map distinct_sort set_sort)
  then have "sorted_wrt (<) (map key (sort_key key xs))"
    using sorted_sort_key [of key xs] by (simp only: strict_sorted_iff)
  then show ?thesis by (simp only: sorted_wrt_map)
qed

lemma filter_after_nth:
  assumes "sorted_wrt (\<lambda>a b. key a < (key b :: 'k :: linorder)) xs" and "j < length xs"
  shows "filter (\<lambda>r. key (xs ! j) < key r) xs = drop (Suc j) xs"
proof -
  have "\<not> key (xs ! j) < key r" if r: "r \<in> set (take (Suc j) xs)" for r
  proof -
    obtain k where k: "k \<le> j" "r = xs ! k" using r assms(2) by (fastforce simp: in_set_conv_nth less_Suc_eq_le)
    then show ?thesis
      using sorted_wrt_nth_less [OF assms(1), of k j] assms(2) by (cases "k = j") auto
  qed
  then have "filter (\<lambda>r. key (xs ! j) < key r) (take (Suc j) xs) = []"
    by (simp add: filter_empty_conv)
  moreover have "filter (\<lambda>r. key (xs ! j) < key r) (drop (Suc j) xs) = drop (Suc j) xs"
    using sorted_wrt_nth_less [OF assms(1), of j] assms(2) by (auto simp: filter_id_conv in_set_conv_nth)
  ultimately show ?thesis by (metis append_self_conv2 append_take_drop_id filter_append)
qed

lemma db_inv_joined: "db_inv s \<Longrightarrow> joined s = deliveries s"
  by (auto simp: joined_def filter_id_conv find_row_None db_inv_def keys_ok_def)

lemma db_inv_dlq_entered:
  assumes "db_inv s" and "d \<in> set (deliveries s)" and "d_status d = DLQ"
  shows "dlq_entered_at s (d_id d) \<noteq> None"
proof -
  have row: "transitions_of s (d_id d) \<noteq> []" "t_to_status (last (transitions_of s (d_id d))) = DLQ"
    using assms by (auto simp: db_inv_def row_ok_def)
  from last_in_set [OF row(1)] row(2)
  have "last (transitions_of s (d_id d)) \<in>
      set (filter (\<lambda>t. t_delivery_id t = d_id d \<and> t_to_status t = DLQ) (delivery_transitions s))"
    by (auto simp: transitions_of_def)
  then show ?thesis by (auto simp: dlq_entered_at_def filter_empty_conv split: list.splits)
qed

text \<open>Two deliveries in the DLQ, last updated at the given times.\<close>

definition demo_pages :: "ts \<Rightarrow> ts \<Rightarrow> db" where
  "demo_pages t1 t2 = \<lparr>
     endpoints = endpoints demo_db,
     events = map (\<lambda>(i, k). \<lparr>ev_id = i, ev_client_id = ''c1'', ev_idempotency_key = k,
       ev_event_type = ''order.paid'', ev_payload = JObj [], ev_received_at = 1000\<rparr>) [(''v1'', ''k1''), (''v2'', ''k2'')],
     deliveries = map (\<lambda>(i, v, t). \<lparr>d_id = i, d_event_id = v, d_endpoint_id = ''p1'', d_status = DLQ,
       d_attempt_count = 0, d_next_attempt_at = None, d_enqueued = True, d_created_at = 1000,
       d_updated_at = t\<rparr>) [(''d1'', ''v1'', t1), (''d2'', ''v2'', t2)],
     delivery_attempts = [],
     delivery_transitions = map (\<lambda>(i, t). \<lparr>t_delivery_id = i, t_from_status = Some FAILED, t_to_status = DLQ,
       t_reason = None, t_actor = Worker, t_created_at = t\<rparr>) [(''d1'', t1), (''d2'', t2)]\<rparr>"

lemma demo_pages_inv: "db_inv (demo_pages t1 t2)"
  by (simp add: demo_pages_def demo_db_def db_inv_def keys_ok_def row_ok_def attempts_of_def transitions_of_def)

subsection \<open>Properties\<close>

text \<open>
  The detail view of a delivery shows its whole history: attempts numbered 1, 2, 3 and so on, as many
  as \<open>attempt_count\<close>, and transitions in the order they were written, the last one leading to the status shown.
\<close>

lemma getDetail_history:
  assumes "db_inv s" and "find_delivery s i = Some d"
  shows "\<exists>dt. getDetail s i = Some dt \<and> dt_delivery dt = d \<and>
    map a_attempt_number (dt_attempts dt) = map int [1..<Suc (length (dt_attempts dt))] \<and>
    set (dt_attempts dt) = {a \<in> set (delivery_attempts s). a_delivery_id a = i} \<and>
    d_attempt_count d = int (length (dt_attempts dt)) \<and>
    dt_transitions dt = transitions_of s i \<and> t_to_status (last (dt_transitions dt)) = d_status d"
proof -
  obtain e ev where ref: "find_endpoint s (d_endpoint_id d) = Some e" "find_event s (d_event_id d) = Some ev"
    using db_inv_references [OF assms] .
  have row: "row_ok (attempts_of s i) (transitions_of s i) d" by (rule db_inv_row [OF assms])
  have "sorted (map int [1..<Suc n])" for n by (simp add: sorted_iff_nth_mono del: upt_Suc)
  then have "sorted (map a_attempt_number (attempts_of s i))" using row by (simp add: row_ok_def del: upt_Suc)
  then have "sort_key a_attempt_number (attempts_of s i) = attempts_of s i" by (rule sort_key_id_if_sorted)
  then show ?thesis
    using row ref assms(2) by (simp add: getDetail_def row_ok_def attempts_of_def transitions_of_def)
qed

end
