(* ===== verification/Cursor.thy ===== *)
theory Cursor
  imports Js_Date Json_Parse Errors
begin

text \<open>
  \<open>src/src/api/cursor.ts\<close>: the opaque cursor of the list routes, a JSON object in base64url, with the
  parts of Node's \<open>Buffer\<close> it goes through. The cursor schema is spelled out; the issue list that zod
  reports for a value it rejects is an argument.
\<close>

subsection \<open>base64url\<close>

definition b64_char :: "nat \<Rightarrow> char" where
  "b64_char n =
     (if n < 26 then char_of (65 + n)
      else if n < 52 then char_of (71 + n)
      else if n < 62 then char_of (n - 4)
      else if n = 62 then CHR ''-'' else CHR ''_'')"

text \<open>Decoding knows both alphabets.\<close>

definition b64_val :: "char \<Rightarrow> nat option" where
  "b64_val c = (let n = (of_char c :: nat) in
     if 65 \<le> n \<and> n \<le> 90 then Some (n - 65)
     else if 97 \<le> n \<and> n \<le> 122 then Some (n - 71)
     else if 48 \<le> n \<and> n \<le> 57 then Some (n + 4)
     else if c = CHR ''-'' \<or> c = CHR ''+'' then Some 62
     else if c = CHR ''_'' \<or> c = CHR ''/'' then Some 63
     else None)"

text \<open>\<open>toString('base64url')\<close>: three bytes to four characters, no padding.\<close>

fun b64_groups :: "nat list \<Rightarrow> nat list" where
  "b64_groups (a # b # c # bs) =
     a div 4 # (a mod 4 * 16 + b div 16) # (b mod 16 * 4 + c div 64) # c mod 64 # b64_groups bs"
| "b64_groups [a, b] = [a div 4, a mod 4 * 16 + b div 16, b mod 16 * 4]"
| "b64_groups [a] = [a div 4, a mod 4 * 16]"
| "b64_groups [] = []"

definition to_base64url :: "string \<Rightarrow> string" where
  "to_base64url bs = map b64_char (b64_groups (map of_char bs))"

text \<open>
  \<open>Buffer.from(s, 'base64url')\<close>: reading ends at the first \<open>=\<close>, characters outside the alphabet are
  passed over and a single character left over at the end is dropped.
\<close>

fun b64_ungroup :: "nat list \<Rightarrow> nat list" where
  "b64_ungroup (a # b # c # d # cs) =
     (a * 4 + b div 16) # (b mod 16 * 16 + c div 4) # (c mod 4 * 64 + d) # b64_ungroup cs"
| "b64_ungroup [a, b, c] = [a * 4 + b div 16, b mod 16 * 16 + c div 4]"
| "b64_ungroup [a, b] = [a * 4 + b div 16]"
| "b64_ungroup _ = []"

definition from_base64url :: "string \<Rightarrow> string" where
  "from_base64url s = map char_of (b64_ungroup (List.map_filter b64_val (takeWhile (\<lambda>c. c \<noteq> CHR ''='') s)))"

subsection \<open>\<open>toString('utf8')\<close>\<close>

text \<open>
  Bytes that are no UTF-8 become U+FFFD, one for each maximal part of a sequence. A lead byte gives the
  number of bytes to follow and the range of the next one.
\<close>

definition utf8_lead :: "nat \<Rightarrow> (nat \<times> nat \<times> nat) option" where
  "utf8_lead b =
     (if b < 0x80 then Some (0, 0, 0)
      else if 0xC2 \<le> b \<and> b \<le> 0xDF then Some (1, 0x80, 0xBF)
      else if b = 0xE0 then Some (2, 0xA0, 0xBF)
      else if b = 0xED then Some (2, 0x80, 0x9F)
      else if 0xE1 \<le> b \<and> b \<le> 0xEF then Some (2, 0x80, 0xBF)
      else if b = 0xF0 then Some (3, 0x90, 0xBF)
      else if 0xF1 \<le> b \<and> b \<le> 0xF3 then Some (3, 0x80, 0xBF)
      else if b = 0xF4 then Some (3, 0x80, 0x8F)
      else None)"

record utf8_pending =
  u_seen :: string
  u_needed :: nat
  u_lower :: nat
  u_upper :: nat

definition utf8_start :: "char \<Rightarrow> string \<times> utf8_pending option" where
  "utf8_start c = (case utf8_lead (of_char c) of
     None \<Rightarrow> (replacement, None)
   | Some (n, lo, hi) \<Rightarrow>
       if n = 0 then ([c], None)
       else ([], Some \<lparr>u_seen = [c], u_needed = n, u_lower = lo, u_upper = hi\<rparr>))"

definition utf8_step :: "utf8_pending option \<Rightarrow> char \<Rightarrow> string \<times> utf8_pending option" where
  "utf8_step p c = (case p of
     None \<Rightarrow> utf8_start c
   | Some u \<Rightarrow>
       if u_lower u \<le> of_char c \<and> of_char c \<le> u_upper u then
         (if u_needed u \<le> 1 then (u_seen u @ [c], None)
          else ([], Some \<lparr>u_seen = u_seen u @ [c], u_needed = u_needed u - 1, u_lower = 0x80, u_upper = 0xBF\<rparr>))
       else (replacement @ fst (utf8_start c), snd (utf8_start c)))"

fun utf8_decode :: "utf8_pending option \<Rightarrow> string \<Rightarrow> string" where
  "utf8_decode p [] = (if p = None then [] else replacement)"
| "utf8_decode p (c # cs) = fst (utf8_step p c) @ utf8_decode (snd (utf8_step p c)) cs"

definition utf8_toString :: "string \<Rightarrow> string" where
  "utf8_toString bs = utf8_decode None bs"

subsection \<open>The cursor\<close>

record cursor =
  cu_updatedAt :: string
  cu_id :: string

definition json_of_cursor :: "cursor \<Rightarrow> json" where
  "json_of_cursor c = JObj [(''updatedAt'', JStr (cu_updatedAt c)), (''id'', JStr (cu_id c))]"

definition encodeCursor :: "cursor \<Rightarrow> string" where
  "encodeCursor c = to_base64url (json_stringify (json_of_cursor c))"

text \<open>\<open>z.object({ updatedAt: z.string(), id: z.string() })\<close>; other members are stripped.\<close>

definition cursorSchema :: "json \<Rightarrow> cursor option" where
  "cursorSchema j = (case j of
     JObj kvs \<Rightarrow>
       (case (obj_get ''updatedAt'' kvs, obj_get ''id'' kvs) of
          (Some (JStr u), Some (JStr i)) \<Rightarrow> Some \<lparr>cu_updatedAt = u, cu_id = i\<rparr>
        | _ \<Rightarrow> None)
   | _ \<Rightarrow> None)"

definition cursor_not_json :: app_error where
  "cursor_not_json = AppError 400 ''INVALID_CURSOR'' ''cursor is not valid base64/JSON''"

definition cursor_invalid :: "json \<Rightarrow> app_error" where
  "cursor_invalid issues = AppErrorD 400 ''INVALID_CURSOR'' ''cursor failed validation'' (JObj [(''issues'', issues)])"

definition decodeCursor :: "(json \<Rightarrow> json) \<Rightarrow> string \<Rightarrow> exn + cursor" where
  "decodeCursor issues v =
     (case json_parse (utf8_toString (from_base64url v)) of
        None \<Rightarrow> Inl (AppExn cursor_not_json)
      | Some j \<Rightarrow>
          (case cursorSchema j of
             None \<Rightarrow> Inl (AppExn (cursor_invalid (issues j)))
           | Some c \<Rightarrow> Inr c))"

subsection \<open>Round trips\<close>

lemma b64_val_b64_char: "n < 64 \<Longrightarrow> b64_val (b64_char n) = Some n"
  by (auto simp: b64_val_def b64_char_def Let_def)

lemma b64_char_not_pad: "n < 64 \<Longrightarrow> b64_char n \<noteq> CHR ''=''"
proof
  assume "n < 64" and "b64_char n = CHR ''=''"
  then have "b64_val (CHR ''='') = Some n" by (metis b64_val_b64_char)
  then show False by (simp add: b64_val_def)
qed

lemma b64_groups_lt: "\<forall>x \<in> set bs. x < 256 \<Longrightarrow> \<forall>x \<in> set (b64_groups bs). x < 64"
  by (induction bs rule: b64_groups.induct) auto

lemma b64_ungroup_groups: "\<forall>x \<in> set bs. x < 256 \<Longrightarrow> b64_ungroup (b64_groups bs) = bs"
proof (induction bs rule: b64_groups.induct)
  case (1 a b c bs)
  have "b div 16 < 16" "c div 64 < 4" using 1(2) by (simp_all add: less_mult_imp_div_less)
  then have "a div 4 * 4 + (a mod 4 * 16 + b div 16) div 16 = a"
    "(a mod 4 * 16 + b div 16) mod 16 * 16 + (b mod 16 * 4 + c div 64) div 4 = b"
    "(b mod 16 * 4 + c div 64) mod 4 * 64 + c mod 64 = c"
    by (simp_all add: div_mult_mod_eq)
  then show ?case using 1 by simp
next
  case (2 a b)
  then have "b div 16 < 16" by (simp add: less_mult_imp_div_less)
  then show ?case by simp
qed simp_all

lemma map_filter_Some: "(\<And>x. x \<in> set xs \<Longrightarrow> f (g x) = Some x) \<Longrightarrow> List.map_filter f (map g xs) = xs"
  by (induction xs) simp_all

lemma from_base64url_to_base64url [simp]: "from_base64url (to_base64url bs) = bs"
proof -
  let ?ns = "map of_char bs :: nat list"
  have lt: "\<forall>x \<in> set ?ns. x < 256" by auto
  have lt64: "\<forall>x \<in> set (b64_groups ?ns). x < 64" by (rule b64_groups_lt [OF lt])
  then have "takeWhile (\<lambda>c. c \<noteq> CHR ''='') (to_base64url bs) = map b64_char (b64_groups ?ns)"
    by (auto simp: to_base64url_def takeWhile_eq_all_conv b64_char_not_pad)
  then show ?thesis
    using lt64 b64_ungroup_groups [OF lt]
    by (simp add: from_base64url_def map_filter_Some b64_val_b64_char comp_def)
qed

definition ascii :: "string \<Rightarrow> bool" where
  "ascii s \<longleftrightarrow> list_all (\<lambda>c. of_char c < (128 :: nat)) s"

lemma utf8_toString_ascii: "ascii s \<Longrightarrow> utf8_toString s = s"
  unfolding utf8_toString_def
  by (induction s) (simp_all add: ascii_def utf8_step_def utf8_start_def utf8_lead_def)

lemma ascii_append [simp]: "ascii (s @ t) \<longleftrightarrow> ascii s \<and> ascii t"
  by (simp add: ascii_def)

lemma ascii_Cons [simp]: "ascii (c # s) \<longleftrightarrow> of_char c < (128 :: nat) \<and> ascii s"
  by (simp add: ascii_def)

lemma ascii_Nil [simp]: "ascii []"
  by (simp add: ascii_def)

lemma hex_digit_ascii: "n < 16 \<Longrightarrow> of_char (hex_digit n) < (128 :: nat)"
  by (simp add: hex_digit_def)

lemma ascii_escape: "of_char c < (128 :: nat) \<Longrightarrow> ascii (json_escape_char c)"
  by (simp add: json_escape_char_def Let_def hex_digit_ascii)

lemma ascii_quote: "ascii s \<Longrightarrow> ascii (json_quote s)"
  by (induction s) (auto simp: json_quote_def ascii_escape)

lemma ascii_encoded: "ascii (cu_updatedAt c) \<Longrightarrow> ascii (cu_id c) \<Longrightarrow> ascii (json_stringify (json_of_cursor c))"
  by (simp add: json_of_cursor_def ascii_quote)

lemma decodeCursor_encodeCursor:
  assumes "ascii (cu_updatedAt c)" and "ascii (cu_id c)"
  shows "decodeCursor issues (encodeCursor c) = Inr c"
proof -
  have "json_ok (json_of_cursor c)" by (simp add: json_of_cursor_def)
  then show ?thesis
    using json_parse_printed [of "json_of_cursor c"] utf8_toString_ascii [OF ascii_encoded [OF assms]]
    by (simp add: decodeCursor_def encodeCursor_def) (simp add: cursorSchema_def json_of_cursor_def obj_get_def)
qed

lemma decodeCursor_refuses:
  assumes "decodeCursor issues v = Inl e"
  shows "\<exists>a. e = AppExn a \<and> statusCode a = 400 \<and> code a = ''INVALID_CURSOR''"
  using assms
  by (auto simp: decodeCursor_def cursor_not_json_def cursor_invalid_def AppError_def AppErrorD_def split: option.splits)

subsection \<open>Properties\<close>

text \<open>
  C31: a cursor survives its way through the client: decoding an encoded cursor gives the cursor, for every
  time and id in ASCII; and no text a client can send as a cursor makes decoding fail in another way than
  with 400 INVALID_CURSOR.
\<close>

theorem cursor_roundtrip:
  assumes "ascii (cu_updatedAt c)" and "ascii (cu_id c)"
  shows "decodeCursor issues (encodeCursor c) = Inr c \<and>
    (case decodeCursor issues v of Inr _ \<Rightarrow> True
     | Inl e \<Rightarrow> (\<exists>a. e = AppExn a \<and> statusCode a = 400 \<and> code a = ''INVALID_CURSOR''))"
  using decodeCursor_encodeCursor [OF assms] decodeCursor_refuses [of issues v] by (auto split: sum.split)

theorem cursor_roundtrip_witness:
  "decodeCursor (\<lambda>_. JNull) (encodeCursor \<lparr>cu_updatedAt = ''2026-06-11T10:00:00.000Z'', cu_id = ''d1''\<rparr>) =
     Inr \<lparr>cu_updatedAt = ''2026-06-11T10:00:00.000Z'', cu_id = ''d1''\<rparr>"
  using cursor_roundtrip [of "\<lparr>cu_updatedAt = ''2026-06-11T10:00:00.000Z'', cu_id = ''d1''\<rparr>" "\<lambda>_. JNull" "[]"]
  by (simp add: ascii_def)

end
