(* ===== verification/Read_Routes.thy ===== *)
theory Read_Routes
  imports Delivery_Reads Cursor
begin

text \<open>
  The list routes: \<open>GET /v1/deliveries\<close> (\<open>src/src/api/routes/deliveries.ts\<close>) and \<open>GET /v1/dlq\<close>
  (\<open>src/src/api/routes/dlq.ts\<close>), from the query string to the reply with its opaque cursor, and a client
  that follows the cursors. A query maps a name to the values it occurs with. What zod's \<open>uuid()\<close> accepts,
  the issue lists zod reports, how the engine reads dates in other formats and how PostgreSQL reads
  uuids and times are arguments, collected in \<open>read_env\<close>.
\<close>

type_synonym query = "string \<Rightarrow> string list"

record read_env =
  re_zod_uuid :: "string \<Rightarrow> bool"
  re_issues :: "query \<Rightarrow> json"
  re_cursor_issues :: "json \<Rightarrow> json"
  re_other_date :: "string \<Rightarrow> ms option"
  re_uuid :: "string \<Rightarrow> string option"
  re_timestamptz :: "string \<Rightarrow> ts option"

subsection \<open>Query parameters\<close>

text \<open>\<open>z.string().optional()\<close>: a name that occurs twice is an array and no string. \<open>None\<close> is a zod error.\<close>

definition z_optional_string :: "string list \<Rightarrow> string option option" where
  "z_optional_string vs = (case vs of [] \<Rightarrow> Some None | [v] \<Rightarrow> Some (Some v) | _ \<Rightarrow> None)"

text \<open>
  \<open>z.coerce.number().int().min(1).max(200).default(50)\<close>: \<open>Number\<close> of an array of two or more is \<open>NaN\<close>.
\<close>

definition z_limit :: "string list \<Rightarrow> nat option" where
  "z_limit vs = (case vs of [] \<Rightarrow> Some 50 | [v] \<Rightarrow> limit_of v | _ \<Rightarrow> None)"

text \<open>\<open>v ? new Date(v) : undefined\<close>\<close>

definition z_date :: "read_env \<Rightarrow> string option \<Rightarrow> js_date_value option" where
  "z_date env v = (case v of None \<Rightarrow> None | Some s \<Rightarrow> if s = [] then None else Some (js_date (re_other_date env) s))"

record list_query =
  lq_status :: "string list"
  lq_endpoint_id :: "string option"
  lq_from :: "js_date_value option"
  lq_to :: "js_date_value option"
  lq_limit :: nat
  lq_cursor :: "string option"

text \<open>The \<open>listQuerySchema\<close> of deliveries.ts; \<open>.catch(50)\<close> replaces a limit that does not parse.\<close>

definition deliveriesQuery :: "read_env \<Rightarrow> query \<Rightarrow> list_query option" where
  "deliveriesQuery env q =
     (case (z_optional_string (q ''status''), z_optional_string (q ''endpoint_id''), z_optional_string (q ''from''),
            z_optional_string (q ''to''), z_optional_string (q ''cursor'')) of
        (Some status, Some endpoint, Some from, Some to, Some cursor) \<Rightarrow>
          if (case endpoint of None \<Rightarrow> False | Some e \<Rightarrow> \<not> re_zod_uuid env e) then None
          else Some \<lparr>lq_status = parse_statuses status, lq_endpoint_id = endpoint, lq_from = z_date env from,
                 lq_to = z_date env to, lq_limit = (case z_limit (q ''limit'') of None \<Rightarrow> 50 | Some n \<Rightarrow> n),
                 lq_cursor = cursor\<rparr>
      | _ \<Rightarrow> None)"

text \<open>The \<open>listQuerySchema\<close> of dlq.ts: cursor and limit.\<close>

definition dlqQuery :: "query \<Rightarrow> (string option \<times> nat) option" where
  "dlqQuery q = (case (z_optional_string (q ''cursor''), z_limit (q ''limit'')) of
     (Some cursor, Some limit) \<Rightarrow> Some (cursor, limit)
   | _ \<Rightarrow> None)"

subsection \<open>Replies\<close>

definition json_date :: "ts \<Rightarrow> json" where
  "json_date t = JStr (toISOString (date_of_ts t))"

definition event_type_of :: "db \<Rightarrow> delivery_row \<Rightarrow> string" where
  "event_type_of s d = (case find_event s (d_event_id d) of None \<Rightarrow> [] | Some ev \<Rightarrow> ev_event_type ev)"

definition row_members :: "db \<Rightarrow> delivery_row \<Rightarrow> (string \<times> json) list" where
  "row_members s d =
     [(''id'', JStr (d_id d)), (''event_id'', JStr (d_event_id d)), (''endpoint_id'', JStr (d_endpoint_id d)),
      (''event_type'', JStr (event_type_of s d)), (''status'', JStr (status_name (d_status d))),
      (''attempt_count'', JNum (string_of_int (d_attempt_count d))),
      (''next_attempt_at'', case d_next_attempt_at d of None \<Rightarrow> JNull | Some t \<Rightarrow> json_date t),
      (''created_at'', json_date (d_created_at d)), (''updated_at'', json_date (d_updated_at d))]"

definition json_of_list_row :: "db \<Rightarrow> delivery_row \<Rightarrow> json" where
  "json_of_list_row s d = JObj (row_members s d)"

definition json_of_dlq_row :: "db \<Rightarrow> delivery_row \<Rightarrow> json" where
  "json_of_dlq_row s d = JObj (row_members s d @
     [(''dlq_entered_at'', case dlq_entered_at s (d_id d) of None \<Rightarrow> JNull | Some t \<Rightarrow> json_date t)])"

text \<open>The cursor for what follows a row: its \<open>updated_at\<close> as a \<open>Date\<close>, printed with milliseconds.\<close>

definition cursor_of :: "delivery_row \<Rightarrow> cursor" where
  "cursor_of d = \<lparr>cu_updatedAt = toISOString (date_of_ts (d_updated_at d)), cu_id = d_id d\<rparr>"

definition next_cursor :: "delivery_row list \<times> bool \<Rightarrow> string option" where
  "next_cursor p = (case p of (rows, hasMore) \<Rightarrow>
     if hasMore \<and> rows \<noteq> [] then Some (encodeCursor (cursor_of (last rows))) else None)"

definition page_reply :: "(delivery_row \<Rightarrow> json) \<Rightarrow> delivery_row list \<times> bool \<Rightarrow> reply" where
  "page_reply row p =
     \<lparr>rp_code = 200, rp_headers = [],
      rp_body = JObj [(''data'', JArr (map row (fst p))),
        (''next_cursor'', case next_cursor p of None \<Rightarrow> JNull | Some c \<Rightarrow> JStr c)]\<rparr>"

subsection \<open>The routes\<close>

text \<open>An empty cursor is falsy and means none.\<close>

definition decode_param :: "read_env \<Rightarrow> string option \<Rightarrow> exn + cursor option" where
  "decode_param env v =
     (case v of
        None \<Rightarrow> Inr None
      | Some c \<Rightarrow>
          if c = [] then Inr None
          else (case decodeCursor (re_cursor_issues env) c of Inl e \<Rightarrow> Inl e | Inr cu \<Rightarrow> Inr (Some cu)))"

definition get_deliveries :: "read_env \<Rightarrow> query \<Rightarrow> db \<Rightarrow> exn + reply" where
  "get_deliveries env q s =
     (case deliveriesQuery env q of
        None \<Rightarrow> Inl (AppExn (AppErrorD 400 ''VALIDATION_ERROR'' ''Invalid query parameters''
                  (JObj [(''issues'', re_issues env q)])))
      | Some lq \<Rightarrow>
          (case decode_param env (lq_cursor lq) of
             Inl e \<Rightarrow> Inl e
           | Inr cursor \<Rightarrow>
               (case list_deliveries (re_uuid env) (re_timestamptz env)
                       \<lparr>lf_statuses = lq_status lq, lf_endpointId = lq_endpoint_id lq, lf_from = lq_from lq, lf_to = lq_to lq\<rparr>
                       (map_option (\<lambda>c. (cu_updatedAt c, cu_id c)) cursor) (lq_limit lq) s of
                  Inl e \<Rightarrow> Inl e
                | Inr p \<Rightarrow> Inr (page_reply (json_of_list_row s) p))))"

definition get_dlq :: "read_env \<Rightarrow> query \<Rightarrow> db \<Rightarrow> exn + reply" where
  "get_dlq env q s =
     (case dlqQuery q of
        None \<Rightarrow> Inl (AppExn (validationError (re_issues env q)))
      | Some (cursorParam, limit) \<Rightarrow>
          (case decode_param env cursorParam of
             Inl e \<Rightarrow> Inl e
           | Inr cursor \<Rightarrow>
               (case listDlq (re_uuid env)
                       (map_option (\<lambda>c. (js_date (re_other_date env) (cu_updatedAt c), cu_id c)) cursor) limit s of
                  Inl e \<Rightarrow> Inl e
                | Inr p \<Rightarrow> Inr (page_reply (json_of_dlq_row s) p))))"

subsection \<open>A client that follows the cursors\<close>

text \<open>The rows of a page and the cursor of the next one; \<open>None\<close> when the reply is an error.\<close>

definition read_page :: "reply \<Rightarrow> (json list \<times> string option) option" where
  "read_page r = (case rp_body r of
     JObj [(_, JArr rows), (_, JNull)] \<Rightarrow> Some (rows, None)
   | JObj [(_, JArr rows), (_, JStr c)] \<Rightarrow> Some (rows, Some c)
   | _ \<Rightarrow> None)"

text \<open>
  All rows, page by page, within \<open>n\<close> requests; \<open>None\<close> when a request fails or \<open>n\<close> requests do not reach
  the last page.
\<close>

fun crawl :: "nat \<Rightarrow> (query \<Rightarrow> exn + reply) \<Rightarrow> query \<Rightarrow> json list option" where
  "crawl 0 get q = None"
| "crawl (Suc n) get q =
     (case read_page (respond (get q)) of
        None \<Rightarrow> None
      | Some (rows, None) \<Rightarrow> Some rows
      | Some (rows, Some c) \<Rightarrow> map_option (\<lambda>more. rows @ more) (crawl n get (q(''cursor'' := [c]))))"

subsection \<open>Printed cursors are read back\<close>

lemma ascii_string_of_nat: "ascii (string_of_nat n)"
  using string_of_nat_digits [of n] by (auto simp: ascii_def list_all_iff is_digit_def)

lemma ascii_pad: "ascii (pad w n)"
  by (auto simp: pad_def Let_def string_of_int_def ascii_string_of_nat) (simp_all add: ascii_def list_all_iff)

lemma ascii_toISOString: "ascii (toISOString t)"
  by (simp add: toISOString_def iso_year_def Let_def ascii_pad split: prod.split)

lemma encodeCursor_nonempty: "encodeCursor c \<noteq> []"
proof
  assume "encodeCursor c = []"
  then have "from_base64url (encodeCursor c) = []" by (simp add: from_base64url_def)
  then show False by (simp add: encodeCursor_def json_of_cursor_def)
qed

lemma decode_param_cursor_of:
  "ascii (d_id d) \<Longrightarrow> decode_param env (Some (encodeCursor (cursor_of d))) = Inr (Some (cursor_of d))"
  by (simp add: decode_param_def encodeCursor_nonempty decodeCursor_encodeCursor cursor_of_def ascii_toISOString)

subsection \<open>Following the cursors\<close>

lemma read_page_reply:
  "read_page (page_reply J p) = Some (map J (fst p), next_cursor p)"
  by (simp add: read_page_def page_reply_def split: option.split)

lemma crawl_pages:
  assumes lim: "1 \<le> limit"
    and nxt: "\<And>j. j < length xs \<Longrightarrow> get (q(''cursor'' := [encodeCursor (cursor_of (xs ! j))])) =
      Inr (page_reply J (take limit (drop (Suc j) xs), limit < length xs - Suc j))"
    and here: "get q' = Inr (page_reply J (take limit (drop m xs), limit < length xs - m))"
    and q': "\<And>c. q'(''cursor'' := [c]) = q(''cursor'' := [c])" and n: "length xs - m < n"
  shows "crawl n get q' = Some (map J (drop m xs))"
  using here q' n
proof (induction n arbitrary: q' m)
  case (Suc n)
  show ?case
  proof (cases "limit < length xs - m")
    case True
    define j where "j = m + limit - 1"
    have j: "j < length xs" "Suc j = m + limit" using True lim by (simp_all add: j_def)
    have "last (take limit (drop m xs)) = xs ! j" using True lim by (simp add: last_conv_nth j_def)
    then have c: "next_cursor (take limit (drop m xs), True) = Some (encodeCursor (cursor_of (xs ! j)))"
      using True lim by (auto simp: next_cursor_def)
    have "crawl n get (q(''cursor'' := [encodeCursor (cursor_of (xs ! j))])) = Some (map J (drop (Suc j) xs))"
      using Suc.prems(3) j lim True by (intro Suc.IH [OF nxt [OF j(1)] fun_upd_upd]) simp
    then have "crawl n get (q'(''cursor'' := [encodeCursor (cursor_of (xs ! j))])) = Some (map J (drop (Suc j) xs))"
      by (simp only: Suc.prems(2))
    moreover have "take limit (drop m xs) @ drop (Suc j) xs = drop m xs"
      using append_take_drop_id [of limit "drop m xs"] by (simp add: j(2) add.commute)
    then have "map J (take limit (drop m xs)) @ map J (drop (Suc j) xs) = map J (drop m xs)"
      by (simp only: map_append [symmetric])
    ultimately show ?thesis using Suc.prems(1) c True by (simp add: read_page_reply)
  next
    case False
    then show ?thesis using Suc.prems(1) by (simp add: read_page_reply next_cursor_def)
  qed
qed simp

text \<open>
  The rows the theorems speak of: ids in ASCII, as uuids are, and times in the years that are printed
  with four digits.
\<close>

definition printable_row :: "delivery_row \<Rightarrow> bool" where
  "printable_row d \<longleftrightarrow> ascii (d_id d) \<and> 0 \<le> d_updated_at d \<and> four_digit_year (date_of_ts (d_updated_at d))"

definition ms_aligned :: "delivery_row \<Rightarrow> bool" where
  "ms_aligned d \<longleftrightarrow> ts_of_date (date_of_ts (d_updated_at d)) = d_updated_at d"

text \<open>PostgreSQL reads a time in ISO 8601, as \<open>toISOString\<close> prints it.\<close>

definition reads_iso :: "(string \<Rightarrow> ts option) \<Rightarrow> bool" where
  "reads_iso timestamptz \<longleftrightarrow>
     (\<forall>t. 0 \<le> t \<and> four_digit_year t \<longrightarrow> timestamptz (toISOString t) = Some (ts_of_date t))"

text \<open>Both routes read a cursor back as the time of its row, without the microseconds.\<close>

definition cursor_key :: "delivery_row \<Rightarrow> page_key" where
  "cursor_key d = Page_key (ts_of_date (date_of_ts (d_updated_at d))) (d_id d)"

lemma cursor_key_aligned: "ms_aligned d \<Longrightarrow> cursor_key d = row_key d"
  by (simp add: ms_aligned_def cursor_key_def row_key_def)

lemma printable_row_time:
  assumes "printable_row d"
  shows "reads_iso tz \<Longrightarrow> tz (cu_updatedAt (cursor_of d)) = Some (ts_of_date (date_of_ts (d_updated_at d)))"
    and "js_date other (cu_updatedAt (cursor_of d)) = Some (date_of_ts (d_updated_at d))"
proof -
  have "0 \<le> date_of_ts (d_updated_at d)" using assms by (auto simp: printable_row_def date_of_ts_def pos_imp_zdiv_nonneg_iff)
  then show "reads_iso tz \<Longrightarrow> tz (cu_updatedAt (cursor_of d)) = Some (ts_of_date (date_of_ts (d_updated_at d)))"
    and "js_date other (cu_updatedAt (cursor_of d)) = Some (date_of_ts (d_updated_at d))"
    using assms by (simp_all add: printable_row_def reads_iso_def cursor_of_def)
qed

lemma cast_cursor:
  assumes "printable_row d" and "reads_iso tz"
  shows "cast Invalid_datetime_format (\<lambda>(u, i). map_option (\<lambda>t. Page_key t i) (tz u))
    (Some (cu_updatedAt (cursor_of d), cu_id (cursor_of d))) = Inr (Some (cursor_key d))"
  using printable_row_time(1) [OF assms] by (simp add: cast_def cursor_key_def cursor_of_def)

lemma paginate_first:
  "paginate row_key None limit rows = (take limit (sort_key row_key rows), limit < length (sort_key row_key rows))"
  by (simp add: paginate_sorted after_cursor_def [abs_def])

lemma paginate_next:
  assumes "distinct (map d_id rows)" and "j < length rows"
  defines "xs \<equiv> sort_key row_key rows"
  shows "paginate row_key (Some (row_key (xs ! j))) limit rows =
    (take limit (drop (Suc j) xs), limit < length xs - Suc j)"
proof -
  have "distinct (map row_key rows)" using assms(1) by (auto simp: distinct_map inj_on_def row_key_def)
  then have "filter (after_cursor (Some (row_key (xs ! j)))) xs = drop (Suc j) xs"
    using filter_after_nth [OF sort_key_strict, of row_key rows j] assms(2)
    by (simp add: after_cursor_def [abs_def] xs_def)
  then show ?thesis by (simp add: paginate_sorted xs_def)
qed

definition bound_time :: "read_env \<Rightarrow> js_date_value option \<Rightarrow> ts option" where
  "bound_time env d = (case d of Some (Some t) \<Rightarrow> re_timestamptz env (toISOString t) | _ \<Rightarrow> None)"

text \<open>The deliveries a query asks for.\<close>

definition wanted :: "read_env \<Rightarrow> list_query \<Rightarrow> delivery_row \<Rightarrow> bool" where
  "wanted env lq = matches (lq_status lq) (Option.bind (lq_endpoint_id lq) (re_uuid env))
     (bound_time env (lq_from lq)) (bound_time env (lq_to lq))"

lemma list_deliveries_page:
  assumes "list_deliveries uuid tz f None limit s = Inr p"
    and "cast Invalid_datetime_format (\<lambda>(u, i). map_option (\<lambda>t. Page_key t i) (tz u)) cursor = Inr after"
  shows "list_deliveries uuid tz f cursor limit' s = Inr (paginate row_key after limit'
    (filter (matches (lf_statuses f) (Option.bind (lf_endpointId f) uuid)
       (case lf_from f of Some (Some t) \<Rightarrow> tz (toISOString t) | _ \<Rightarrow> None)
       (case lf_to f of Some (Some t) \<Rightarrow> tz (toISOString t) | _ \<Rightarrow> None)) (joined s)))"
  using assms by (auto simp: list_deliveries_def cast_def split: option.splits if_splits sum.splits)

lemma z_optional_string_cursor: "z_optional_string [c] = Some (Some c)"
  by (simp add: z_optional_string_def)

lemma deliveriesQuery_cursor:
  assumes "deliveriesQuery env q = Some lq"
  shows "deliveriesQuery env (q(''cursor'' := [c])) = Some (lq\<lparr>lq_cursor := Some c\<rparr>)"
  using assms by (auto simp: deliveriesQuery_def z_optional_string_cursor split: option.splits if_splits)

lemma deliveriesQuery_limit: "deliveriesQuery env q = Some lq \<Longrightarrow> 1 \<le> lq_limit lq \<and> lq_limit lq \<le> 200"
  by (auto simp: deliveriesQuery_def z_limit_def dest: limit_of_bounds split: option.splits if_splits list.splits)

lemma deliveriesQuery_no_cursor: "deliveriesQuery env q = Some lq \<Longrightarrow> q ''cursor'' = [] \<Longrightarrow> lq_cursor lq = None"
  by (auto simp: deliveriesQuery_def z_optional_string_def split: option.splits if_splits list.splits)

lemma listing_follows:
  assumes inv: "db_inv s" and rows: "\<forall>d \<in> set (deliveries s). printable_row d \<and> ms_aligned d"
    and iso: "reads_iso (re_timestamptz env)" and q: "q ''cursor'' = []" "deliveriesQuery env q = Some lq"
    and ok: "get_deliveries env q s = Inr r"
  shows "crawl (Suc (length (deliveries s))) (\<lambda>q. get_deliveries env q s) q =
    Some (map (json_of_list_row s) (sort_key row_key (filter (wanted env lq) (deliveries s))))"
proof -
  define rs where "rs = filter (wanted env lq) (deliveries s)"
  define xs where "xs = sort_key row_key rs"
  let ?f = "\<lparr>lf_statuses = lq_status lq, lf_endpointId = lq_endpoint_id lq, lf_from = lq_from lq, lf_to = lq_to lq\<rparr>"
  obtain p where "list_deliveries (re_uuid env) (re_timestamptz env) ?f None (lq_limit lq) s = Inr p"
    using ok q deliveriesQuery_no_cursor [OF q(2,1)]
    by (auto simp: get_deliveries_def decode_param_def split: sum.splits)
  note page = list_deliveries_page [OF this, of _ _ "lq_limit lq"]
  have rs: "filter (matches (lq_status lq) (Option.bind (lq_endpoint_id lq) (re_uuid env))
      (bound_time env (lq_from lq)) (bound_time env (lq_to lq))) (joined s) = rs"
    by (simp add: rs_def wanted_def db_inv_joined [OF inv])
  have dist: "distinct (map d_id rs)" using inv by (simp add: rs_def db_inv_def keys_ok_def distinct_map_filter)
  have "length rs \<le> length (deliveries s)" by (simp add: rs_def)
  moreover have "get_deliveries env q s = Inr (page_reply (json_of_list_row s) (take (lq_limit lq) (drop 0 xs), lq_limit lq < length xs - 0))"
    using q deliveriesQuery_no_cursor [OF q(2,1)] page [of None None] rs
    by (simp add: get_deliveries_def decode_param_def cast_def paginate_first xs_def bound_time_def)
  moreover have "get_deliveries env (q(''cursor'' := [encodeCursor (cursor_of (xs ! j))])) s =
      Inr (page_reply (json_of_list_row s) (take (lq_limit lq) (drop (Suc j) xs), lq_limit lq < length xs - Suc j))"
    if j: "j < length xs" for j
  proof -
    have "xs ! j \<in> set (deliveries s)" using nth_mem [OF j] by (simp add: xs_def rs_def)
    then have d: "printable_row (xs ! j)" "ms_aligned (xs ! j)" using rows by blast+
    from page [OF cast_cursor [OF d(1) iso]] show ?thesis
      using decode_param_cursor_of [of "xs ! j" env] d cursor_key_aligned [OF d(2)] rs paginate_next [OF dist, of j "lq_limit lq"] j
      by (simp add: get_deliveries_def deliveriesQuery_cursor [OF q(2)] printable_row_def xs_def bound_time_def)
  qed
  ultimately have "crawl (Suc (length (deliveries s))) (\<lambda>q. get_deliveries env q s) q = Some (map (json_of_list_row s) (drop 0 xs))"
    using deliveriesQuery_limit [OF q(2)]
    by (intro crawl_pages [where limit = "lq_limit lq" and q = q]) (simp_all add: xs_def)
  then show ?thesis by (simp add: xs_def rs_def del: crawl.simps)
qed

subsection \<open>The DLQ listing and the status filter\<close>

text \<open>The query of \<open>GET /v1/deliveries?status=DLQ\<close> with the limit and cursor of \<open>q\<close>.\<close>

definition status_dlq :: "query \<Rightarrow> query" where
  "status_dlq q = (\<lambda>k. if k = ''status'' then [''DLQ''] else if k = ''limit'' \<or> k = ''cursor'' then q k else [])"

lemma parse_statuses_DLQ: "parse_statuses (Some ''DLQ'') = [''DLQ'']"
  by (simp add: parse_statuses_def trim_plain plain_def is_blank_def VALID_STATUSES_def upper_def)

lemma deliveriesQuery_status_dlq:
  assumes "z_limit (q ''limit'') = Some n" and "z_optional_string (q ''cursor'') = Some c"
  shows "deliveriesQuery env (status_dlq q) = Some \<lparr>lq_status = [''DLQ''], lq_endpoint_id = None, lq_from = None,
    lq_to = None, lq_limit = n, lq_cursor = c\<rparr>"
  using assms parse_statuses_DLQ by (simp add: deliveriesQuery_def status_dlq_def z_optional_string_def z_date_def)

lemma matches_DLQ: "matches [''DLQ''] None None None d \<longleftrightarrow> d_status d = DLQ"
  by (cases "d_status d") (simp_all add: matches_def)

lemma dlq_rows:
  assumes "db_inv s"
  shows "filter (\<lambda>d. d_status d = DLQ \<and> dlq_entered_at s (d_id d) \<noteq> None) (joined s) =
    filter (matches [''DLQ''] None None None) (joined s)"
  using db_inv_dlq_entered [OF assms] by (auto simp: db_inv_joined [OF assms] matches_DLQ intro!: filter_cong)

text \<open>A page of either route, for no cursor or the cursor of a row.\<close>

definition cursor_param :: "delivery_row option \<Rightarrow> string list" where
  "cursor_param prev = (case prev of None \<Rightarrow> [] | Some d \<Rightarrow> [encodeCursor (cursor_of d)])"

lemma decode_cursor_param:
  assumes "case prev of None \<Rightarrow> True | Some d \<Rightarrow> printable_row d"
  obtains c where "z_optional_string (cursor_param prev) = Some c" and "decode_param env c = Inr (map_option cursor_of prev)"
proof (cases prev)
  case None
  then show ?thesis using that [of None] by (simp add: cursor_param_def z_optional_string_def decode_param_def)
next
  case (Some d)
  then show ?thesis
    using assms that [of "Some (encodeCursor (cursor_of d))"] decode_param_cursor_of [of d env]
    by (simp add: cursor_param_def z_optional_string_def printable_row_def)
qed

lemma get_dlq_page:
  assumes inv: "db_inv s" and n: "z_limit (q ''limit'') = Some n" and q: "q ''cursor'' = cursor_param prev"
    and prev: "case prev of None \<Rightarrow> True | Some d \<Rightarrow> printable_row d \<and> re_uuid env (d_id d) = Some (d_id d)"
  shows "get_dlq env q s = Inr (page_reply (json_of_dlq_row s)
    (paginate row_key (map_option cursor_key prev) n (filter (matches [''DLQ''] None None None) (joined s))))"
proof -
  obtain c where "z_optional_string (cursor_param prev) = Some c" "decode_param env c = Inr (map_option cursor_of prev)"
    using prev by (auto intro: decode_cursor_param [of prev env] split: option.splits)
  then show ?thesis
    using n q prev printable_row_time(2) [of _ "re_other_date env"] dlq_rows [OF inv]
    by (auto simp: get_dlq_def dlqQuery_def listDlq_def cast_def cursor_key_def cursor_of_def split: option.splits)
qed

lemma get_deliveries_dlq_page:
  assumes n: "z_limit (q ''limit'') = Some n" and q: "q ''cursor'' = cursor_param prev"
    and prev: "case prev of None \<Rightarrow> True | Some d \<Rightarrow> printable_row d" and iso: "reads_iso (re_timestamptz env)"
  shows "get_deliveries env (status_dlq q) s = Inr (page_reply (json_of_list_row s)
    (paginate row_key (map_option cursor_key prev) n (filter (matches [''DLQ''] None None None) (joined s))))"
proof -
  obtain c where c: "z_optional_string (cursor_param prev) = Some c" "decode_param env c = Inr (map_option cursor_of prev)"
    using decode_cursor_param [OF prev] .
  have "cast Invalid_datetime_format (\<lambda>(u, i). map_option (\<lambda>t. Page_key t i) (re_timestamptz env u))
      (map_option (\<lambda>c. (cu_updatedAt c, cu_id c)) (map_option cursor_of prev)) = Inr (map_option cursor_key prev)"
    using prev cast_cursor [OF _ iso] by (cases prev) (simp_all add: cast_def [where v = None])
  then show ?thesis
    using c q deliveriesQuery_status_dlq [of q n c env] n
    by (simp add: get_deliveries_def list_deliveries_def cast_def [where v = None])
qed

subsection \<open>An instance of the arguments\<close>

text \<open>PostgreSQL reading ISO times with \<open>js_date\<close>; uuids as they are.\<close>

definition demo_read_env :: read_env where
  "demo_read_env = \<lparr>re_zod_uuid = (\<lambda>_. True), re_issues = (\<lambda>_. JArr []), re_cursor_issues = (\<lambda>_. JArr []),
     re_other_date = (\<lambda>_. None), re_uuid = Some, re_timestamptz = (\<lambda>u. map_option ts_of_date (js_date (\<lambda>_. None) u))\<rparr>"

lemma demo_read_env_iso: "reads_iso (re_timestamptz demo_read_env)"
  by (simp add: reads_iso_def demo_read_env_def)

definition one_per_page :: query where
  "one_per_page = (\<lambda>_. [])(''limit'' := [''1''])"

lemma limit_one: "z_limit (one_per_page ''limit'') = Some 1"
  using limit_digits [of "''1''"] by (simp add: one_per_page_def z_limit_def is_digit_def digits_val_def digit_val_def)

lemma demo_query:
  "deliveriesQuery demo_read_env one_per_page =
     Some \<lparr>lq_status = [], lq_endpoint_id = None, lq_from = None, lq_to = None, lq_limit = 1, lq_cursor = None\<rparr>"
  using limit_one
  by (simp add: deliveriesQuery_def one_per_page_def z_optional_string_def parse_statuses_def z_date_def)

lemma epoch_day: "0 \<le> t \<Longrightarrow> t < 86400000 \<Longrightarrow> four_digit_year t"
proof -
  assume "0 \<le> t" and "t < 86400000"
  then have "t div 86400000 = 0" by simp
  moreover have "civil_from_days 0 = (1970, 1, 1)" by code_simp
  ultimately show ?thesis by (simp add: four_digit_year_def)
qed

lemma demo_pages_printable:
  assumes "t1 \<in> {2000, 2400, 2500, 3000}" and "t2 \<in> {2000, 2400, 2500, 3000}"
  shows "\<forall>d \<in> set (deliveries (demo_pages t1 t2)). printable_row d"
proof -
  have "0 \<le> t \<and> four_digit_year (date_of_ts t)" if "t \<in> {2000, 2400, 2500, 3000}" for t
    using that by (auto simp: date_of_ts_def epoch_day)
  then show ?thesis using assms by (simp add: demo_pages_def printable_row_def)
qed

subsection \<open>Properties\<close>

text \<open>
  C25: a client that asks GET /v1/deliveries for page after page, passing each opaque \<open>next_cursor\<close> back,
  reaches the last page after at most one request per delivery and one more, and then has every delivery
  that matches its filters exactly once, newest first, whatever page size it chose, provided the times of
  the rows have no microseconds.
\<close>

theorem listing_complete:
  assumes "db_inv s" and "\<forall>d \<in> set (deliveries s). printable_row d \<and> ms_aligned d"
    and "reads_iso (re_timestamptz env)" and "q ''cursor'' = []" and "deliveriesQuery env q = Some lq"
    and "get_deliveries env q s = Inr r"
  shows "crawl (Suc (length (deliveries s))) (\<lambda>q. get_deliveries env q s) q =
    Some (map (json_of_list_row s) (sort_key row_key (filter (wanted env lq) (deliveries s))))"
  by (rule listing_follows [OF assms])

theorem listing_complete_witness:
  "crawl 3 (\<lambda>q. get_deliveries demo_read_env q (demo_pages 2000 3000)) one_per_page =
     Some (map (json_of_list_row (demo_pages 2000 3000)) (rev (deliveries (demo_pages 2000 3000))))"
proof -
  let ?s = "demo_pages 2000 3000"
  have rows: "\<forall>d \<in> set (deliveries ?s). printable_row d \<and> ms_aligned d"
    using demo_pages_printable [of 2000 3000] by (simp add: demo_pages_def ms_aligned_def ts_of_date_def date_of_ts_def)
  obtain r where "get_deliveries demo_read_env one_per_page ?s = Inr r"
    by (simp add: get_deliveries_def demo_query decode_param_def list_deliveries_def cast_def)
  from listing_complete [OF demo_pages_inv rows demo_read_env_iso _ demo_query this]
  have "crawl (Suc (length (deliveries ?s))) (\<lambda>q. get_deliveries demo_read_env q ?s) one_per_page =
    Some (map (json_of_list_row ?s) (sort_key row_key (deliveries ?s)))"
    by (simp add: one_per_page_def wanted_def matches_def bound_time_def del: crawl.simps)
  moreover have "sort_key row_key (deliveries ?s) = rev (deliveries ?s)" by (simp add: demo_pages_def row_key_def less_page_key_def)
  moreover have "Suc (length (deliveries ?s)) = 3" by (simp add: demo_pages_def)
  ultimately show ?thesis by (simp only:)
qed



text \<open>
  The proviso on microseconds is needed. The cursor drops the microseconds of \<open>updated_at\<close>, so when
  two deliveries were updated within one millisecond, a client of GET /v1/dlq that takes one row per page
  is told that there is a next page, gets an empty last page, and never sees the second delivery.
\<close>

lemma listing_skips_rows:
  "crawl 3 (\<lambda>q. get_dlq demo_read_env q (demo_pages 2500 2400)) one_per_page =
     Some [json_of_dlq_row (demo_pages 2500 2400) (hd (deliveries (demo_pages 2500 2400)))] \<and>
   length (filter (\<lambda>d. d_status d = DLQ) (deliveries (demo_pages 2500 2400))) = 2"
proof -
  let ?s = "demo_pages 2500 2400"
  let ?d = "hd (deliveries ?s)"
  let ?rows = "filter (matches [''DLQ''] None None None) (joined ?s)"
  have d: "printable_row ?d" using demo_pages_printable [of 2500 2400] by (simp add: demo_pages_def)
  have first: "paginate row_key None 1 ?rows = ([?d], True)"
    and second: "paginate row_key (Some (cursor_key ?d)) 1 ?rows = ([], False)"
    by code_simp+
  have "get_dlq demo_read_env one_per_page ?s = Inr (page_reply (json_of_dlq_row ?s) ([?d], True))"
    using get_dlq_page [OF demo_pages_inv, where q = one_per_page and prev = None and n = 1 and env = demo_read_env] limit_one first
    by (simp add: one_per_page_def cursor_param_def)
  moreover have "get_dlq demo_read_env (one_per_page(''cursor'' := [encodeCursor (cursor_of ?d)])) ?s =
      Inr (page_reply (json_of_dlq_row ?s) ([], False))"
    using get_dlq_page [OF demo_pages_inv, where prev = "Some ?d" and env = demo_read_env and n = 1
        and q = "one_per_page(''cursor'' := [encodeCursor (cursor_of ?d)])"] limit_one second d
    by (simp add: cursor_param_def) (simp add: demo_read_env_def)
  ultimately have "crawl 3 (\<lambda>q. get_dlq demo_read_env q ?s) one_per_page = Some [json_of_dlq_row ?s ?d]"
    by (simp add: numeral_3_eq_3 read_page_reply) (simp add: next_cursor_def read_page_reply)
  then show ?thesis by (simp add: demo_pages_def del: crawl.simps)
qed

end
