(* ===== verification/Stats.thy ===== *)
theory Stats
  imports Complex_Main Invariants Memo_Ttl
begin

text \<open>
  The read routes that summarise: \<open>src/src/api/routes/stats.ts\<close> (\<open>getDbStats\<close> and the answer of
  GET /v1/stats) and GET /v1/endpoints of \<open>src/src/api/routes/endpoints.ts\<close>. The two memoised
  functions of the stats route follow \<open>memoTtl\<close> (theory \<open>Memo_Ttl\<close>); here are the queries they wrap
  and what the route makes of their results.
\<close>

subsection \<open>\<open>getDbStats\<close>\<close>

record db_stats =
  st_counts :: "(string \<times> int) list"
  st_oldest_pending_age_s :: "rat option"

definition status_count :: "db \<Rightarrow> status \<Rightarrow> int" where
  "status_count s st = int (length (filter (\<lambda>d. d_status d = st) (deliveries s)))"

text \<open>\<open>GROUP BY status\<close> has no row for a status that does not occur: the initial 0 stays.\<close>

definition getDbStats :: "ts \<Rightarrow> db \<Rightarrow> db_stats" where
  "getDbStats now s =
     \<lparr>st_counts = map (\<lambda>st. (status_name st, status_count s st)) [PENDING, DELIVERING, DELIVERED, FAILED, DLQ],
      st_oldest_pending_age_s =
        (case map d_created_at (filter (\<lambda>d. d_status d = PENDING) (deliveries s)) of
           [] \<Rightarrow> None
         | t # ts \<Rightarrow> Some (of_int (now - fold min ts t) / 1000000))\<rparr>"

subsection \<open>GET /v1/stats\<close>

record stats_reply =
  sr_deliveries :: "(string \<times> int) list"
  sr_delivery_queue :: "job_state \<Rightarrow> nat option"
  sr_dlq_queue :: "job_state \<Rightarrow> nat option"
  sr_oldest_pending_age_s :: "rat option"
  sr_backpressure_active :: bool

text \<open>\<open>Promise.all\<close>: the route throws when one of the two memoised calls does.\<close>

definition get_stats ::
  "config \<Rightarrow> exn + db_stats \<Rightarrow> exn + ((job_state \<Rightarrow> nat option) \<times> (job_state \<Rightarrow> nat option)) \<Rightarrow> exn + stats_reply" where
  "get_stats cfg dbs queues =
     (case dbs of Inl e \<Rightarrow> Inl e | Inr ds \<Rightarrow>
     (case queues of Inl e \<Rightarrow> Inl e | Inr (delivery, dlq) \<Rightarrow>
        Inr \<lparr>sr_deliveries = st_counts ds, sr_delivery_queue = delivery, sr_dlq_queue = dlq,
             sr_oldest_pending_age_s = st_oldest_pending_age_s ds,
             sr_backpressure_active =
               count_of delivery Waiting + count_of delivery Delayed > BACKPRESSURE_QUEUE_LIMIT cfg\<rparr>))"

subsection \<open>GET /v1/endpoints\<close>

text \<open>An empty \<open>client_id\<close> is no filter. Rows of equal age come in the order of the table.\<close>

definition get_endpoints :: "string option \<Rightarrow> db \<Rightarrow> endpoint_row list" where
  "get_endpoints client_id s =
     sort_key (\<lambda>e. - ep_created_at e)
       (case client_id of
          None \<Rightarrow> endpoints s
        | Some c \<Rightarrow> if c = [] then endpoints s else filter (\<lambda>e. ep_client_id e = c) (endpoints s))"

subsection \<open>Lemmas\<close>

text \<open>The counts partition the deliveries.\<close>

lemma stats_counts_total:
  "sum_list (map snd (st_counts (getDbStats now s))) = int (length (deliveries s))"
proof -
  have "status_count s PENDING + status_count s DELIVERING + status_count s DELIVERED +
      status_count s FAILED + status_count s DLQ = int (length (deliveries s))"
    unfolding status_count_def
  proof (induction "deliveries s" arbitrary: s)
    case (Cons d ds)
    from Cons.hyps(1) [of "s\<lparr>deliveries := ds\<rparr>"] Cons.hyps(2) [symmetric]
    show ?case by (cases "d_status d") auto
  qed simp
  then show ?thesis by (simp add: getDbStats_def)
qed

lemma fold_min_le: "fold min ts (t :: int) \<le> t \<and> (\<forall>u \<in> set ts. fold min ts t \<le> u)"
proof (induction ts arbitrary: t)
  case (Cons u ts)
  from Cons.IH [of "min u t"] have "fold min ts (min u t) \<le> u" "fold min ts (min u t) \<le> t" by auto
  then show ?case using Cons.IH [of "min u t"] by simp
qed simp

text \<open>No PENDING delivery is older than the age reported.\<close>

lemma oldest_pending_bounds:
  assumes "d \<in> set (deliveries s)" and "d_status d = PENDING"
  shows "\<exists>a. st_oldest_pending_age_s (getDbStats now s) = Some a \<and> of_int (now - d_created_at d) / 1000000 \<le> a"
proof -
  have mem: "d_created_at d \<in> set (map d_created_at (filter (\<lambda>d. d_status d = PENDING) (deliveries s)))"
    using assms by auto
  then obtain t ts where tts: "map d_created_at (filter (\<lambda>d. d_status d = PENDING) (deliveries s)) = t # ts"
    by (cases "map d_created_at (filter (\<lambda>d. d_status d = PENDING) (deliveries s))") auto
  then have "fold min ts t \<le> d_created_at d" using mem fold_min_le [of ts t] by auto
  then have "of_int (now - d_created_at d) / 1000000 \<le> (of_int (now - fold min ts t) / 1000000 :: rat)"
    by (intro divide_right_mono) auto
  moreover have "st_oldest_pending_age_s (getDbStats now s) = Some (of_int (now - fold min ts t) / 1000000)"
    by (simp add: getDbStats_def tts)
  ultimately show ?thesis by blast
qed

text \<open>The route reports backpressure exactly when ingestion sheds on the same counts.\<close>

lemma stats_backpressure_agrees:
  assumes "get_stats cfg dbs (Inr (delivery, dlq)) = Inr r"
  shows "isOverloaded cfg (Inr delivery) = Inr (sr_backpressure_active r)"
  using assms by (auto simp: get_stats_def isOverloaded_def depth_over_limit_def split: sum.splits)

lemma get_endpoints_set:
  "set (get_endpoints client_id s) =
     {e \<in> set (endpoints s). client_id = None \<or> client_id = Some [] \<or> client_id = Some (ep_client_id e)}"
  by (auto simp: get_endpoints_def split: option.splits)

end
