(* ===== verification/Api_Types.thy ===== *)
theory Api_Types
  imports Read_Routes Stats Api_Write Dlq_Handler
begin

text \<open>
  The interface types of \<open>src/dashboard/src/types.ts\<close> as predicates on JSON values, and the bodies the
  read routes send. TypeScript types are structural: a value of an interface has the members the
  interface names, and may have more.
\<close>

subsection \<open>TypeScript types\<close>

fun is_string :: "json \<Rightarrow> bool" where
  "is_string (JStr _) = True"
| "is_string _ = False"

fun is_number :: "json \<Rightarrow> bool" where
  "is_number (JNum _) = True"
| "is_number _ = False"

fun is_boolean :: "json \<Rightarrow> bool" where
  "is_boolean (JBool _) = True"
| "is_boolean _ = False"

definition or_null :: "(json \<Rightarrow> bool) \<Rightarrow> json \<Rightarrow> bool" where
  "or_null T j \<longleftrightarrow> j = JNull \<or> T j"

fun array_of :: "(json \<Rightarrow> bool) \<Rightarrow> json \<Rightarrow> bool" where
  "array_of T (JArr xs) = list_all T xs"
| "array_of T _ = False"

text \<open>\<open>Record<string, T>\<close>\<close>

fun record_of :: "(json \<Rightarrow> bool) \<Rightarrow> json \<Rightarrow> bool" where
  "record_of T (JObj kvs) = list_all (\<lambda>(k, v). T v) kvs"
| "record_of T _ = False"

definition member :: "string \<Rightarrow> json \<Rightarrow> json option" where
  "member k j = (case j of JObj kvs \<Rightarrow> obj_get k kvs | _ \<Rightarrow> None)"

definition has :: "string \<Rightarrow> (json \<Rightarrow> bool) \<Rightarrow> json \<Rightarrow> bool" where
  "has k T j \<longleftrightarrow> (case member k j of None \<Rightarrow> False | Some v \<Rightarrow> T v)"

definition DeliveryListItem :: "json \<Rightarrow> bool" where
  "DeliveryListItem j \<longleftrightarrow>
     has ''id'' is_string j \<and> has ''event_id'' is_string j \<and> has ''endpoint_id'' is_string j \<and>
     has ''event_type'' is_string j \<and> has ''status'' is_string j \<and> has ''attempt_count'' is_number j \<and>
     has ''next_attempt_at'' (or_null is_string) j \<and> has ''created_at'' is_string j \<and> has ''updated_at'' is_string j"

definition DeliveryListResponse :: "json \<Rightarrow> bool" where
  "DeliveryListResponse j \<longleftrightarrow> has ''data'' (array_of DeliveryListItem) j \<and> has ''next_cursor'' (or_null is_string) j"

definition AttemptDetail :: "json \<Rightarrow> bool" where
  "AttemptDetail j \<longleftrightarrow>
     has ''attempt_number'' is_number j \<and> has ''outcome'' is_string j \<and> has ''http_status'' (or_null is_number) j \<and>
     has ''response_body'' (or_null is_string) j \<and> has ''error_message'' (or_null is_string) j \<and>
     has ''latency_ms'' is_number j \<and> has ''started_at'' is_string j \<and> has ''finished_at'' is_string j"

definition TransitionDetail :: "json \<Rightarrow> bool" where
  "TransitionDetail j \<longleftrightarrow>
     has ''from_status'' (or_null is_string) j \<and> has ''to_status'' is_string j \<and> has ''actor'' is_string j \<and>
     has ''reason'' (or_null is_string) j \<and> has ''created_at'' is_string j"

text \<open>The members \<open>DeliveryDetail\<close> adds to those of \<open>DeliveryListItem\<close>.\<close>

definition detail_members :: "json \<Rightarrow> bool" where
  "detail_members j \<longleftrightarrow>
     has ''event'' (\<lambda>e. has ''id'' is_string e \<and> has ''event_type'' is_string e \<and> has ''payload'' (\<lambda>_. True) e \<and>
       has ''received_at'' is_string e) j \<and>
     has ''endpoint'' (\<lambda>e. has ''id'' is_string e \<and> has ''url'' is_string e) j \<and>
     has ''attempts'' (array_of AttemptDetail) j \<and> has ''transitions'' (array_of TransitionDetail) j"

definition DeliveryDetail :: "json \<Rightarrow> bool" where
  "DeliveryDetail j \<longleftrightarrow> DeliveryListItem j \<and> detail_members j"

definition DlqItem :: "json \<Rightarrow> bool" where
  "DlqItem j \<longleftrightarrow> DeliveryListItem j \<and> has ''dlq_entered_at'' is_string j"

definition DlqResponse :: "json \<Rightarrow> bool" where
  "DlqResponse j \<longleftrightarrow> has ''data'' (array_of DlqItem) j \<and> has ''next_cursor'' (or_null is_string) j"

definition Endpoint :: "json \<Rightarrow> bool" where
  "Endpoint j \<longleftrightarrow>
     has ''id'' is_string j \<and> has ''client_id'' is_string j \<and> has ''url'' is_string j \<and> has ''is_active'' is_boolean j"

definition StatsResponse :: "json \<Rightarrow> bool" where
  "StatsResponse j \<longleftrightarrow>
     has ''deliveries'' (record_of is_number) j \<and> has ''queues'' (record_of (record_of is_number)) j \<and>
     has ''oldest_pending_age_s'' (or_null is_number) j \<and> has ''backpressure_active'' is_boolean j"

text \<open>What \<open>apiFetch\<close> expects of an error reply.\<close>

definition ErrorBody :: "json \<Rightarrow> bool" where
  "ErrorBody j \<longleftrightarrow> has ''error'' (\<lambda>e. has ''code'' is_string e \<and> has ''message'' is_string e \<and> has ''details'' (\<lambda>_. True) e) j"

definition typed_reply :: "(json \<Rightarrow> bool) \<Rightarrow> reply \<Rightarrow> bool" where
  "typed_reply T r \<longleftrightarrow> (if rp_code r < 400 then T (rp_body r) else ErrorBody (rp_body r))"

subsection \<open>The bodies of the other read routes\<close>

primrec actor_name :: "actor \<Rightarrow> string" where
  "actor_name Worker = ''worker''"
| "actor_name Api = ''api''"
| "actor_name Reconciler = ''reconciler''"
| "actor_name Manual_retry = ''manual-retry''"

definition json_opt :: "('a \<Rightarrow> json) \<Rightarrow> 'a option \<Rightarrow> json" where
  "json_opt f v = (case v of None \<Rightarrow> JNull | Some x \<Rightarrow> f x)"

definition json_of_attempt :: "attempt_row \<Rightarrow> json" where
  "json_of_attempt a = JObj
     [(''attempt_number'', JNum (string_of_int (a_attempt_number a))), (''outcome'', JStr (outcome_name (a_outcome a))),
      (''http_status'', json_opt (\<lambda>n. JNum (string_of_int n)) (a_http_status a)),
      (''response_body'', json_opt JStr (a_response_body a)), (''error_message'', json_opt JStr (a_error_message a)),
      (''latency_ms'', JNum (string_of_int (a_latency_ms a))), (''started_at'', json_date (a_started_at a)),
      (''finished_at'', json_date (a_finished_at a))]"

definition json_of_transition :: "transition_row \<Rightarrow> json" where
  "json_of_transition t = JObj
     [(''from_status'', json_opt (\<lambda>st. JStr (status_name st)) (t_from_status t)),
      (''to_status'', JStr (status_name (t_to_status t))), (''actor'', JStr (actor_name (t_actor t))),
      (''reason'', json_opt JStr (t_reason t)), (''created_at'', json_date (t_created_at t))]"

definition json_of_detail :: "delivery_detail \<Rightarrow> json" where
  "json_of_detail dt = (let d = dt_delivery dt; ev = dt_event dt in JObj
     [(''id'', JStr (d_id d)), (''status'', JStr (status_name (d_status d))),
      (''attempt_count'', JNum (string_of_int (d_attempt_count d))),
      (''next_attempt_at'', json_opt json_date (d_next_attempt_at d)), (''created_at'', json_date (d_created_at d)),
      (''updated_at'', json_date (d_updated_at d)),
      (''event'', JObj [(''id'', JStr (ev_id ev)), (''event_type'', JStr (ev_event_type ev)), (''payload'', ev_payload ev),
        (''received_at'', json_date (ev_received_at ev))]),
      (''endpoint'', JObj [(''id'', JStr (ep_id (dt_endpoint dt))), (''url'', JStr (ep_url (dt_endpoint dt)))]),
      (''attempts'', JArr (map json_of_attempt (dt_attempts dt))),
      (''transitions'', JArr (map json_of_transition (dt_transitions dt)))])"

definition detail_reply :: "(string \<Rightarrow> string option) \<Rightarrow> db \<Rightarrow> string \<Rightarrow> exn + reply" where
  "detail_reply uuid s raw = (case get_delivery uuid s raw of
     Inl e \<Rightarrow> Inl e | Inr dt \<Rightarrow> Inr \<lparr>rp_code = 200, rp_headers = [], rp_body = json_of_detail dt\<rparr>)"

definition endpoints_reply :: "string option \<Rightarrow> db \<Rightarrow> reply" where
  "endpoints_reply client_id s = \<lparr>rp_code = 200, rp_headers = [],
     rp_body = JObj [(''data'', JArr (map json_of_endpoint (get_endpoints client_id s)))]\<rparr>"

text \<open>
  \<open>getJobCounts\<close> has the counts of the states asked for. How a double is printed is an argument.
\<close>

definition json_of_counts :: "(string \<times> job_state) list \<Rightarrow> (job_state \<Rightarrow> nat option) \<Rightarrow> json" where
  "json_of_counts names counts = JObj (List.map_filter (\<lambda>(name, st).
     map_option (\<lambda>n. (name, JNum (string_of_nat n))) (counts st)) names)"

definition json_of_stats :: "(rat \<Rightarrow> string) \<Rightarrow> stats_reply \<Rightarrow> json" where
  "json_of_stats print r = JObj
     [(''deliveries'', JObj (map (\<lambda>(st, n). (st, JNum (string_of_int n))) (sr_deliveries r))),
      (''queues'', JObj
        [(''webhook-delivery'', json_of_counts [(''wait'', Waiting), (''active'', Active), (''delayed'', Delayed), (''failed'', Failed_job)]
           (sr_delivery_queue r)),
         (''webhook-dlq'', json_of_counts [(''wait'', Waiting), (''active'', Active)] (sr_dlq_queue r))]),
      (''oldest_pending_age_s'', json_opt (\<lambda>x. JNum (print x)) (sr_oldest_pending_age_s r)),
      (''backpressure_active'', JBool (sr_backpressure_active r))]"

subsection \<open>The replies have their types\<close>

lemmas type_defs = has_def member_def obj_get_def or_null_def json_date_def

definition refuses :: "exn \<Rightarrow> bool" where
  "refuses e \<longleftrightarrow> (case e of AppExn a \<Rightarrow> 400 \<le> statusCode a | _ \<Rightarrow> True)"

lemma errorHandler_typed:
  assumes "refuses e"
  shows "typed_reply T (errorHandler e)"
  using assms
  by (cases e) (simp_all add: refuses_def typed_reply_def errorHandler_def error_envelope_def ErrorBody_def type_defs)

lemma set_paginate: "set (fst (paginate key c n rows)) \<subseteq> set rows"
  by (auto simp: paginate_def Let_def dest!: in_set_takeD)

lemma page_reply_typed:
  assumes "\<And>d. d \<in> set (fst p) \<Longrightarrow> T (row d)"
  shows "rp_code (page_reply row p) < 400" and "has ''data'' (array_of T) (rp_body (page_reply row p))"
    and "has ''next_cursor'' (or_null is_string) (rp_body (page_reply row p))"
  using assms by (simp_all add: page_reply_def type_defs list_all_iff split: option.split)

lemma list_row_typed: "DeliveryListItem (json_of_list_row s d)"
  by (simp add: DeliveryListItem_def json_of_list_row_def row_members_def type_defs split: option.split)

lemma dlq_row_typed: "dlq_entered_at s (d_id d) \<noteq> None \<Longrightarrow> DlqItem (json_of_dlq_row s d)"
  by (auto simp: DlqItem_def DeliveryListItem_def json_of_dlq_row_def row_members_def type_defs split: option.splits)

lemma decode_param_refuses: "decode_param env v = Inl e \<Longrightarrow> refuses e"
  by (auto simp: decode_param_def decodeCursor_def refuses_def cursor_not_json_def cursor_invalid_def AppError_def AppErrorD_def
      split: option.splits if_splits)

lemma cast_refuses: "cast err read v = Inl e \<Longrightarrow> refuses e"
  by (auto simp: cast_def refuses_def split: option.splits)

lemma list_deliveries_refuses: "list_deliveries uuid tz f c n s = Inl e \<Longrightarrow> refuses e"
  by (auto simp: list_deliveries_def split: if_splits sum.splits dest: cast_refuses) (simp_all add: refuses_def)

lemma listDlq_refuses: "listDlq uuid c n s = Inl e \<Longrightarrow> refuses e"
  by (auto simp: listDlq_def split: sum.splits dest: cast_refuses)

lemma listDlq_rows:
  assumes "listDlq uuid c n s = Inr p" and "d \<in> set (fst p)"
  shows "dlq_entered_at s (d_id d) \<noteq> None"
  using assms set_paginate by (fastforce simp: listDlq_def split: sum.splits)

lemma get_deliveries_typed: "typed_reply DeliveryListResponse (respond (get_deliveries env q s))"
proof (cases "get_deliveries env q s")
  case (Inl e)
  then have "refuses e"
    by (auto simp: get_deliveries_def split: option.splits sum.splits dest: decode_param_refuses list_deliveries_refuses)
      (simp_all add: refuses_def AppErrorD_def)
  then show ?thesis using Inl by (simp add: errorHandler_typed)
next
  case (Inr r)
  then obtain p where "r = page_reply (json_of_list_row s) p"
    by (auto simp: get_deliveries_def split: option.splits sum.splits)
  then show ?thesis
    using Inr page_reply_typed [of p DeliveryListItem "json_of_list_row s", OF list_row_typed]
    by (simp add: typed_reply_def DeliveryListResponse_def)
qed

lemma get_dlq_typed: "typed_reply DlqResponse (respond (get_dlq env q s))"
proof (cases "get_dlq env q s")
  case (Inl e)
  then have "refuses e"
    by (auto simp: get_dlq_def split: option.splits sum.splits dest: decode_param_refuses listDlq_refuses)
      (simp_all add: refuses_def validationError_def AppErrorD_def)
  then show ?thesis using Inl by (simp add: errorHandler_typed)
next
  case (Inr r)
  then obtain p c n where p: "r = page_reply (json_of_dlq_row s) p" "listDlq (re_uuid env) c n s = Inr p"
    by (auto simp: get_dlq_def split: option.splits sum.splits)
  then show ?thesis
    using Inr page_reply_typed [of p DlqItem "json_of_dlq_row s", OF dlq_row_typed [OF listDlq_rows [OF p(2)]]]
    by (simp add: typed_reply_def DlqResponse_def)
qed

lemma attempt_typed: "AttemptDetail (json_of_attempt a)"
  by (simp add: AttemptDetail_def json_of_attempt_def json_opt_def type_defs split: option.split)

lemma transition_typed: "TransitionDetail (json_of_transition t)"
  by (simp add: TransitionDetail_def json_of_transition_def json_opt_def type_defs split: option.split)

lemma detail_typed: "detail_members (json_of_detail dt)"
  by (simp add: detail_members_def json_of_detail_def Let_def type_defs list_all_iff attempt_typed transition_typed)

lemma detail_lacks_list_members: "\<not> DeliveryDetail (json_of_detail dt)"
  by (simp add: DeliveryDetail_def DeliveryListItem_def json_of_detail_def Let_def type_defs)

lemma detail_reply_typed: "typed_reply detail_members (respond (detail_reply uuid s raw))"
proof (cases "get_delivery uuid s raw")
  case (Inl e)
  then have "refuses e"
    by (auto simp: get_delivery_def refuses_def deliveryNotFound_def AppError_def split: if_splits option.splits)
  then show ?thesis using Inl by (simp add: detail_reply_def errorHandler_typed)
qed (simp add: detail_reply_def typed_reply_def detail_typed)

lemma endpoints_typed: "typed_reply (has ''data'' (array_of Endpoint)) (endpoints_reply c s)"
  by (simp add: typed_reply_def endpoints_reply_def type_defs list_all_iff Endpoint_def json_of_endpoint_def)

lemma counts_typed: "record_of is_number (json_of_counts names counts)"
  by (induction names) (auto simp: json_of_counts_def split: option.splits)

lemma stats_typed: "StatsResponse (json_of_stats print r)"
  by (auto simp: StatsResponse_def json_of_stats_def json_opt_def type_defs list_all_iff counts_typed split: option.split)


end
