(* ===== verification/Api_App.thy ===== *)
theory Api_App
  imports Api_Types System
begin

text \<open>
  \<open>src/src/api/app.ts\<close> as a whole: the routes of \<open>buildApp\<close> under their prefix, each with its handler, and
  the error handler around them. Fastify's part is an argument: how it reads a body and a path parameter,
  and what it answers where no route matches. A sequence of requests is a run of the API.
\<close>

subsection \<open>Requests and routes\<close>

record api_request =
  rq_method :: string
  rq_path :: string
  rq_query :: query
  rq_headers :: "string \<Rightarrow> string option"
  rq_body :: string

datatype route =
    R_healthz
  | R_readyz
  | R_create_endpoint
  | R_list_endpoints
  | R_patch_endpoint string
  | R_events
  | R_dlq
  | R_retry string
  | R_deliveries
  | R_delivery string
  | R_stats

text \<open>
  The registered routes. A path is matched segment by segment; HEAD is served by the route of GET,
  without sending the body.
\<close>

definition find_route :: "string \<Rightarrow> string \<Rightarrow> route option" where
  "find_route method path =
     (let ps = split_on (CHR ''/'') path; get = (method = ''GET'' \<or> method = ''HEAD'') in
      if get \<and> ps = [[], ''healthz''] then Some R_healthz
      else if get \<and> ps = [[], ''readyz''] then Some R_readyz
      else if method = ''POST'' \<and> ps = [[], ''v1'', ''endpoints''] then Some R_create_endpoint
      else if get \<and> ps = [[], ''v1'', ''endpoints''] then Some R_list_endpoints
      else if method = ''PATCH'' \<and> length ps = 4 \<and> take 3 ps = [[], ''v1'', ''endpoints''] then Some (R_patch_endpoint (ps ! 3))
      else if method = ''POST'' \<and> ps = [[], ''v1'', ''events''] then Some R_events
      else if get \<and> ps = [[], ''v1'', ''dlq''] then Some R_dlq
      else if method = ''POST'' \<and> length ps = 5 \<and> take 3 ps = [[], ''v1'', ''dlq''] \<and> ps ! 4 = ''retry'' then Some (R_retry (ps ! 3))
      else if get \<and> ps = [[], ''v1'', ''deliveries''] then Some R_deliveries
      else if get \<and> length ps = 4 \<and> take 3 ps = [[], ''v1'', ''deliveries''] then Some (R_delivery (ps ! 3))
      else if get \<and> ps = [[], ''v1'', ''stats''] then Some R_stats
      else None)"

subsection \<open>What is not the program's choice\<close>

text \<open>
  The readings of PostgreSQL and zod, the clock and the random values, faults, the values the memoised
  queries of the stats route have, and Fastify: its body parser, its reading of a path parameter (which
  may refuse it), and its answer to an unknown route.
\<close>

record api_env =
  ev_now :: ts
  ev_read :: read_env
  ev_event :: event_env
  ev_fate :: tx_fate
  ev_new_id :: string
  ev_random32 :: string
  ev_query_fault :: "exn option"
  ev_pg_up :: bool
  ev_redis_up :: bool
  ev_db_stats :: "exn + db_stats"
  ev_queue_counts :: "exn + ((job_state \<Rightarrow> nat option) \<times> (job_state \<Rightarrow> nat option))"
  ev_print :: "rat \<Rightarrow> string"
  ev_array_text :: "string list \<Rightarrow> string"
  ev_eventBodySchema :: "json \<Rightarrow> json + event_body"
  ev_createSchema :: "json \<Rightarrow> json + create_body"
  ev_patchSchema :: "json \<Rightarrow> json + patch_body"
  ev_parse_body :: "string option \<Rightarrow> string \<Rightarrow> exn + json option"
  ev_param :: "string \<Rightarrow> reply + string"
  ev_not_found :: "string \<Rightarrow> string \<Rightarrow> reply"

record ('r, 'q) api_state =
  ap_db :: db
  ap_redis :: 'r
  ap_queue :: 'q

subsection \<open>The handlers behind their routes\<close>

text \<open>The body as the handler sees it; a request without one has \<open>undefined\<close>, which no schema accepts.\<close>

definition body_of :: "api_env \<Rightarrow> api_request \<Rightarrow> exn + json" where
  "body_of env req = (case ev_parse_body env (rq_headers req ''content-type'') (rq_body req) of
     Inl e \<Rightarrow> Inl e
   | Inr None \<Rightarrow> Inr JNull
   | Inr (Some b) \<Rightarrow> Inr b)"

text \<open>A query outside a transaction throws when PostgreSQL cannot be asked.\<close>

definition queried :: "api_env \<Rightarrow> exn + reply \<Rightarrow> exn + reply" where
  "queried env r = (case r of Inl e \<Rightarrow> Inl e | Inr rep \<Rightarrow> (case ev_query_fault env of None \<Rightarrow> Inr rep | Some e \<Rightarrow> Inl e))"

definition client_id_param :: "api_env \<Rightarrow> query \<Rightarrow> string option" where
  "client_id_param env q = (case q ''client_id'' of [] \<Rightarrow> None | [v] \<Rightarrow> Some v | vs \<Rightarrow> Some (ev_array_text env vs))"

definition with_param :: "api_env \<Rightarrow> string \<Rightarrow> (string \<Rightarrow> outcome \<times> 's) \<Rightarrow> 's \<Rightarrow> outcome \<times> 's" where
  "with_param env seg h st = (case ev_param env seg of Inl rep \<Rightarrow> (Replied (Inr rep), st) | Inr x \<Rightarrow> h x)"

definition with_body :: "api_env \<Rightarrow> api_request \<Rightarrow> (json \<Rightarrow> outcome \<times> 's) \<Rightarrow> 's \<Rightarrow> outcome \<times> 's" where
  "with_body env req h st = (case body_of env req of Inl e \<Rightarrow> (Replied (Inl e), st) | Inr b \<Rightarrow> h b)"

fun run_route ::
  "'r redis_api \<Rightarrow> 'q queue_api \<Rightarrow> config \<Rightarrow> pg_readers \<Rightarrow> api_env \<Rightarrow> api_request \<Rightarrow> route \<Rightarrow> ('r, 'q) api_state \<Rightarrow>
   outcome \<times> ('r, 'q) api_state"
where
  "run_route R Q cfg pg env req R_healthz st = (Replied (Inr healthz), st)"
| "run_route R Q cfg pg env req R_readyz st = (Replied (Inr (readyz (ev_pg_up env) (ev_redis_up env))), st)"
| "run_route R Q cfg pg env req R_create_endpoint st = with_body env req (\<lambda>b.
     case post_endpoints cfg (ev_createSchema env) (ev_fate env) (ev_now env) (ev_new_id env) (ev_random32 env) b (ap_db st) of
       (r, s) \<Rightarrow> (Replied r, st\<lparr>ap_db := s\<rparr>)) st"
| "run_route R Q cfg pg env req R_list_endpoints st =
     (Replied (queried env (Inr (endpoints_reply (client_id_param env (rq_query req)) (ap_db st)))), st)"
| "run_route R Q cfg pg env req (R_patch_endpoint seg) st = with_param env seg (\<lambda>i. with_body env req (\<lambda>b.
     case patch_endpoint pg (ev_patchSchema env) (ev_fate env) i b (ap_db st) of
       (r, s) \<Rightarrow> (Replied r, st\<lparr>ap_db := s\<rparr>)) st) st"
| "run_route R Q cfg pg env req R_events st = with_body env req (\<lambda>b.
     case post_events R Q cfg pg (ev_eventBodySchema env) (ev_now env) (ev_event env)
            \<lparr>er_idempotency_key = rq_headers req ''idempotency-key'', er_content_length = rq_headers req ''content-length'',
             er_body = b\<rparr> (ap_redis st) (ap_queue st) (ap_db st) of
       (out, r, q, s) \<Rightarrow> (out, \<lparr>ap_db = s, ap_redis = r, ap_queue = q\<rparr>)) st"
| "run_route R Q cfg pg env req R_dlq st = (Replied (queried env (get_dlq (ev_read env) (rq_query req) (ap_db st))), st)"
| "run_route R Q cfg pg env req (R_retry seg) st = with_param env seg (\<lambda>i. with_body env req (\<lambda>_.
     case dlq_retry Q cfg pg (ev_fate env) (ev_now env) i (ap_queue st) (ap_db st) of
       (r, q, s) \<Rightarrow> (Replied r, st\<lparr>ap_queue := q, ap_db := s\<rparr>)) st) st"
| "run_route R Q cfg pg env req R_deliveries st =
     (Replied (queried env (get_deliveries (ev_read env) (rq_query req) (ap_db st))), st)"
| "run_route R Q cfg pg env req (R_delivery seg) st = with_param env seg (\<lambda>i.
     (Replied (queried env (detail_reply (re_uuid (ev_read env)) (ap_db st) i)), st)) st"
| "run_route R Q cfg pg env req R_stats st =
     (Replied (case get_stats cfg (ev_db_stats env) (ev_queue_counts env) of
         Inl e \<Rightarrow> Inl e
       | Inr r \<Rightarrow> Inr (json_reply 200 (json_of_stats (ev_print env) r))), st)"

text \<open>
  One request: the reply, or \<open>None\<close> when the process ended in it. What a handler throws goes to the error
  handler.
\<close>

definition handle ::
  "'r redis_api \<Rightarrow> 'q queue_api \<Rightarrow> config \<Rightarrow> pg_readers \<Rightarrow> api_env \<times> api_request \<Rightarrow> ('r, 'q) api_state \<Rightarrow>
   reply option \<times> ('r, 'q) api_state" where
  "handle R Q cfg pg er st = (case er of (env, req) \<Rightarrow>
     (case find_route (rq_method req) (rq_path req) of
        None \<Rightarrow> (Some (ev_not_found env (rq_method req) (rq_path req)), st)
      | Some rt \<Rightarrow>
          (case run_route R Q cfg pg env req rt st of
             (Replied r, st') \<Rightarrow> (Some (respond r), st')
           | (Process_exit, st') \<Rightarrow> (None, st'))))"

text \<open>The requests the process serves one after the other; after its end nothing more is served.\<close>

fun serve ::
  "'r redis_api \<Rightarrow> 'q queue_api \<Rightarrow> config \<Rightarrow> pg_readers \<Rightarrow> (api_env \<times> api_request) list \<Rightarrow> ('r, 'q) api_state \<Rightarrow>
   reply list \<times> ('r, 'q) api_state"
where
  "serve R Q cfg pg [] st = ([], st)"
| "serve R Q cfg pg (er # ers) st =
     (case handle R Q cfg pg er st of
        (None, st') \<Rightarrow> ([], st')
      | (Some rep, st') \<Rightarrow> (case serve R Q cfg pg ers st' of (reps, st'') \<Rightarrow> (rep # reps, st'')))"

subsection \<open>What a request does to the deliveries\<close>

text \<open>No attempt is written, and a delivery keeps its status or goes from the DLQ back to PENDING.\<close>

definition only_retries :: "db \<Rightarrow> db \<Rightarrow> bool" where
  "only_retries s s' \<longleftrightarrow> delivery_attempts s' = delivery_attempts s \<and>
     (\<forall>i d. find_delivery s i = Some d \<longrightarrow> (\<exists>d'. find_delivery s' i = Some d' \<and>
        (d_status d' = d_status d \<or> d_status d = DLQ \<and> d_status d' = PENDING)))"

lemma only_retries_refl [simp]: "only_retries s s"
  by (simp add: only_retries_def)

lemma only_retries_trans [trans]:
  assumes "only_retries s s'" and "only_retries s' s''"
  shows "only_retries s s''"
  unfolding only_retries_def
proof (intro conjI allI impI)
  show "delivery_attempts s'' = delivery_attempts s" using assms by (simp add: only_retries_def)
  fix i d assume "find_delivery s i = Some d"
  then obtain d' where d': "find_delivery s' i = Some d'" "d_status d' = d_status d \<or> d_status d = DLQ \<and> d_status d' = PENDING"
    using assms(1) by (auto simp: only_retries_def)
  then obtain d'' where "find_delivery s'' i = Some d''" "d_status d'' = d_status d' \<or> d_status d' = DLQ \<and> d_status d'' = PENDING"
    using assms(2) by (auto simp: only_retries_def)
  then show "\<exists>d''. find_delivery s'' i = Some d'' \<and> (d_status d'' = d_status d \<or> d_status d = DLQ \<and> d_status d'' = PENDING)"
    using d'(2) by auto
qed

lemma only_retries_endpoints: "only_retries s (s\<lparr>endpoints := es\<rparr>)"
  by (simp add: only_retries_def)

lemma only_retries_write:
  assumes "keeps_keys f" and "\<And>d. find_delivery s i = Some d \<Longrightarrow> d_status (f d) = d_status d \<or> d_status d = DLQ \<and> d_status (f d) = PENDING"
  shows "only_retries s (write_delivery i f [] ts s)"
proof -
  have "delivery_attempts (write_delivery i f [] ts s) = delivery_attempts s" by (simp add: write_delivery_def)
  then show ?thesis using assms by (auto simp: only_retries_def find_delivery_write)
qed

lemma only_retries_withTx:
  assumes "withTx fate fn s = (r, s')" and "\<And>x s'. fn s = Inr (x, s') \<Longrightarrow> only_retries s s'"
  shows "only_retries s s'"
  using withTx_invariant [of "only_retries s" s fn fate] assms by simp

lemma ingest_only_retries: "only_retries s (snd (snd (ingestEvent R cfg pg now env p r s)))"
proof -
  have "only_retries s s'" if "ingest_tx pg now env p s = Inr (res, s')" for res s'
    using that by (cases rule: ingest_tx_cases) (auto simp: only_retries_def find_row_append)
  then have "only_retries s s'" if "withTx (ie_fate env) (ingest_tx pg now env p) s = (x, s')" for x s'
    using only_retries_withTx [OF that] by blast
  then show ?thesis by (auto simp: ingestEvent_def split: sum.splits option.splits prod.splits)
qed

lemma enqueue_only_retries: "only_retries s (snd (snd (enqueueDelivery Q fate now i q s)))"
proof -
  have "only_retries s (mark_enqueued now i s)"
    unfolding mark_enqueued_shape by (rule only_retries_write) auto
  then show ?thesis by (cases fate) (auto simp: enqueueDelivery_def split: sum.splits)
qed

lemma retry_only_retries: "only_retries s (snd (retryFromDlq uin fate now raw s))"
proof -
  obtain r s' where run: "retryFromDlq uin fate now raw s = (r, s')" by fastforce
  show ?thesis
    using retryFromDlq_shape [OF run] run by (auto simp: status_update_def intro!: only_retries_write)
qed

lemma post_endpoints_only_retries: "only_retries s (snd (post_endpoints cfg createSchema fate now new_id random32 body s))"
proof -
  have "only_retries s s'" if "tx_stmt (insert_endpoint row) s = Inr (x, s')" for row x s'
    using that by (auto simp: insert_endpoint_def tx_stmt_def only_retries_endpoints split: if_splits)
  then have "only_retries s s'" if "withTx fate (tx_stmt (insert_endpoint row)) s = (x, s')" for row x s'
    using only_retries_withTx [OF that] by blast
  then show ?thesis by (auto simp: post_endpoints_def Let_def split: sum.splits if_splits prod.splits)
qed

lemma patch_endpoint_only_retries: "only_retries s (snd (patch_endpoint pg patchSchema fate raw body s))"
proof -
  have "only_retries s s'" if "patch_endpoint_tx pg raw b s = Inr (x, s')" for b x s'
    using that by (auto simp: patch_endpoint_tx_def only_retries_endpoints split: option.splits)
  then have "only_retries s s'" if "withTx fate (patch_endpoint_tx pg raw b) s = (x, s')" for b x s'
    using only_retries_withTx [OF that] by blast
  then show ?thesis by (auto simp: patch_endpoint_def split: sum.splits if_splits prod.splits option.splits)
qed

subsection \<open>Requests are actions of the system\<close>

text \<open>What the database becomes by actions of the system that do not touch the slots.\<close>

definition by_actions :: "'r itself \<Rightarrow> 'q itself \<Rightarrow> config \<Rightarrow> pg_readers \<Rightarrow> db \<Rightarrow> db \<Rightarrow> bool" where
  "by_actions r q cfg pg s s' \<longleftrightarrow> only_retries s s' \<and> (\<forall>mode hm y. sy_db y = s \<longrightarrow>
     (\<exists>as :: ('r, 'q) action list. sys_run mode cfg hm pg as y = Some (set_db s' y)))"

lemma by_actions_refl [simp]: "by_actions r q cfg pg s s"
  by (auto simp: by_actions_def set_db_def intro: exI [of _ "[]"])

lemma by_actions_trans:
  fixes r :: "'r itself" and q :: "'q itself"
  assumes "by_actions r q cfg pg s s'" and "by_actions r q cfg pg s' s''"
  shows "by_actions r q cfg pg s s''"
  unfolding by_actions_def
proof (intro conjI allI impI)
  show "only_retries s s''" using assms only_retries_trans by (auto simp: by_actions_def)
  fix mode hm and y :: sys assume "sy_db y = s"
  then obtain as1 :: "('r, 'q) action list" where as1: "sys_run mode cfg hm pg as1 y = Some (set_db s' y)"
    using assms(1) unfolding by_actions_def by blast
  have "sy_db (set_db s' y) = s'" by (simp add: set_db_def)
  then obtain as2 :: "('r, 'q) action list" where "sys_run mode cfg hm pg as2 (set_db s' y) = Some (set_db s'' (set_db s' y))"
    using assms(2) unfolding by_actions_def by blast
  with as1 have "sys_run mode cfg hm pg (as1 @ as2) y = Some (set_db s'' y)"
    by (simp add: sys_run_append set_db_def)
  then show "\<exists>as :: ('r, 'q) action list. sys_run mode cfg hm pg as y = Some (set_db s'' y)" by blast
qed

lemma by_actions_one:
  fixes a :: "('r, 'q) action"
  assumes "\<And>mode hm y. sy_db y = s \<Longrightarrow> sys_act mode cfg hm pg a y = Some (set_db s' y)" and "only_retries s s'"
  shows "by_actions TYPE('r) TYPE('q) cfg pg s s'"
  using assms by (auto simp: by_actions_def intro!: exI [of _ "[a]"])

lemma writes_by_actions:
  fixes R :: "'r redis_api" and Q :: "'q queue_api"
  shows "by_actions TYPE('r) TYPE('q) cfg pg s (snd (snd (ingestEvent R cfg pg now env p r s)))"
    and "by_actions TYPE('r) TYPE('q) cfg pg s (snd (snd (enqueueDelivery Q fate now i q s)))"
    and "by_actions TYPE('r) TYPE('q) cfg pg s (snd (retryFromDlq (uuid_in pg) fate now raw s))"
    and "by_actions TYPE('r) TYPE('q) cfg pg s (snd (post_endpoints cfg createSchema fate now new_id random32 body s))"
    and "by_actions TYPE('r) TYPE('q) cfg pg s (snd (patch_endpoint pg patchSchema fate raw body s))"
proof -
  show "by_actions TYPE('r) TYPE('q) cfg pg s (snd (snd (ingestEvent R cfg pg now env p r s)))"
    by (rule by_actions_one [where a = "Accept R r now env p"]) (simp_all add: ingest_only_retries)
  show "by_actions TYPE('r) TYPE('q) cfg pg s (snd (snd (enqueueDelivery Q fate now i q s)))"
    by (rule by_actions_one [where a = "Enqueue Q q fate now i"]) (simp_all add: enqueue_only_retries)
  show "by_actions TYPE('r) TYPE('q) cfg pg s (snd (retryFromDlq (uuid_in pg) fate now raw s))"
    by (rule by_actions_one [where a = "Retry fate now raw"]) (simp_all add: retry_only_retries)
  show "by_actions TYPE('r) TYPE('q) cfg pg s (snd (post_endpoints cfg createSchema fate now new_id random32 body s))"
    by (rule by_actions_one [where a = "Create_endpoint createSchema fate now new_id random32 body"])
      (simp_all add: post_endpoints_only_retries)
  show "by_actions TYPE('r) TYPE('q) cfg pg s (snd (patch_endpoint pg patchSchema fate raw body s))"
    by (rule by_actions_one [where a = "Patch_endpoint patchSchema fate raw body"]) (simp_all add: patch_endpoint_only_retries)
qed

lemma post_events_by_actions:
  fixes R :: "'r redis_api" and Q :: "'q queue_api"
  assumes "post_events R Q cfg pg schema now env req r q s = (out, r', q', s')"
  shows "by_actions TYPE('r) TYPE('q) cfg pg s s'"
proof -
  consider "s' = s"
    | p where "s' = snd (snd (ingestEvent R cfg pg now (ee_ingest env) p r s))"
    | p i where "s' = snd (snd (enqueueDelivery Q (ee_enqueue_fate env) now i q
        (snd (snd (ingestEvent R cfg pg now (ee_ingest env) p r s)))))"
    using assms by (auto simp: post_events_def split: sum.splits prod.splits if_splits) (metis snd_conv)+
  then show ?thesis
  proof cases
    case 3
    then show ?thesis using by_actions_trans [OF writes_by_actions(1) writes_by_actions(2)] by simp
  qed (use writes_by_actions(1) in simp_all)
qed

lemma dlq_retry_by_actions:
  fixes Q :: "'q queue_api"
  assumes "dlq_retry Q cfg pg fate now i q s = (r, q', s')"
  shows "by_actions TYPE('r) TYPE('q) cfg pg s s'"
proof -
  have "s' = snd (retryFromDlq (uuid_in pg) fate now i s)"
    using assms by (auto simp: dlq_retry_def split: sum.splits prod.splits retry_result.splits)
  then show ?thesis using writes_by_actions(3) by simp
qed

lemma endpoint_writes_by_actions:
  "post_endpoints cfg createSchema fate now new_id random32 body s = (r, s') \<Longrightarrow> by_actions TYPE('r) TYPE('q) cfg pg s s'"
  "patch_endpoint pg patchSchema fate raw body s = (r, s') \<Longrightarrow> by_actions TYPE('r) TYPE('q) cfg pg s s'"
  using writes_by_actions(4) [where 'r = 'r and 'q = 'q, of cfg pg s createSchema fate now new_id random32 body]
    writes_by_actions(5) [where 'r = 'r and 'q = 'q, of cfg pg s patchSchema fate raw body] by simp_all

text \<open>What the wrappers of a handler do not change.\<close>

lemma with_param_cases:
  assumes "with_param env seg h st = (out, st')"
  obtains "st' = st" | x where "h x = (out, st')"
  using assms by (auto simp: with_param_def split: sum.splits)

lemma with_body_cases:
  assumes "with_body env req h st = (out, st')"
  obtains "st' = st" | b where "h b = (out, st')"
  using assms by (auto simp: with_body_def split: sum.splits)

lemma run_route_by_actions:
  fixes R :: "'r redis_api" and Q :: "'q queue_api"
  assumes "run_route R Q cfg pg env req rt st = (out, st')"
  shows "by_actions TYPE('r) TYPE('q) cfg pg (ap_db st) (ap_db st')"
proof (cases rt)
  case R_create_endpoint
  then have "with_body env req (\<lambda>b. case post_endpoints cfg (ev_createSchema env) (ev_fate env) (ev_now env) (ev_new_id env)
      (ev_random32 env) b (ap_db st) of (r, s) \<Rightarrow> (Replied r, st\<lparr>ap_db := s\<rparr>)) st = (out, st')" using assms by simp
  then show ?thesis
    by (cases rule: with_body_cases) (auto dest: endpoint_writes_by_actions split: prod.splits)
next
  case (R_patch_endpoint seg)
  then have "with_param env seg (\<lambda>i. with_body env req (\<lambda>b. case patch_endpoint pg (ev_patchSchema env) (ev_fate env) i b (ap_db st) of
       (r, s) \<Rightarrow> (Replied r, st\<lparr>ap_db := s\<rparr>)) st) st = (out, st')" using assms by simp
  then show ?thesis
  proof (cases rule: with_param_cases)
    case (2 x)
    then show ?thesis
      by (cases rule: with_body_cases) (auto dest: endpoint_writes_by_actions split: prod.splits)
  qed simp
next
  case R_events
  then obtain h where "with_body env req h st = (out, st')"
    and h: "\<And>b. h b = (case post_events R Q cfg pg (ev_eventBodySchema env) (ev_now env) (ev_event env)
            \<lparr>er_idempotency_key = rq_headers req ''idempotency-key'', er_content_length = rq_headers req ''content-length'',
             er_body = b\<rparr> (ap_redis st) (ap_queue st) (ap_db st) of
       (out, r, q, s) \<Rightarrow> (out, \<lparr>ap_db = s, ap_redis = r, ap_queue = q\<rparr>))" using assms by simp
  from this(1) show ?thesis
    by (cases rule: with_body_cases) (auto simp: h dest: post_events_by_actions split: prod.splits)
next
  case (R_retry seg)
  then have "with_param env seg (\<lambda>i. with_body env req (\<lambda>_. case dlq_retry Q cfg pg (ev_fate env) (ev_now env) i (ap_queue st) (ap_db st) of
       (r, q, s) \<Rightarrow> (Replied r, st\<lparr>ap_queue := q, ap_db := s\<rparr>)) st) st = (out, st')" using assms by simp
  then show ?thesis
  proof (cases rule: with_param_cases)
    case (2 x)
    then show ?thesis
      by (cases rule: with_body_cases) (auto dest: dlq_retry_by_actions split: prod.splits)
  qed simp
next
  case (R_delivery seg)
  with assms have "st' = st" by (auto simp: with_param_def split: sum.splits)
  then show ?thesis by simp
qed (use assms in auto)

lemma handle_by_actions:
  fixes R :: "'r redis_api" and Q :: "'q queue_api"
  assumes "handle R Q cfg pg er st = (rep, st')"
  shows "by_actions TYPE('r) TYPE('q) cfg pg (ap_db st) (ap_db st')"
  using assms
  by (auto simp: handle_def dest: run_route_by_actions split: prod.splits option.splits outcome.splits)

lemma serve_by_actions:
  fixes R :: "'r redis_api" and Q :: "'q queue_api"
  assumes "serve R Q cfg pg ers st = (reps, st')"
  shows "by_actions TYPE('r) TYPE('q) cfg pg (ap_db st) (ap_db st')"
  using assms
proof (induction ers arbitrary: st reps)
  case (Cons er ers)
  obtain rep st1 where h: "handle R Q cfg pg er st = (rep, st1)" by fastforce
  note first = handle_by_actions [OF h]
  show ?case
  proof (cases rep)
    case None
    then show ?thesis using Cons.prems h first by simp
  next
    case (Some r)
    then obtain reps' where "serve R Q cfg pg ers st1 = (reps', st')" using Cons.prems h by (auto split: prod.splits)
    from by_actions_trans [OF first Cons.IH [OF this]] show ?thesis .
  qed
qed simp

lemma find_route_reads:
  assumes "find_route method path = Some rt" and "method = ''GET'' \<or> method = ''HEAD''"
  shows "rt \<notin> {R_create_endpoint, R_events} \<and> (\<forall>x. rt \<noteq> R_patch_endpoint x \<and> rt \<noteq> R_retry x)"
  using assms by (auto simp: find_route_def Let_def split: if_splits)

text \<open>A read changes nothing: not the database, nor Redis, nor the queue.\<close>

lemma read_changes_nothing:
  assumes "rq_method req = ''GET'' \<or> rq_method req = ''HEAD''" and "handle R Q cfg pg (env, req) st = (rep, st')"
  shows "st' = st \<and> rep \<noteq> None"
proof (cases "find_route (rq_method req) (rq_path req)")
  case (Some rt)
  from find_route_reads [OF Some assms(1)] show ?thesis
    using assms(2) Some by (cases rt) (auto simp: handle_def with_param_def split: sum.splits)
qed (use assms(2) in \<open>auto simp: handle_def\<close>)

lemma serve_reads:
  assumes "list_all (\<lambda>(env, req). rq_method req = ''GET'' \<or> rq_method req = ''HEAD'') ers"
  shows "\<exists>reps. serve R Q cfg pg ers st = (reps, st) \<and> length reps = length ers"
  using assms
proof (induction ers)
  case (Cons er ers)
  obtain env req where er: "er = (env, req)" by (cases er)
  obtain rep st' where h: "handle R Q cfg pg er st = (rep, st')" by fastforce
  then have "st' = st" "rep \<noteq> None" using read_changes_nothing [of req R Q cfg pg env st rep st'] Cons.prems er by auto
  then show ?case using Cons h by (auto split: option.splits prod.splits)
qed simp

text \<open>
  Errors of Fastify have a status of their own, which the error handler does not look at: a body that is no
  JSON, or that has another content type, is answered 500.
\<close>

lemma unreadable_body_500:
  assumes "ev_parse_body env (rq_headers req ''content-type'') (rq_body req) = Inl (ErrorExn m)"
    and "rq_method req = ''POST''" and "rq_path req = ''/v1/events''"
  shows "\<exists>rep. handle R Q cfg pg (env, req) st = (Some rep, st) \<and> rp_code rep = 500"
proof -
  have "find_route (rq_method req) (rq_path req) = Some R_events" unfolding assms(2,3) by code_simp
  then show ?thesis using assms(1) by (simp add: handle_def with_body_def body_of_def errorHandler_def)
qed

subsection \<open>Properties\<close>

text \<open>
  C4: the API does to the deliveries what the system of processes allows, and no more. Any sequence of
  requests, whatever their method, path, body and headers, and whatever fails meanwhile, is a run of the
  system's actions, so all that holds of every interleaving holds with this API in it. No request
  writes an attempt; a delivery keeps its status except that a retry takes it from the DLQ to PENDING; and
  GET and HEAD requests are all answered and change neither the database, nor Redis, nor the queue.
\<close>

theorem api_requests_are_actions:
  fixes R :: "'r redis_api" and Q :: "'q queue_api"
  assumes "serve R Q cfg pg ers st = (reps, st')" and "sy_db y = ap_db st"
  shows "(\<exists>as :: ('r, 'q) action list. sys_run mode cfg hm pg as y = Some (set_db (ap_db st') y)) \<and>
    delivery_attempts (ap_db st') = delivery_attempts (ap_db st) \<and>
    (find_delivery (ap_db st) i = Some d \<longrightarrow> (\<exists>d'. find_delivery (ap_db st') i = Some d' \<and>
       (d_status d' = d_status d \<or> d_status d = DLQ \<and> d_status d' = PENDING))) \<and>
    (list_all (\<lambda>(env, req). rq_method req = ''GET'' \<or> rq_method req = ''HEAD'') ers \<longrightarrow>
       st' = st \<and> length reps = length ers)"
proof -
  have acts: "by_actions TYPE('r) TYPE('q) cfg pg (ap_db st) (ap_db st')" by (rule serve_by_actions [OF assms(1)])
  then have "only_retries (ap_db st) (ap_db st')" by (simp add: by_actions_def)
  moreover have "\<exists>as :: ('r, 'q) action list. sys_run mode cfg hm pg as y = Some (set_db (ap_db st') y)"
    using acts assms(2) unfolding by_actions_def by blast
  moreover have "st' = st \<and> length reps = length ers"
    if "list_all (\<lambda>(env, req). rq_method req = ''GET'' \<or> rq_method req = ''HEAD'') ers"
    using serve_reads [OF that, of R Q cfg pg st] assms(1) by auto
  ultimately show ?thesis by (auto simp: only_retries_def)
qed

definition demo_api_env :: api_env where
  "demo_api_env = \<lparr>ev_now = 5000, ev_read = demo_read_env, ev_event = demo_event_env, ev_fate = Tx_ok, ev_new_id = ''p9'',
     ev_random32 = [], ev_query_fault = None, ev_pg_up = True, ev_redis_up = True,
     ev_db_stats = Inl (ErrorExn ''none''), ev_queue_counts = Inl (ErrorExn ''none''), ev_print = (\<lambda>_. []),
     ev_array_text = (\<lambda>_. []), ev_eventBodySchema = demo_event_schema, ev_createSchema = (\<lambda>_. Inl JNull),
     ev_patchSchema = (\<lambda>_. Inl JNull), ev_parse_body = (\<lambda>_ _. Inr None), ev_param = (\<lambda>p. Inr p),
     ev_not_found = (\<lambda>_ _. json_reply 404 JNull)\<rparr>"

definition demo_api_request :: "string \<Rightarrow> string \<Rightarrow> api_request" where
  "demo_api_request m p = \<lparr>rq_method = m, rq_path = p, rq_query = (\<lambda>_. []), rq_headers = (\<lambda>_. None), rq_body = []\<rparr>"

definition demo_api_state :: "(mem_state, mem_queue_state) api_state" where
  "demo_api_state = \<lparr>ap_db = demo_dlq_db, ap_redis = mem_empty, ap_queue = []\<rparr>"

definition demo_serve :: "reply list \<times> (mem_state, mem_queue_state) api_state" where
  "demo_serve = serve mem_redis mem_queue default_config demo_pg
     [(demo_api_env, demo_api_request ''POST'' ''/v1/dlq/d1/retry'')] demo_api_state"

lemma demo_serve_retries: "map_option d_status (find_delivery (ap_db (snd demo_serve)) ''d1'') = Some PENDING"
proof -
  have rt: "find_route ''POST'' ''/v1/dlq/d1/retry'' = Some (R_retry ''d1'')" by code_simp
  obtain d where d: "find_delivery demo_dlq_db ''d1'' = Some d" "d_status d = DLQ"
    by (simp add: demo_dlq_db_def demo_db_def)
  obtain q1 where "q_add mem_queue [] ''deliver'' ''d1'' (retryJobId ''d1'' (date_of_ts 5000)) = Inr q1"
    by (simp add: mem_queue_def mem_queue_add_def)
  then obtain rep s' where "dlq_retry mem_queue default_config demo_pg Tx_ok 5000 ''d1'' [] demo_dlq_db = (Inr rep, q1, s')"
      "map_option d_status (find_delivery s' ''d1'') = Some PENDING"
    using dlq_retry_enqueues [OF mem_q.bull_queue_axioms _ d, of demo_pg "[]" 5000 q1 default_config]
    by (auto simp: demo_pg_def)
  then show ?thesis
    by (simp add: demo_serve_def handle_def demo_api_request_def rt demo_api_env_def demo_api_state_def
        with_param_def with_body_def body_of_def)
qed

theorem api_requests_are_actions_witness:
  "\<exists>as :: act list. sys_run Guarded default_config (\<lambda>_ _. []) demo_pg as (set_db demo_dlq_db (sys_init 1)) =
     Some (set_db (ap_db (snd demo_serve)) (set_db demo_dlq_db (sys_init 1))) \<and>
     map_option d_status (find_delivery (ap_db (snd demo_serve)) ''d1'') = Some PENDING"
proof -
  have "sy_db (set_db demo_dlq_db (sys_init 1)) = ap_db demo_api_state" by (simp add: set_db_def demo_api_state_def)
  moreover have "demo_serve = (fst demo_serve, snd demo_serve)" by simp
  ultimately obtain as :: "act list" where "sys_run Guarded default_config (\<lambda>_ _. []) demo_pg as (set_db demo_dlq_db (sys_init 1)) =
     Some (set_db (ap_db (snd demo_serve)) (set_db demo_dlq_db (sys_init 1)))"
    using api_requests_are_actions unfolding demo_serve_def by blast
  then show ?thesis using demo_serve_retries by blast
qed

end
