(* ===== verification/Dashboard_Api.thy ===== *)
theory Dashboard_Api
  imports Api_Types
begin

text \<open>
  \<open>src/dashboard/src/api.ts\<close>: requests of the dashboard, how \<open>apiFetch\<close> turns a response into a value
  or an error, and the \<open>usePoll\<close> hook; and the contract of a view with a "load more" button, which the
  delivery table and the DLQ view both keep. The encoding of query parameters in a URL
  (\<open>URLSearchParams\<close>) and its decoding by Fastify are inverse to each other: a request carries the
  parameters themselves.
\<close>

subsection \<open>\<open>apiFetch\<close>\<close>

record http_request =
  hr_method :: string
  hr_path :: string
  hr_params :: "(string \<times> string) list"
  hr_headers :: "(string \<times> string) list"
  hr_body :: "string option"

text \<open>A response has a status, its text and a body, or the message \<open>res.json()\<close> rejects with.\<close>

datatype fetched = Fetch_failed string | Fetched int string "string + json"

record api_error =
  ae_message :: string
  ae_status :: "int option"
  ae_code :: "json option"
  ae_details :: "json option"

definition plain_error :: "string \<Rightarrow> api_error" where
  "plain_error m = \<lparr>ae_message = m, ae_status = None, ae_code = None, ae_details = None\<rparr>"

text \<open>\<open>e?.k ?? dflt\<close> as a string; \<open>to_string\<close> is \<open>String(v)\<close> on a value that is no string.\<close>

definition message_or :: "(json \<Rightarrow> string) \<Rightarrow> json option \<Rightarrow> string \<Rightarrow> string" where
  "message_or to_string err dflt =
     (case Option.bind err (member ''message'') of
        None \<Rightarrow> dflt
      | Some JNull \<Rightarrow> dflt
      | Some (JStr m) \<Rightarrow> m
      | Some v \<Rightarrow> to_string v)"

definition apiFetch :: "(json \<Rightarrow> string) \<Rightarrow> fetched \<Rightarrow> api_error + json" where
  "apiFetch to_string res = (case res of
     Fetch_failed m \<Rightarrow> Inl (plain_error m)
   | Fetched st stText body \<Rightarrow>
       if 200 \<le> st \<and> st \<le> 299 then
         (case body of Inl m \<Rightarrow> Inl (plain_error m) | Inr j \<Rightarrow> Inr j)
       else
         let b = (case body of Inl _ \<Rightarrow> JObj [(''error'', JObj [(''message'', JStr stText)])] | Inr j \<Rightarrow> j) in
         if b = JNull then Inl (plain_error (''Cannot read properties of null (reading '' @ [CHR 0x27] @ ''error'' @ [CHR 0x27] @ '')''))
         else
           let err = member ''error'' b in
           Inl \<lparr>ae_message = message_or to_string err stText, ae_status = Some st,
                ae_code = Option.bind err (member ''code''), ae_details = Option.bind err (member ''details'')\<rparr>)"

definition BASE :: string where
  "BASE = ''/api/v1''"

text \<open>Every request has the JSON content type, also one without a body.\<close>

definition apiGet :: "string \<Rightarrow> (string \<times> string) list \<Rightarrow> http_request" where
  "apiGet path params = \<lparr>hr_method = ''GET'', hr_path = BASE @ path, hr_params = params,
     hr_headers = [(''Content-Type'', ''application/json'')], hr_body = None\<rparr>"

definition apiPost :: "string \<Rightarrow> http_request" where
  "apiPost path = \<lparr>hr_method = ''POST'', hr_path = BASE @ path, hr_params = [],
     hr_headers = [(''Content-Type'', ''application/json'')], hr_body = None\<rparr>"

text \<open>The query the API reads from the parameters, and its reply as the dashboard receives it.\<close>

definition query_of :: "(string \<times> string) list \<Rightarrow> query" where
  "query_of params = (\<lambda>k. map snd (filter (\<lambda>(k', _). k' = k) params))"

definition fetched_reply :: "string \<Rightarrow> reply \<Rightarrow> fetched" where
  "fetched_reply stText r = Fetched (rp_code r) stText (Inr (rp_body r))"

subsection \<open>\<open>usePoll\<close>\<close>

record 'd poll =
  po_data :: "'d option"
  po_error :: "string option"

definition poll_init :: "'d poll" where
  "poll_init = \<lparr>po_data = None, po_error = None\<rparr>"

text \<open>A run in a hidden tab sends nothing.\<close>

definition poll_run :: "bool \<Rightarrow> 'r \<Rightarrow> 'r option" where
  "poll_run hidden req = (if hidden then None else Some req)"

definition poll_settled :: "api_error + 'd \<Rightarrow> 'd poll \<Rightarrow> 'd poll" where
  "poll_settled res p = (case res of
     Inr d \<Rightarrow> p\<lparr>po_data := Some d, po_error := None\<rparr>
   | Inl e \<Rightarrow> p\<lparr>po_error := Some (ae_message e)\<rparr>)"

subsection \<open>A list with a "load more" button\<close>

type_synonym 'r page = "'r list \<times> string option"

definition truthy :: "string option \<Rightarrow> bool" where
  "truthy c \<longleftrightarrow> c \<noteq> None \<and> c \<noteq> Some []"

text \<open>
  What the two views promise: the button sends one request for the cursor shown, and only while none is
  outstanding; a page that arrives for it is appended; a poll shows the first page again.
\<close>

locale load_more_view =
  fixes rows :: "'s \<Rightarrow> 'r list" and cursor :: "'s \<Rightarrow> string option" and loading :: "'s \<Rightarrow> bool"
    and click :: "'s \<Rightarrow> 's \<times> string option"
    and more_ok :: "'r page \<Rightarrow> 's \<Rightarrow> 's" and more_failed :: "api_error \<Rightarrow> 's \<Rightarrow> 's"
    and poll_ok :: "'r page \<Rightarrow> 's \<Rightarrow> 's" and poll_failed :: "api_error \<Rightarrow> 's \<Rightarrow> 's"
  assumes click_idle: "\<not> truthy (cursor s) \<or> loading s \<Longrightarrow> click s = (s, None)"
    and click_sends: "truthy (cursor s) \<Longrightarrow> \<not> loading s \<Longrightarrow>
      snd (click s) = cursor s \<and> loading (fst (click s)) \<and> rows (fst (click s)) = rows s \<and> cursor (fst (click s)) = cursor s"
    and more_ok_appends: "rows (more_ok p s) = rows s @ fst p" "cursor (more_ok p s) = snd p" "\<not> loading (more_ok p s)"
    and more_failed_keeps: "rows (more_failed e s) = rows s" "cursor (more_failed e s) = cursor s" "\<not> loading (more_failed e s)"
    and poll_ok_resets: "rows (poll_ok p s) = fst p" "cursor (poll_ok p s) = snd p" "loading (poll_ok p s) = loading s"
    and poll_failed_keeps: "rows (poll_failed e s) = rows s" "cursor (poll_failed e s) = cursor s"
      "loading (poll_failed e s) = loading s"
begin

text \<open>The view with the number of its outstanding "load more" requests.\<close>

inductive steps :: "'s \<times> nat \<Rightarrow> 's \<times> nat \<Rightarrow> bool" where
  refl: "steps x x"
| click_none: "steps x (s, n) \<Longrightarrow> click s = (s', None) \<Longrightarrow> steps x (s', n)"
| click_request: "steps x (s, n) \<Longrightarrow> click s = (s', Some c) \<Longrightarrow> steps x (s', Suc n)"
| more_ok: "steps x (s, Suc n) \<Longrightarrow> steps x (more_ok p s, n)"
| more_failed: "steps x (s, Suc n) \<Longrightarrow> steps x (more_failed e s, n)"
| poll_ok: "steps x (s, n) \<Longrightarrow> steps x (poll_ok p s, n)"
| poll_failed: "steps x (s, n) \<Longrightarrow> steps x (poll_failed e s, n)"

lemma click_None: "click s = (s', None) \<Longrightarrow> s' = s"
  using click_idle [of s] click_sends [of s] by (cases "truthy (cursor s)"; cases "loading s") (auto simp: truthy_def)

lemma click_Some: "click s = (s', Some c) \<Longrightarrow> \<not> loading s \<and> loading s' \<and> cursor s = Some c \<and> c \<noteq> [] \<and> rows s' = rows s"
  using click_idle [of s] click_sends [of s] by (cases "truthy (cursor s)"; cases "loading s") (auto simp: truthy_def)

lemma single_flight:
  assumes "steps x y" and "n \<le> 1 \<and> (loading s \<longleftrightarrow> n = 1)" and "x = (s, n)"
  shows "snd y \<le> 1 \<and> (loading (fst y) \<longleftrightarrow> snd y = 1)"
  using assms
proof (induction rule: steps.induct)
  case (click_none x s n s')
  then show ?case using click_None by auto
next
  case (click_request x s n s' c)
  then show ?case using click_Some by auto
qed (simp_all add: more_ok_appends more_failed_keeps poll_ok_resets poll_failed_keeps)

text \<open>Clicking and waiting, with no poll in between, until the button is gone or \<open>n\<close> pages are loaded.\<close>

fun load_all :: "nat \<Rightarrow> (string \<Rightarrow> 'r page) \<Rightarrow> 's \<Rightarrow> 's" where
  "load_all 0 get s = s"
| "load_all (Suc n) get s =
     (case click s of (s', None) \<Rightarrow> s' | (s', Some c) \<Rightarrow> load_all n get (more_ok (get c) s'))"

text \<open>All pages from a cursor on, as a client without a view collects them.\<close>

fun pages_from :: "nat \<Rightarrow> (string \<Rightarrow> 'r page) \<Rightarrow> string option \<Rightarrow> 'r list" where
  "pages_from 0 get c = []"
| "pages_from (Suc n) get c =
     (if truthy c then fst (get (the c)) @ pages_from n get (snd (get (the c))) else [])"

lemma load_all_rows: "\<not> loading s \<Longrightarrow> rows (load_all n get s) = rows s @ pages_from n get (cursor s)"
proof (induction n arbitrary: s)
  case (Suc n)
  show ?case
  proof (cases "truthy (cursor s)")
    case True
    then obtain c where "cursor s = Some c" by (auto simp: truthy_def)
    with True Suc.prems click_sends [of s] obtain s' where "click s = (s', Some c)" "rows s' = rows s"
      by (cases "click s") auto
    then show ?thesis
      using True Suc.IH [of "more_ok (get c) s'"] \<open>cursor s = Some c\<close> by (simp add: more_ok_appends)
  qed (simp add: click_idle)
qed simp

end

end
