(* ===== verification/Dashboard_Table.thy ===== *)
theory Dashboard_Table
  imports Dashboard_Api
begin

text \<open>
  The delivery tab of the dashboard: the filters (\<open>src/dashboard/src/components/Filters.tsx\<close>), the table
  with its polling effect and "load more" (\<open>DeliveryTable.tsx\<close>), and what it displays. The effect's
  closures see the filters of the render that started it; each start is a new generation, and the
  \<open>cancelled\<close> flag of an effect is set exactly when its generation is over. How the browser reads a local
  date is an argument.
\<close>

subsection \<open>Filters\<close>

record filters =
  f_statuses :: "string list"
  f_endpoint_id :: string
  f_from :: string
  f_to :: string

definition EMPTY_FILTERS :: filters where
  "EMPTY_FILTERS = \<lparr>f_statuses = [], f_endpoint_id = [], f_from = [], f_to = []\<rparr>"

definition ALL_STATUSES :: "string list" where
  "ALL_STATUSES = [''PENDING'', ''DELIVERING'', ''DELIVERED'', ''FAILED'', ''DLQ'']"

definition toggleStatus :: "string \<Rightarrow> filters \<Rightarrow> filters" where
  "toggleStatus s f = f\<lparr>f_statuses :=
     (if s \<in> set (f_statuses f) then filter (\<lambda>x. x \<noteq> s) (f_statuses f) else f_statuses f @ [s])\<rparr>"

datatype filter_input = Toggle string | Endpoint_is string | From_is string | To_is string | Clear

text \<open>The inputs of the bar; a checkbox exists for each of \<open>ALL_STATUSES\<close>.\<close>

primrec filter_change :: "filter_input \<Rightarrow> filters \<Rightarrow> filters" where
  "filter_change (Toggle s) f = (if s \<in> set ALL_STATUSES then toggleStatus s f else f)"
| "filter_change (Endpoint_is e) f = f\<lparr>f_endpoint_id := e\<rparr>"
| "filter_change (From_is t) f = f\<lparr>f_from := t\<rparr>"
| "filter_change (To_is t) f = f\<lparr>f_to := t\<rparr>"
| "filter_change Clear f = EMPTY_FILTERS"

subsection \<open>\<open>buildParams\<close>\<close>

definition iso_param :: "(string \<Rightarrow> ms option) \<Rightarrow> string \<Rightarrow> string \<Rightarrow> exn + (string \<times> string) list" where
  "iso_param local_date k v =
     (if v = [] then Inr []
      else case js_date local_date v of
             None \<Rightarrow> Inl (ErrorExn ''Invalid time value'')
           | Some t \<Rightarrow> Inr [(k, toISOString t)])"

definition buildParams :: "(string \<Rightarrow> ms option) \<Rightarrow> filters \<Rightarrow> string option \<Rightarrow> exn + (string \<times> string) list" where
  "buildParams local_date f cursor =
     (case iso_param local_date ''from'' (f_from f) of Inl e \<Rightarrow> Inl e | Inr from \<Rightarrow>
     (case iso_param local_date ''to'' (f_to f) of Inl e \<Rightarrow> Inl e | Inr to \<Rightarrow>
        Inr ([(''limit'', ''50'')] @
          (if f_statuses f \<noteq> [] then [(''status'', join_comma (f_statuses f))] else []) @
          (if f_endpoint_id f \<noteq> [] then [(''endpoint_id'', f_endpoint_id f)] else []) @ from @ to @
          (if truthy cursor then [(''cursor'', the cursor)] else []))))"

subsection \<open>The table\<close>

record 'r table =
  tb_rows :: "'r list"
  tb_nextCursor :: "string option"
  tb_loading :: bool
  tb_error :: "string option"

definition table_init :: "'r table" where
  "table_init = \<lparr>tb_rows = [], tb_nextCursor = None, tb_loading = False, tb_error = None\<rparr>"

definition table_poll_ok :: "'r page \<Rightarrow> 'r table \<Rightarrow> 'r table" where
  "table_poll_ok p t = t\<lparr>tb_rows := fst p, tb_nextCursor := snd p, tb_error := None\<rparr>"

definition table_poll_failed :: "api_error \<Rightarrow> 'r table \<Rightarrow> 'r table" where
  "table_poll_failed e t = t\<lparr>tb_error := Some (ae_message e)\<rparr>"

text \<open>\<open>loadMore\<close> up to its \<open>await\<close>: the cursor it asks for.\<close>

definition table_load_more :: "'r table \<Rightarrow> 'r table \<times> string option" where
  "table_load_more t =
     (if \<not> truthy (tb_nextCursor t) \<or> tb_loading t then (t, None)
      else (t\<lparr>tb_loading := True\<rparr>, tb_nextCursor t))"

definition table_more_ok :: "'r page \<Rightarrow> 'r table \<Rightarrow> 'r table" where
  "table_more_ok p t = t\<lparr>tb_rows := tb_rows t @ fst p, tb_nextCursor := snd p, tb_loading := False\<rparr>"

definition table_more_failed :: "api_error \<Rightarrow> 'r table \<Rightarrow> 'r table" where
  "table_more_failed e t = t\<lparr>tb_error := Some (ae_message e), tb_loading := False\<rparr>"

interpretation table_view: load_more_view tb_rows tb_nextCursor tb_loading table_load_more table_more_ok table_more_failed
  table_poll_ok table_poll_failed
  by unfold_locales
    (auto simp: table_load_more_def table_more_ok_def table_more_failed_def table_poll_ok_def table_poll_failed_def)

subsection \<open>The table with its effect and the requests under way\<close>

text \<open>The dependencies of the effect.\<close>

definition deps :: "filters \<Rightarrow> string \<times> string \<times> string \<times> string" where
  "deps f = (join_comma (f_statuses f), f_endpoint_id f, f_from f, f_to f)"

record 'r table_sys =
  ts_table :: "'r table"
  ts_filters :: filters
  ts_gen :: nat
  ts_polls :: "(nat \<times> filters) list"
  ts_mores :: "(filters \<times> string) list"

datatype 'r table_event =
    Filters_are filters
  | Poll_due
  | Poll_done nat "api_error + 'r page"
  | More_clicked
  | More_done nat "api_error + 'r page"

definition drop_nth :: "nat \<Rightarrow> 'a list \<Rightarrow> 'a list" where
  "drop_nth i xs = take i xs @ drop (Suc i) xs"

text \<open>\<open>fetch1\<close> of the current effect.\<close>

definition fetch1 :: "'r table_sys \<Rightarrow> 'r table_sys" where
  "fetch1 s = s\<lparr>ts_polls := ts_polls s @ [(ts_gen s, ts_filters s)]\<rparr>"

text \<open>New filters: when a dependency changed, the old effect is cleaned up and a new one fetches at once.\<close>

definition on_filters :: "filters \<Rightarrow> 'r table_sys \<Rightarrow> 'r table_sys" where
  "on_filters f s =
     (if deps f = deps (ts_filters s) then s\<lparr>ts_filters := f\<rparr>
      else fetch1 (s\<lparr>ts_filters := f, ts_gen := Suc (ts_gen s)\<rparr>))"

text \<open>The answer of the \<open>i\<close>-th poll under way, ignored when its effect was cancelled.\<close>

definition on_poll_done :: "nat \<Rightarrow> api_error + 'r page \<Rightarrow> 'r table_sys \<Rightarrow> 'r table_sys" where
  "on_poll_done i res s =
     (if i < length (ts_polls s) then
        let s' = s\<lparr>ts_polls := drop_nth i (ts_polls s)\<rparr> in
        if fst (ts_polls s ! i) \<noteq> ts_gen s then s'
        else (case res of
                Inr p \<Rightarrow> s'\<lparr>ts_table := table_poll_ok p (ts_table s)\<rparr>
              | Inl e \<Rightarrow> s'\<lparr>ts_table := table_poll_failed e (ts_table s)\<rparr>)
      else s)"

definition on_more_clicked :: "'r table_sys \<Rightarrow> 'r table_sys" where
  "on_more_clicked s = (case table_load_more (ts_table s) of
     (t, None) \<Rightarrow> s\<lparr>ts_table := t\<rparr>
   | (t, Some c) \<Rightarrow> s\<lparr>ts_table := t, ts_mores := ts_mores s @ [(ts_filters s, c)]\<rparr>)"

definition on_more_done :: "nat \<Rightarrow> api_error + 'r page \<Rightarrow> 'r table_sys \<Rightarrow> 'r table_sys" where
  "on_more_done i res s =
     (if i < length (ts_mores s) then
        let s' = s\<lparr>ts_mores := drop_nth i (ts_mores s)\<rparr> in
        (case res of
           Inr p \<Rightarrow> s'\<lparr>ts_table := table_more_ok p (ts_table s)\<rparr>
         | Inl e \<Rightarrow> s'\<lparr>ts_table := table_more_failed e (ts_table s)\<rparr>)
      else s)"

primrec table_step :: "'r table_event \<Rightarrow> 'r table_sys \<Rightarrow> 'r table_sys" where
  "table_step (Filters_are f) s = on_filters f s"
| "table_step Poll_due s = fetch1 s"
| "table_step (Poll_done i res) s = on_poll_done i res s"
| "table_step More_clicked s = on_more_clicked s"
| "table_step (More_done i res) s = on_more_done i res s"

definition table_mount :: "filters \<Rightarrow> 'r table_sys" where
  "table_mount f = fetch1 \<lparr>ts_table = table_init, ts_filters = f, ts_gen = 0, ts_polls = [], ts_mores = []\<rparr>"

subsection \<open>Display\<close>

definition shortId :: "string \<Rightarrow> string" where
  "shortId i = take 8 i"

text \<open>A date that cannot be read makes every comparison false.\<close>

definition relTime :: "(string \<Rightarrow> ms option) \<Rightarrow> ms \<Rightarrow> string \<Rightarrow> string" where
  "relTime local_date now txt = (case js_date local_date txt of
     None \<Rightarrow> ''NaNh ago''
   | Some t \<Rightarrow>
       let diff = now - t in
       if diff < 60000 then string_of_int (diff div 1000) @ ''s ago''
       else if diff < 3600000 then string_of_int (diff div 60000) @ ''m ago''
       else string_of_int (diff div 3600000) @ ''h ago'')"

definition em_dash :: string where
  "em_dash = [CHR 0xE2, CHR 0x80, CHR 0x94]"

definition text_member :: "string \<Rightarrow> json \<Rightarrow> string" where
  "text_member k row = (case member k row of Some (JStr t) \<Rightarrow> t | Some (JNum n) \<Rightarrow> n | _ \<Rightarrow> [])"

definition row_cells :: "(string \<Rightarrow> ms option) \<Rightarrow> ms \<Rightarrow> json \<Rightarrow> string list" where
  "row_cells local_date now row =
     [shortId (text_member ''id'' row), text_member ''event_type'' row, text_member ''status'' row,
      text_member ''attempt_count'' row,
      (let next = text_member ''next_attempt_at'' row in if next \<noteq> [] then relTime local_date now next else em_dash),
      relTime local_date now (text_member ''updated_at'' row)]"

datatype table_display = Shows_error string | Shows_table "string list list" "string option"

definition button_label :: "bool \<Rightarrow> string" where
  "button_label loading = (if loading then ''loading'' @ [CHR 0xE2, CHR 0x80, CHR 0xA6] else ''load more'')"

text \<open>An error hides the table; the button shows while there is a next page.\<close>

definition render_table :: "(string \<Rightarrow> ms option) \<Rightarrow> ms \<Rightarrow> json table \<Rightarrow> table_display" where
  "render_table local_date now t =
     (if truthy (tb_error t) then Shows_error (''error: '' @ the (tb_error t))
      else Shows_table
        (if tb_rows t = [] then [[''no deliveries'']] else map (row_cells local_date now) (tb_rows t))
        (if truthy (tb_nextCursor t) then Some (button_label (tb_loading t)) else None))"

subsection \<open>Invariants\<close>

definition table_run :: "'r table_event list \<Rightarrow> 'r table_sys \<Rightarrow> 'r table_sys" where
  "table_run es s = fold table_step es s"

definition table_inv :: "'r table_sys \<Rightarrow> bool" where
  "table_inv s \<longleftrightarrow>
     length (ts_mores s) \<le> 1 \<and> (tb_loading (ts_table s) \<longleftrightarrow> ts_mores s \<noteq> []) \<and>
     (\<forall>(g, f) \<in> set (ts_polls s). g \<le> ts_gen s \<and> (g = ts_gen s \<longrightarrow> deps f = deps (ts_filters s)))"

lemma set_drop_nth: "set (drop_nth i xs) \<subseteq> set xs"
  by (auto simp: drop_nth_def dest: in_set_takeD in_set_dropD)

lemma in_drop_nth: "x \<in> set (drop_nth i xs) \<Longrightarrow> x \<in> set xs"
  using set_drop_nth by fastforce

lemma length_drop_nth: "i < length xs \<Longrightarrow> length (drop_nth i xs) = length xs - 1"
  by (simp add: drop_nth_def)

lemma table_inv_mount: "table_inv (table_mount f)"
  by (simp add: table_inv_def table_mount_def fetch1_def table_init_def)

lemma table_inv_fetch1: "table_inv s \<Longrightarrow> table_inv (fetch1 s)"
  by (auto simp: table_inv_def fetch1_def)

lemma table_inv_filters: "table_inv s \<Longrightarrow> table_inv (on_filters f s)"
  by (auto simp: table_inv_def on_filters_def fetch1_def)

lemma table_inv_poll_done: "table_inv s \<Longrightarrow> table_inv (on_poll_done i res s)"
  using set_drop_nth [of i "ts_polls s"]
  by (auto simp: table_inv_def on_poll_done_def Let_def table_poll_ok_def table_poll_failed_def split: sum.split)

lemma table_inv_more_clicked: "table_inv s \<Longrightarrow> table_inv (on_more_clicked s)"
  by (auto simp: table_inv_def on_more_clicked_def table_load_more_def truthy_def)

lemma table_inv_more_done:
  assumes "table_inv s"
  shows "table_inv (on_more_done i res s)"
proof (cases "i < length (ts_mores s)")
  case True
  then have "drop_nth i (ts_mores s) = []"
    using assms length_drop_nth [OF True] by (cases "ts_mores s") (simp_all add: table_inv_def)
  then show ?thesis
    using assms True
    by (auto simp: table_inv_def on_more_done_def Let_def table_more_ok_def table_more_failed_def split: sum.split)
next
  case False
  then show ?thesis using assms by (simp add: on_more_done_def)
qed

lemma table_inv_step: "table_inv s \<Longrightarrow> table_inv (table_step e s)"
  by (cases e) (simp_all add: table_inv_filters table_inv_fetch1 table_inv_poll_done table_inv_more_clicked table_inv_more_done)

lemma table_inv_run: "table_inv s \<Longrightarrow> table_inv (table_run es s)"
  by (induction es arbitrary: s) (simp_all add: table_run_def table_inv_step)

lemma stale_poll_ignored:
  assumes "i < length (ts_polls s)" and "fst (ts_polls s ! i) \<noteq> ts_gen s"
  shows "ts_table (on_poll_done i res s) = ts_table s"
  using assms by (simp add: on_poll_done_def Let_def)

subsection \<open>The rows on display belong to the filters\<close>

text \<open>
  \<open>belongs\<close> tells which rows a request may answer with, \<open>served\<close> that every answer keeps to the request it
  is for, and that the filters do not change.
\<close>

fun served :: "(string \<times> string \<times> string \<times> string \<Rightarrow> 'r \<Rightarrow> bool) \<Rightarrow> 'r table_event list \<Rightarrow> 'r table_sys \<Rightarrow> bool" where
  "served belongs [] s = True"
| "served belongs (e # es) s =
     ((case e of
         Filters_are _ \<Rightarrow> False
       | Poll_done i (Inr p) \<Rightarrow> i < length (ts_polls s) \<and> list_all (belongs (deps (snd (ts_polls s ! i)))) (fst p)
       | More_done i (Inr p) \<Rightarrow> i < length (ts_mores s) \<and> list_all (belongs (deps (fst (ts_mores s ! i)))) (fst p)
       | _ \<Rightarrow> True) \<and> served belongs es (table_step e s))"

definition mores_current :: "'r table_sys \<Rightarrow> bool" where
  "mores_current s \<longleftrightarrow> (\<forall>m \<in> set (ts_mores s). deps (fst m) = deps (ts_filters s))"

definition rows_belong :: "(string \<times> string \<times> string \<times> string \<Rightarrow> 'r \<Rightarrow> bool) \<Rightarrow> 'r table_sys \<Rightarrow> bool" where
  "rows_belong belongs s \<longleftrightarrow> list_all (belongs (deps (ts_filters s))) (tb_rows (ts_table s))"

lemma served_append:
  "served belongs (es @ es') s \<longleftrightarrow> served belongs es s \<and> served belongs es' (table_run es s)"
  by (induction es arbitrary: s) (simp_all add: table_run_def)

lemma mores_current_step:
  assumes "mores_current s" and "served belongs [e] s"
  shows "mores_current (table_step e s) \<and> ts_filters (table_step e s) = ts_filters s"
  using assms
  by (cases e)
    (auto dest: in_drop_nth simp: mores_current_def fetch1_def on_poll_done_def on_more_clicked_def on_more_done_def Let_def
        table_load_more_def truthy_def split: sum.splits, force)

lemma poll_accepted:
  assumes "table_inv s" and "i < length (ts_polls s)" and "fst (ts_polls s ! i) = ts_gen s"
    and "served belongs [Poll_done i (Inr p)] s"
  shows "rows_belong belongs (table_step (Poll_done i (Inr p)) s)"
proof -
  have "ts_polls s ! i \<in> set (ts_polls s)" using assms(2) by simp
  then have "deps (snd (ts_polls s ! i)) = deps (ts_filters s)" using assms(1,3) by (auto simp: table_inv_def)
  then show ?thesis using assms by (simp add: rows_belong_def on_poll_done_def Let_def table_poll_ok_def)
qed

lemma rows_belong_step:
  assumes "table_inv s" and "mores_current s" and "rows_belong belongs s" and "served belongs [e] s"
  shows "rows_belong belongs (table_step e s)"
proof (cases e)
  case (Poll_done i res)
  show ?thesis
  proof (cases res)
    case (Inr p)
    then show ?thesis
      using assms Poll_done poll_accepted [of s i belongs p] stale_poll_ignored [of i s res]
      by (cases "fst (ts_polls s ! i) = ts_gen s") (auto simp: rows_belong_def on_poll_done_def Let_def)
  qed (use assms(3) Poll_done in \<open>auto simp: rows_belong_def on_poll_done_def Let_def table_poll_failed_def\<close>)
next
  case (More_done i res)
  show ?thesis
  proof (cases res)
    case (Inr p)
    then have "deps (fst (ts_mores s ! i)) = deps (ts_filters s)"
      using assms(2,4) More_done nth_mem [of i "ts_mores s"] by (auto simp: mores_current_def)
    then show ?thesis
      using assms Inr More_done by (simp add: rows_belong_def on_more_done_def Let_def table_more_ok_def)
  qed (use assms(3) More_done in \<open>auto simp: rows_belong_def on_more_done_def Let_def table_more_failed_def\<close>)
qed (use assms in \<open>auto simp: rows_belong_def fetch1_def on_more_clicked_def table_load_more_def split: option.splits\<close>)

lemma rows_belong_run:
  assumes "table_inv s" and "mores_current s" and "rows_belong belongs s" and "served belongs es s"
  shows "rows_belong belongs (table_run es s)"
  using assms
proof (induction es arbitrary: s)
  case (Cons e es)
  have "served belongs [e] s" using Cons.prems(4) by simp
  then show ?case
    using Cons table_inv_step [of s e] mores_current_step [of s belongs e] rows_belong_step [of s belongs e]
    by (simp add: table_run_def)
qed (simp add: table_run_def)

lemma mores_current_run:
  assumes "mores_current s" and "served belongs es s"
  shows "mores_current (table_run es s) \<and> ts_filters (table_run es s) = ts_filters s"
  using assms
proof (induction es arbitrary: s)
  case (Cons e es)
  have "served belongs [e] s" using Cons.prems(2) by simp
  then show ?case using Cons mores_current_step [of s belongs e] by (simp add: table_run_def)
qed (simp add: table_run_def)

subsection \<open>The filters reach the API\<close>

lemma status_word:
  assumes "w \<in> set ALL_STATUSES"
  shows "toUpperCase (trim w) = w" and "CHR '','' \<notin> set w" and "w \<noteq> []" and "w \<in> set VALID_STATUSES"
proof -
  have plain: "plain (hd w)" "plain (last w)" and w: "w \<noteq> []"
    using assms by (auto simp: ALL_STATUSES_def plain_def is_blank_def)
  have "toUpperCase w = w" using assms by (auto simp: ALL_STATUSES_def upper_def)
  then show "toUpperCase (trim w) = w" using trim_plain [OF w plain] by simp
  show "CHR '','' \<notin> set w" "w \<noteq> []" "w \<in> set VALID_STATUSES"
    using assms by (auto simp: ALL_STATUSES_def VALID_STATUSES_def)
qed

lemma join_comma_nonempty: "ws \<noteq> [] \<Longrightarrow> [] \<notin> set ws \<Longrightarrow> join_comma ws \<noteq> []"
  by (cases ws rule: join_comma.cases) auto

lemma parse_statuses_join:
  assumes "set sts \<subseteq> set ALL_STATUSES" and "sts \<noteq> []"
  shows "parse_statuses (Some (join_comma sts)) = sts"
proof -
  have w: "\<forall>w \<in> set sts. CHR '','' \<notin> set w \<and> w \<noteq> [] \<and> toUpperCase (trim w) = w \<and> w \<in> set VALID_STATUSES"
    using assms(1) status_word by blast
  then have "join_comma sts \<noteq> []" "split_on (CHR '','') (join_comma sts) = sts"
    using assms(2) join_comma_nonempty [of sts] split_join_comma [of sts] by auto
  moreover have "map (\<lambda>w. toUpperCase (trim w)) sts = sts" using w by (simp add: map_idI)
  ultimately show ?thesis using w by (simp add: parse_statuses_def filter_id_conv)
qed

lemma limit_fifty: "z_limit [''50''] = Some 50"
  using limit_digits [of "''50''"] by (simp add: z_limit_def is_digit_def digits_val_def digit_val_def)

text \<open>A field that is empty or holds a date the browser reads, from 1970 on and in a year of four digits.\<close>

definition readable_date :: "(string \<Rightarrow> ms option) \<Rightarrow> string \<Rightarrow> bool" where
  "readable_date local_date v \<longleftrightarrow> v = [] \<or> (case js_date local_date v of None \<Rightarrow> False | Some t \<Rightarrow> 0 \<le> t \<and> four_digit_year t)"

definition field_date :: "(string \<Rightarrow> ms option) \<Rightarrow> string \<Rightarrow> js_date_value option" where
  "field_date local_date v = (if v = [] then None else Some (js_date local_date v))"

lemma iso_param_cases:
  assumes "readable_date local_date v"
  obtains "v = []" and "iso_param local_date k v = Inr []" | t where "v \<noteq> []" and "js_date local_date v = Some t"
    and "0 \<le> t" and "four_digit_year t" and "iso_param local_date k v = Inr [(k, toISOString t)]"
  using assms by (cases "js_date local_date v") (auto simp: readable_date_def iso_param_def)

lemma toISOString_nonempty: "toISOString t \<noteq> []"
  by (simp add: toISOString_def Let_def split: prod.split)

lemma query_of_params:
  fixes st ep fr tt cu :: "(string \<times> string) list"
  assumes "\<forall>(k, v) \<in> set fr. k = ''from''" "\<forall>(k, v) \<in> set tt. k = ''to''"
  defines "p \<equiv> [(''limit'', ''50'')] @ st @ ep @ fr @ tt @ cu"
  assumes "\<forall>(k, v) \<in> set st. k = ''status''" "\<forall>(k, v) \<in> set ep. k = ''endpoint_id''" "\<forall>(k, v) \<in> set cu. k = ''cursor''"
  shows "query_of p ''limit'' = [''50'']" "query_of p ''status'' = map snd st" "query_of p ''endpoint_id'' = map snd ep"
    "query_of p ''from'' = map snd fr" "query_of p ''to'' = map snd tt" "query_of p ''cursor'' = map snd cu"
proof -
  have other: "filter (\<lambda>(k', _). k' = k) xs = []" if "\<forall>(k, v) \<in> set xs. k = n" "n \<noteq> k" for xs :: "(string \<times> string) list" and k n
    using that by (auto simp: filter_empty_conv)
  have same: "filter (\<lambda>(k', _). k' = k) xs = xs" if "\<forall>(k, v) \<in> set xs. k = k0" "k = k0" for xs :: "(string \<times> string) list" and k k0
    using that by (auto simp: filter_id_conv)
  note o = other [OF assms(1)] other [OF assms(2)] other [OF assms(4)] other [OF assms(5)] other [OF assms(6)]
  note m = same [OF assms(1)] same [OF assms(2)] same [OF assms(4)] same [OF assms(5)] same [OF assms(6)]
  show "query_of p ''limit'' = [''50'']" "query_of p ''status'' = map snd st" "query_of p ''endpoint_id'' = map snd ep"
    "query_of p ''from'' = map snd fr" "query_of p ''to'' = map snd tt" "query_of p ''cursor'' = map snd cu"
    by (simp_all add: p_def query_of_def o m)
qed

lemma buildParams_query:
  assumes sts: "set (f_statuses f) \<subseteq> set ALL_STATUSES"
    and ep: "f_endpoint_id f = [] \<or> re_zod_uuid env (f_endpoint_id f)"
    and dates: "readable_date local_date (f_from f)" "readable_date local_date (f_to f)"
  shows "\<exists>p. buildParams local_date f cursor = Inr p \<and> deliveriesQuery env (query_of p) = Some
    \<lparr>lq_status = f_statuses f, lq_endpoint_id = (if f_endpoint_id f = [] then None else Some (f_endpoint_id f)),
     lq_from = field_date local_date (f_from f), lq_to = field_date local_date (f_to f), lq_limit = 50,
     lq_cursor = (if truthy cursor then cursor else None)\<rparr>"
proof -
  have date: "\<exists>vs. iso_param local_date k v = Inr (map (Pair k) vs) \<and>
      (\<exists>o'. z_optional_string vs = Some o' \<and> z_date env o' = field_date local_date v)" if "readable_date local_date v" for k v
    using that
  proof (cases rule: iso_param_cases [of local_date v k])
    case 1
    then show ?thesis by (intro exI [of _ "[]"]) (simp add: z_optional_string_def z_date_def field_date_def)
  next
    case (2 t)
    then show ?thesis
      by (intro exI [of _ "[toISOString t]"])
        (simp add: z_optional_string_def z_date_def field_date_def toISOString_nonempty)
  qed
  from date [OF dates(1), of "''from''"] obtain fs fo where fs: "iso_param local_date ''from'' (f_from f) = Inr (map (Pair ''from'') fs)"
    "z_optional_string fs = Some fo" "z_date env fo = field_date local_date (f_from f)" by blast
  from date [OF dates(2), of "''to''"] obtain us uo where us: "iso_param local_date ''to'' (f_to f) = Inr (map (Pair ''to'') us)"
    "z_optional_string us = Some uo" "z_date env uo = field_date local_date (f_to f)" by blast
  let ?st = "if f_statuses f \<noteq> [] then [(''status'', join_comma (f_statuses f))] else []"
  let ?ep = "if f_endpoint_id f \<noteq> [] then [(''endpoint_id'', f_endpoint_id f)] else []"
  let ?cu = "if truthy cursor then [(''cursor'', the cursor)] else []"
  let ?p = "[(''limit'', ''50'')] @ ?st @ ?ep @ map (Pair ''from'') fs @ map (Pair ''to'') us @ ?cu"
  have q: "query_of ?p ''limit'' = [''50'']" "query_of ?p ''status'' = map snd ?st" "query_of ?p ''endpoint_id'' = map snd ?ep"
    "query_of ?p ''from'' = fs" "query_of ?p ''to'' = us" "query_of ?p ''cursor'' = map snd ?cu"
    using query_of_params [of "map (Pair ''from'') fs" "map (Pair ''to'') us" ?st ?ep ?cu] by (auto simp: comp_def)
  have st: "\<exists>o'. z_optional_string (map snd ?st) = Some o' \<and> parse_statuses o' = f_statuses f"
    using parse_statuses_join [OF sts] by (simp add: z_optional_string_def parse_statuses_def [of None])
  have "deliveriesQuery env (query_of ?p) = Some
    \<lparr>lq_status = f_statuses f, lq_endpoint_id = (if f_endpoint_id f = [] then None else Some (f_endpoint_id f)),
     lq_from = field_date local_date (f_from f), lq_to = field_date local_date (f_to f), lq_limit = 50,
     lq_cursor = (if truthy cursor then cursor else None)\<rparr>"
    unfolding deliveriesQuery_def q limit_fifty using st fs us ep
    by (auto simp: z_optional_string_def truthy_def)
  then show ?thesis using fs(1) us(1) by (simp add: buildParams_def)
qed

text \<open>The deliveries the filters ask for.\<close>

definition chosen :: "read_env \<Rightarrow> (string \<Rightarrow> ms option) \<Rightarrow> filters \<Rightarrow> delivery_row \<Rightarrow> bool" where
  "chosen env local_date f d \<longleftrightarrow>
     (f_statuses f = [] \<or> status_name (d_status d) \<in> set (f_statuses f)) \<and>
     (f_endpoint_id f = [] \<or> re_uuid env (f_endpoint_id f) = Some (d_endpoint_id d)) \<and>
     (f_from f = [] \<or> ts_of_date (the (js_date local_date (f_from f))) \<le> d_created_at d) \<and>
     (f_to f = [] \<or> d_created_at d \<le> ts_of_date (the (js_date local_date (f_to f))))"

lemma bound_field_date:
  assumes "reads_iso (re_timestamptz env)" and "readable_date local_date v"
  shows "bound_time env (field_date local_date v) =
      (if v = [] then None else Some (ts_of_date (the (js_date local_date v))))"
    and "field_date local_date v \<noteq> Some None"
    and "cast Invalid_datetime_format (\<lambda>d. re_timestamptz env (toISOString (the d))) (field_date local_date v) =
      Inr (if v = [] then None else Some (ts_of_date (the (js_date local_date v))))"
  using assms by (auto simp: bound_time_def field_date_def readable_date_def reads_iso_def cast_def split: option.splits)

lemma first_page_chosen:
  assumes inv: "db_inv s" and iso: "reads_iso (re_timestamptz env)"
    and sts: "set (f_statuses f) \<subseteq> set ALL_STATUSES"
    and ep: "f_endpoint_id f = [] \<or> re_zod_uuid env (f_endpoint_id f) \<and> re_uuid env (f_endpoint_id f) \<noteq> None"
    and dates: "readable_date local_date (f_from f)" "readable_date local_date (f_to f)"
  shows "\<exists>p. buildParams local_date f None = Inr p \<and>
    get_deliveries env (query_of p) s = Inr (page_reply (json_of_list_row s)
      (paginate row_key None 50 (filter (chosen env local_date f) (deliveries s))))"
proof -
  have "f_endpoint_id f = [] \<or> re_zod_uuid env (f_endpoint_id f)" using ep by blast
  from buildParams_query [OF sts this dates, of None] obtain p where p: "buildParams local_date f None = Inr p"
    "deliveriesQuery env (query_of p) = Some \<lparr>lq_status = f_statuses f,
      lq_endpoint_id = (if f_endpoint_id f = [] then None else Some (f_endpoint_id f)),
      lq_from = field_date local_date (f_from f), lq_to = field_date local_date (f_to f), lq_limit = 50, lq_cursor = None\<rparr>"
    by (auto simp: truthy_def)
  have "cast Invalid_text_representation (re_uuid env) (if f_endpoint_id f = [] then None else Some (f_endpoint_id f)) =
      Inr (if f_endpoint_id f = [] then None else re_uuid env (f_endpoint_id f))"
    using ep by (auto simp: cast_def)
  moreover have "filter (matches (f_statuses f) (if f_endpoint_id f = [] then None else re_uuid env (f_endpoint_id f))
      (if f_from f = [] then None else Some (ts_of_date (the (js_date local_date (f_from f)))))
      (if f_to f = [] then None else Some (ts_of_date (the (js_date local_date (f_to f)))))) (deliveries s) =
      filter (chosen env local_date f) (deliveries s)"
    using ep by (auto simp: matches_def chosen_def intro!: filter_cong split: option.splits)
  ultimately show ?thesis
    using p bound_field_date [OF iso dates(1)] bound_field_date [OF iso dates(2)] db_inv_joined [OF inv]
    by (simp add: get_deliveries_def decode_param_def list_deliveries_def cast_def [where v = None])
qed

subsection \<open>Properties\<close>



text \<open>
  C29: once an answer to a poll of the current filters has been shown, every row on display belongs to the
  current filters until they change, whatever polls and "load more" requests are answered in whatever
  order, answers of cancelled effects included, when no "load more" was under way at the filter change.
\<close>

theorem table_rows_match_filters:
  assumes "s = table_run es0 (table_mount f0)" and "ts_mores s = []"
    and "served belongs (es1 @ Poll_done i (Inr p) # es2) s"
    and "fst (ts_polls (table_run es1 s) ! i) = ts_gen (table_run es1 s)"
  shows "\<forall>r \<in> set (tb_rows (ts_table (table_run (es1 @ Poll_done i (Inr p) # es2) s))). belongs (deps (ts_filters s)) r"
proof -
  let ?s1 = "table_run es1 s"
  let ?s2 = "table_step (Poll_done i (Inr p)) ?s1"
  have sv: "served belongs es1 s" "served belongs [Poll_done i (Inr p)] ?s1" "served belongs es2 ?s2"
    using assms(3) by (simp_all add: served_append)
  have inv: "table_inv ?s1" using assms(1) by (simp add: table_inv_run table_inv_mount)
  have cur: "mores_current ?s1" "ts_filters ?s1 = ts_filters s"
    using mores_current_run [OF _ sv(1)] assms(2) by (simp_all add: mores_current_def)
  have cur2: "mores_current ?s2" "ts_filters ?s2 = ts_filters s"
    using mores_current_step [OF cur(1) sv(2)] cur(2) by simp_all
  have "rows_belong belongs ?s2" using poll_accepted [OF inv _ assms(4) sv(2)] sv(2) by simp
  then have "rows_belong belongs (table_run es2 ?s2)"
    by (rule rows_belong_run [OF table_inv_step [OF inv] cur2(1) _ sv(3)])
  moreover have "ts_filters (table_run es2 ?s2) = ts_filters s"
    using mores_current_run [OF cur2(1) sv(3)] cur2(2) by simp
  moreover have "table_run (es1 @ Poll_done i (Inr p) # es2) s = table_run es2 ?s2" by (simp add: table_run_def)
  ultimately show ?thesis by (simp add: rows_belong_def list_all_iff)
qed

text \<open>Two sets of filters and rows named after the one they belong to.\<close>

definition demo_filters :: "string \<Rightarrow> filters" where
  "demo_filters st = EMPTY_FILTERS\<lparr>f_statuses := [st]\<rparr>"

theorem table_rows_match_filters_witness:
  "list_all (\<lambda>r. r = ''b'') (tb_rows (ts_table (table_run
     [Poll_done 0 (Inr ([''a''], None)), Poll_done 0 (Inr ([''b''], None))]
     (table_run [Filters_are (demo_filters ''b'')] (table_mount (demo_filters ''a''))))))"
  using table_rows_match_filters [of _ "[Filters_are (demo_filters ''b'')]" "demo_filters ''a''"
      "\<lambda>d r. r = fst d" "[Poll_done 0 (Inr ([''a''], None))]" 0 "([''b''], None)" "[]", OF refl]
  by (simp add: table_run_def table_mount_def fetch1_def on_filters_def demo_filters_def EMPTY_FILTERS_def deps_def
      on_poll_done_def drop_nth_def list_all_iff)

text \<open>
  "Load more" and the other requests of the table do not go together. A page requested before the filters
  changed is appended to the rows of the new filters; and the next poll, at most two seconds later,
  throws away the pages that "load more" has added.
\<close>

lemma load_more_anomalies:
  "tb_rows (ts_table (table_run
     [Poll_done 0 (Inr ([''a1''], Some ''c'')), More_clicked, Filters_are (demo_filters ''b''),
      Poll_done 0 (Inr ([''b1''], None)), More_done 0 (Inr ([''a2''], None))] (table_mount (demo_filters ''a'')))) =
     [''b1'', ''a2''] \<and>
   tb_rows (ts_table (table_run
     [Poll_done 0 (Inr ([''a1''], Some ''c'')), More_clicked, More_done 0 (Inr ([''a2''], None)),
      Poll_due, Poll_done 0 (Inr ([''a1''], Some ''c''))] (table_mount (demo_filters ''a'')))) = [''a1'']"
  by code_simp

end
