(* ===== verification/Dashboard_Dlq.thy ===== *)
theory Dashboard_Dlq
  imports Dashboard_Table
begin

text \<open>
  The DLQ tab, \<open>src/dashboard/src/components/DlqView.tsx\<close>: polling, "load more", the retry button and its
  toast; and the way of a retry from the button to the route of \<open>src/src/api/routes/dlq.ts\<close>. How Fastify
  reads a request body is an argument.
\<close>

subsection \<open>The view\<close>

record 'r dlq_view =
  dv_rows :: "'r list"
  dv_nextCursor :: "string option"
  dv_loadingMore :: bool
  dv_toast :: "string option"
  dv_retrying :: "string set"
  dv_error :: "string option"

definition dlq_view_init :: "'r dlq_view" where
  "dlq_view_init = \<lparr>dv_rows = [], dv_nextCursor = None, dv_loadingMore = False, dv_toast = None, dv_retrying = {}, dv_error = None\<rparr>"

definition fetchPage :: "string option \<Rightarrow> http_request" where
  "fetchPage cursor = apiGet ''/dlq'' ([(''limit'', ''50'')] @ (if truthy cursor then [(''cursor'', the cursor)] else []))"

text \<open>The polled function sets rows and cursor itself; \<open>usePoll\<close> keeps the error.\<close>

definition dlq_poll_ok :: "'r page \<Rightarrow> 'r dlq_view \<Rightarrow> 'r dlq_view" where
  "dlq_poll_ok p v = v\<lparr>dv_rows := fst p, dv_nextCursor := snd p, dv_error := None\<rparr>"

definition dlq_poll_failed :: "api_error \<Rightarrow> 'r dlq_view \<Rightarrow> 'r dlq_view" where
  "dlq_poll_failed e v = v\<lparr>dv_error := Some (ae_message e)\<rparr>"

definition dlq_load_more :: "'r dlq_view \<Rightarrow> 'r dlq_view \<times> string option" where
  "dlq_load_more v =
     (if \<not> truthy (dv_nextCursor v) \<or> dv_loadingMore v then (v, None)
      else (v\<lparr>dv_loadingMore := True\<rparr>, dv_nextCursor v))"

definition dlq_more_ok :: "'r page \<Rightarrow> 'r dlq_view \<Rightarrow> 'r dlq_view" where
  "dlq_more_ok p v = v\<lparr>dv_rows := dv_rows v @ fst p, dv_nextCursor := snd p, dv_loadingMore := False\<rparr>"

text \<open>There is no \<open>catch\<close>: the error is shown nowhere.\<close>

definition dlq_more_failed :: "api_error \<Rightarrow> 'r dlq_view \<Rightarrow> 'r dlq_view" where
  "dlq_more_failed e v = v\<lparr>dv_loadingMore := False\<rparr>"

interpretation dlq_list: load_more_view dv_rows dv_nextCursor dv_loadingMore dlq_load_more dlq_more_ok dlq_more_failed
  dlq_poll_ok dlq_poll_failed
  by unfold_locales
    (auto simp: dlq_load_more_def dlq_more_ok_def dlq_more_failed_def dlq_poll_ok_def dlq_poll_failed_def)

subsection \<open>\<open>retry\<close>\<close>

definition retry_request :: "string \<Rightarrow> http_request" where
  "retry_request i = apiPost (''/dlq/'' @ i @ ''/retry'')"

definition current_status :: "json option \<Rightarrow> string" where
  "current_status dts = (case Option.bind dts (member ''current_status'') of Some (JStr st) \<Rightarrow> st | _ \<Rightarrow> ''?'')"

definition retry_message :: "api_error \<Rightarrow> string" where
  "retry_message e =
     (if ae_code e = Some (JStr ''NOT_IN_DLQ'')
      then ''Not in DLQ '' @ em_dash @ '' current status: '' @ current_status (ae_details e)
      else ae_message e)"

definition retry_start :: "string \<Rightarrow> 'r dlq_view \<Rightarrow> 'r dlq_view" where
  "retry_start i v = v\<lparr>dv_retrying := insert i (dv_retrying v)\<rparr>"

definition retry_settled :: "('r \<Rightarrow> string) \<Rightarrow> string \<Rightarrow> api_error + json \<Rightarrow> 'r dlq_view \<Rightarrow> 'r dlq_view" where
  "retry_settled id_of i res v = (case res of
     Inr _ \<Rightarrow> v\<lparr>dv_rows := filter (\<lambda>r. id_of r \<noteq> i) (dv_rows v), dv_retrying := dv_retrying v - {i}\<rparr>
   | Inl e \<Rightarrow> v\<lparr>dv_toast := Some (retry_message e), dv_retrying := dv_retrying v - {i}\<rparr>)"

subsection \<open>Retries and toast timers\<close>

text \<open>The view with the retries under way and the times its \<open>setTimeout\<close> calls are due.\<close>

record 'r dlq_sys =
  ds_view :: "'r dlq_view"
  ds_retries :: "string list"
  ds_timers :: "ms list"

datatype 'r dlq_event =
    Retry_clicked string
  | Retry_done string "api_error + json" ms
  | Time_is ms
  | Polled "api_error + 'r page"

text \<open>The button of a row is disabled while its id is in \<open>retrying\<close>.\<close>

primrec dlq_step :: "('r \<Rightarrow> string) \<Rightarrow> 'r dlq_event \<Rightarrow> 'r dlq_sys \<Rightarrow> 'r dlq_sys" where
  "dlq_step id_of (Retry_clicked i) s =
     (if i \<in> dv_retrying (ds_view s) \<or> i \<notin> id_of ` set (dv_rows (ds_view s)) then s
      else s\<lparr>ds_view := retry_start i (ds_view s), ds_retries := ds_retries s @ [i]\<rparr>)"
| "dlq_step id_of (Retry_done i res now) s =
     (if i \<notin> set (ds_retries s) then s
      else s\<lparr>ds_view := retry_settled id_of i res (ds_view s), ds_retries := remove1 i (ds_retries s),
             ds_timers := (case res of Inl _ \<Rightarrow> ds_timers s @ [now + 4000] | Inr _ \<Rightarrow> ds_timers s)\<rparr>)"
| "dlq_step id_of (Time_is now) s =
     (if \<exists>t \<in> set (ds_timers s). t \<le> now
      then s\<lparr>ds_view := (ds_view s)\<lparr>dv_toast := None\<rparr>, ds_timers := filter (\<lambda>t. now < t) (ds_timers s)\<rparr>
      else s)"
| "dlq_step id_of (Polled res) s = s\<lparr>ds_view := (case res of
     Inr p \<Rightarrow> dlq_poll_ok p (ds_view s) | Inl e \<Rightarrow> dlq_poll_failed e (ds_view s))\<rparr>"

definition dlq_run :: "('r \<Rightarrow> string) \<Rightarrow> 'r dlq_event list \<Rightarrow> 'r dlq_sys" where
  "dlq_run id_of es = fold (dlq_step id_of) es \<lparr>ds_view = dlq_view_init, ds_retries = [], ds_timers = []\<rparr>"

definition retries_inv :: "'r dlq_sys \<Rightarrow> bool" where
  "retries_inv s \<longleftrightarrow> distinct (ds_retries s) \<and> dv_retrying (ds_view s) = set (ds_retries s)"

lemma retries_inv_step: "retries_inv s \<Longrightarrow> retries_inv (dlq_step id_of e s)"
  by (cases e)
    (auto simp: retries_inv_def retry_start_def retry_settled_def dlq_poll_ok_def dlq_poll_failed_def split: sum.splits)

lemma retries_inv_fold: "retries_inv s \<Longrightarrow> retries_inv (fold (dlq_step id_of) es s)"
  by (induction es arbitrary: s) (simp_all add: retries_inv_step)

lemma retries_inv_run: "retries_inv (dlq_run id_of es)"
  unfolding dlq_run_def by (rule retries_inv_fold) (simp add: retries_inv_def dlq_view_init_def)

subsection \<open>From the button to the route\<close>

text \<open>Fastify parses the body of a POST before the handler runs; an error there goes to the error handler.\<close>

definition content_type :: "http_request \<Rightarrow> string option" where
  "content_type r = map_of (hr_headers r) ''Content-Type''"

definition post_route ::
  "(string option \<Rightarrow> string \<Rightarrow> exn + json option) \<Rightarrow> http_request \<Rightarrow> ('q \<Rightarrow> db \<Rightarrow> (exn + reply) \<times> 'q \<times> db) \<Rightarrow>
   'q \<Rightarrow> db \<Rightarrow> reply \<times> 'q \<times> db" where
  "post_route parse_body req handler q s =
     (case parse_body (content_type req) (case hr_body req of None \<Rightarrow> [] | Some b \<Rightarrow> b) of
        Inl e \<Rightarrow> (errorHandler e, q, s)
      | Inr _ \<Rightarrow> (case handler q s of (res, q', s') \<Rightarrow> (respond res, q', s')))"

text \<open>The documented \<open>FST_ERR_CTP_EMPTY_JSON_BODY\<close>: a JSON content type needs a body.\<close>

definition rejects_empty_json :: "(string option \<Rightarrow> string \<Rightarrow> exn + json option) \<Rightarrow> bool" where
  "rejects_empty_json parse_body \<longleftrightarrow>
     parse_body (Some ''application/json'') [] = Inl (ErrorExn ''FST_ERR_CTP_EMPTY_JSON_BODY'')"

definition fastify_demo :: "string option \<Rightarrow> string \<Rightarrow> exn + json option" where
  "fastify_demo ct b = (case ct of
     None \<Rightarrow> Inr None
   | Some _ \<Rightarrow> if b = [] then Inl (ErrorExn ''FST_ERR_CTP_EMPTY_JSON_BODY'')
       else case json_parse b of None \<Rightarrow> Inl (ErrorExn ''SyntaxError'') | Some j \<Rightarrow> Inr (Some j))"

text \<open>The retry of the dashboard: send the request, settle the view with what comes back.\<close>

definition dashboard_retry ::
  "(string option \<Rightarrow> string \<Rightarrow> exn + json option) \<Rightarrow> (json \<Rightarrow> string) \<Rightarrow> string \<Rightarrow>
   (string \<Rightarrow> 'q \<Rightarrow> db \<Rightarrow> (exn + reply) \<times> 'q \<times> db) \<Rightarrow> ('r \<Rightarrow> string) \<Rightarrow> string \<Rightarrow> 'r dlq_view \<Rightarrow> 'q \<Rightarrow> db \<Rightarrow>
   'r dlq_view \<times> 'q \<times> db" where
  "dashboard_retry parse_body to_string stText route id_of i v q s =
     (case post_route parse_body (retry_request i) (route i) q s of
        (r, q', s') \<Rightarrow>
          (retry_settled id_of i (apiFetch to_string (fetched_reply stText r)) (retry_start i v), q', s'))"

lemma content_type_retry: "content_type (retry_request i) = Some ''application/json''" "hr_body (retry_request i) = None"
  by (simp_all add: content_type_def retry_request_def apiPost_def)

lemma apiFetch_internal_error:
  "apiFetch to_string (fetched_reply stText (errorHandler (ErrorExn m))) =
     Inl \<lparr>ae_message = ''An unexpected error occurred'', ae_status = Some 500,
          ae_code = Some (JStr ''INTERNAL_ERROR''), ae_details = Some (JObj [])\<rparr>"
  by (simp add: apiFetch_def fetched_reply_def errorHandler_def error_envelope_def Let_def member_def obj_get_def
      message_or_def)

lemma apiFetch_not_in_dlq:
  "apiFetch to_string (fetched_reply stText (errorHandler (AppExn (notInDlq st)))) =
     Inl \<lparr>ae_message = ''Delivery is not in DLQ (current status: '' @ st @ '')'', ae_status = Some 409,
          ae_code = Some (JStr ''NOT_IN_DLQ''), ae_details = Some (JObj [(''current_status'', JStr st)])\<rparr>"
  by (simp add: apiFetch_def fetched_reply_def errorHandler_def error_envelope_def Let_def member_def obj_get_def
      message_or_def notInDlq_def AppErrorD_def)

subsection \<open>Properties\<close>

text \<open>
  C40: the retry button of the dashboard cannot work. Its request has a JSON content type and no body, Fastify
  refuses it before the route runs, the error handler turns that into a 500, and so whatever the delivery,
  the queue and the database are, nothing is retried, the row stays and the toast says "An unexpected
  error occurred".
\<close>

theorem dashboard_retry_refused:
  assumes "rejects_empty_json parse_body"
  shows "dashboard_retry parse_body to_string stText (\<lambda>i q s. dlq_retry Q cfg pg fate now i q s) id_of i v q s =
    (v\<lparr>dv_toast := Some ''An unexpected error occurred'', dv_retrying := dv_retrying v - {i}\<rparr>, q, s)"
  using assms apiFetch_internal_error [of to_string stText "''FST_ERR_CTP_EMPTY_JSON_BODY''"]
  by (simp add: dashboard_retry_def post_route_def content_type_retry rejects_empty_json_def retry_settled_def retry_start_def
      retry_message_def)

theorem dashboard_retry_refused_witness:
  "\<forall>Q cfg pg fate now q. dashboard_retry fastify_demo (\<lambda>_. []) ''Error'' (\<lambda>i q s. dlq_retry Q cfg pg fate now i q s) id ''d1''
     (dlq_poll_ok ([''d1''], None) dlq_view_init) q (demo_pages 2000 3000) =
     ((dlq_poll_ok ([''d1''], None) dlq_view_init)\<lparr>dv_toast := Some ''An unexpected error occurred''\<rparr>, q, demo_pages 2000 3000)"
proof -
  have "rejects_empty_json fastify_demo" by (simp add: rejects_empty_json_def fastify_demo_def)
  note refused = dashboard_retry_refused [OF this]
  show ?thesis by (simp add: refused) (simp add: dlq_view_init_def dlq_poll_ok_def)
qed

text \<open>
  The DLQ view has at most one retry under way per delivery: the ids shown as retrying are exactly
  those with a request outstanding, over any sequence of clicks, answers, polls and timers; but a toast
  does not stay its four seconds: the timer of an earlier toast takes down a later one.
\<close>

lemma dlq_retries_tracked:
  "distinct (ds_retries (dlq_run id_of es)) \<and> dv_retrying (ds_view (dlq_run id_of es)) = set (ds_retries (dlq_run id_of es)) \<and>
   (let s = dlq_run id [Polled (Inr ([''a'', ''b''], None)), Retry_clicked ''a'', Retry_clicked ''b'',
        Retry_done ''a'' (Inl (plain_error ''x'')) 0, Retry_done ''b'' (Inl (plain_error ''y'')) 3900, Time_is 4000]
    in dv_toast (ds_view s) = None \<and> ds_timers s = [7900])"
proof -
  have "let s = dlq_run id [Polled (Inr ([''a'', ''b''], None)), Retry_clicked ''a'', Retry_clicked ''b'',
        Retry_done ''a'' (Inl (plain_error ''x'')) 0, Retry_done ''b'' (Inl (plain_error ''y'')) 3900, Time_is 4000]
    in dv_toast (ds_view s) = None \<and> ds_timers s = [7900]"
    by (simp add: dlq_run_def dlq_view_init_def dlq_poll_ok_def retry_start_def retry_settled_def)
  then show ?thesis using retries_inv_run [of id_of es] by (simp add: retries_inv_def)
qed

end
