(* ===== verification/Dashboard_App.thy ===== *)
theory Dashboard_App
  imports Dashboard_Dlq
begin

text \<open>
  The frame of the dashboard: \<open>src/dashboard/src/App.tsx\<close> with the tabs, the filters and the selected
  delivery, the detail panel it mounts (\<open>components/DetailPanel.tsx\<close>) and the status tiles
  (\<open>components/StatusTiles.tsx\<close>). React keeps a panel as long as its \<open>key\<close>, the selected id, is the same;
  what a request of an unmounted panel brings is dropped.
\<close>

subsection \<open>The detail panel\<close>

record panel =
  pn_deliveryId :: string
  pn_detail :: "json option"
  pn_error :: "string option"

definition panel_mount :: "string \<Rightarrow> panel" where
  "panel_mount i = \<lparr>pn_deliveryId = i, pn_detail = None, pn_error = None\<rparr>"

definition detail_request :: "string \<Rightarrow> http_request" where
  "detail_request i = apiGet (''/deliveries/'' @ i) []"

definition panel_settled :: "api_error + json \<Rightarrow> panel \<Rightarrow> panel" where
  "panel_settled res p = (case res of
     Inr d \<Rightarrow> p\<lparr>pn_detail := Some d\<rparr>
   | Inl e \<Rightarrow> p\<lparr>pn_error := Some (ae_message e)\<rparr>)"

text \<open>\<open>ts\<close>: \<open>None\<close> when \<open>toISOString\<close> throws.\<close>

fun replace_T :: "string \<Rightarrow> string" where
  "replace_T [] = []"
| "replace_T (c # cs) = (if c = CHR ''T'' then CHR '' '' # cs else c # replace_T cs)"

definition ts_text :: "nat \<Rightarrow> (string \<Rightarrow> ms option) \<Rightarrow> string \<Rightarrow> string option" where
  "ts_text n other txt = map_option (\<lambda>t. take n (replace_T (toISOString t))) (js_date other txt)"

text \<open>
  \<open>s.length\<close> and \<open>s.slice(0, n)\<close> count UTF-16 units: two for a character of four bytes, none for a
  continuation byte. Half a pair is displayed as U+FFFD.
\<close>

definition utf16_length :: "string \<Rightarrow> nat" where
  "utf16_length s = sum_list (map (\<lambda>c. let b = (of_char c :: nat) in
     if 0x80 \<le> b \<and> b < 0xC0 then 0 else if 0xF0 \<le> b then 2 else 1) s)"

fun utf16_take :: "nat \<Rightarrow> string \<Rightarrow> string" where
  "utf16_take n [] = []"
| "utf16_take n (c # cs) =
     (if 0x80 \<le> (of_char c :: nat) \<and> (of_char c :: nat) < 0xC0 then c # utf16_take n cs
      else if n = 0 then []
      else if 0xF0 \<le> (of_char c :: nat) then (if n = 1 then replacement else c # utf16_take (n - 2) cs)
      else c # utf16_take (n - 1) cs)"

definition truncate :: "string option \<Rightarrow> nat \<Rightarrow> string" where
  "truncate s n =
     (if \<not> truthy s then em_dash
      else if n < utf16_length (the s) then utf16_take n (the s) @ [CHR 0xE2, CHR 0x80, CHR 0xA6] else the s)"

text \<open>\<open>v ?? dflt\<close> on a member that is a string, a number or null.\<close>

definition text_or :: "string \<Rightarrow> string \<Rightarrow> json \<Rightarrow> string" where
  "text_or dflt k j = (case member k j of Some (JStr t) \<Rightarrow> t | Some (JNum n) \<Rightarrow> n | _ \<Rightarrow> dflt)"

definition str_member :: "string \<Rightarrow> json \<Rightarrow> string option" where
  "str_member k j = (case member k j of Some (JStr t) \<Rightarrow> Some t | _ \<Rightarrow> None)"

text \<open>A line of the attempt timeline, with the \<open>title\<close> of its last cell; a date that cannot be read throws.\<close>

definition attempt_cells :: "(string \<Rightarrow> ms option) \<Rightarrow> json \<Rightarrow> (string list \<times> string) option" where
  "attempt_cells other a =
     (let body = (case str_member ''response_body'' a of None \<Rightarrow> str_member ''error_message'' a | Some b \<Rightarrow> Some b)
      in map_option (\<lambda>started.
           ([text_member ''attempt_number'' a, text_member ''outcome'' a, text_or em_dash ''http_status'' a,
             text_member ''latency_ms'' a, started, truncate body 40],
            case body of None \<Rightarrow> [] | Some b \<Rightarrow> b))
         (ts_text 22 other (text_member ''started_at'' a)))"

definition transition_cells :: "(string \<Rightarrow> ms option) \<Rightarrow> json \<Rightarrow> string list option" where
  "transition_cells other t = map_option (\<lambda>created.
     [text_or ''null'' ''from_status'' t, text_member ''to_status'' t, text_member ''actor'' t, text_or em_dash ''reason'' t, created])
     (ts_text 22 other (text_member ''created_at'' t))"

text \<open>The names and values of the first section.\<close>

definition detail_fields :: "(string \<Rightarrow> ms option) \<Rightarrow> json \<Rightarrow> (string \<times> string option) list" where
  "detail_fields other d =
     [(''id'', Some (text_member ''id'' d)), (''status'', Some (text_member ''status'' d)),
      (''attempts'', Some (text_member ''attempt_count'' d)),
      (''event_type'', map_option (text_member ''event_type'') (member ''event'' d)),
      (''endpoint'', map_option (text_member ''url'') (member ''endpoint'' d))] @
     (if truthy (str_member ''next_attempt_at'' d)
      then [(''next_attempt'', ts_text 22 other (text_member ''next_attempt_at'' d))] else [])"

text \<open>\<open>JSON.stringify(v, null, 2)\<close>, the value at the given depth of indentation.\<close>

definition newline :: "nat \<Rightarrow> string" where
  "newline depth = CHR 0x0A # replicate (2 * depth) (CHR '' '')"

fun join_lines :: "nat \<Rightarrow> string list \<Rightarrow> string" where
  "join_lines depth [] = []"
| "join_lines depth [x] = newline depth @ x"
| "join_lines depth (x # y # xs) = newline depth @ x @ '','' @ join_lines depth (y # xs)"

fun json_pretty :: "nat \<Rightarrow> json \<Rightarrow> string" where
  "json_pretty depth (JArr xs) =
     (if xs = [] then ''[]''
      else ''['' @ join_lines (Suc depth) (map (json_pretty (Suc depth)) xs) @ newline depth @ '']'')"
| "json_pretty depth (JObj kvs) =
     (if kvs = [] then ''{}''
      else ''{'' @ join_lines (Suc depth) (map (\<lambda>(k, v). json_quote k @ '': '' @ json_pretty (Suc depth) v) kvs) @
        newline depth @ ''}'')"
| "json_pretty depth v = json_stringify v"

text \<open>What the panel shows of a detail.\<close>

record panel_view =
  pv_fields :: "(string \<times> string option) list"
  pv_attempts :: "(string list \<times> string) option list"
  pv_transitions :: "string list option list"
  pv_payload :: string

fun elements :: "json option \<Rightarrow> json list" where
  "elements (Some (JArr xs)) = xs"
| "elements _ = []"

definition render_detail :: "(string \<Rightarrow> ms option) \<Rightarrow> json \<Rightarrow> panel_view" where
  "render_detail other d =
     \<lparr>pv_fields = detail_fields other d,
      pv_attempts = map (attempt_cells other) (elements (member ''attempts'' d)),
      pv_transitions = map (transition_cells other) (elements (member ''transitions'' d)),
      pv_payload = (case Option.bind (member ''event'' d) (member ''payload'') of None \<Rightarrow> [] | Some j \<Rightarrow> json_pretty 0 j)\<rparr>"

text \<open>A row of the DLQ view.\<close>

definition dlq_row_cells :: "(string \<Rightarrow> ms option) \<Rightarrow> string set \<Rightarrow> json \<Rightarrow> string option list" where
  "dlq_row_cells other retrying row =
     [Some (shortId (text_member ''id'' row)), Some (text_member ''event_type'' row), Some (text_member ''attempt_count'' row),
      ts_text 19 other (text_member ''dlq_entered_at'' row), ts_text 19 other (text_member ''updated_at'' row),
      Some (if text_member ''id'' row \<in> retrying then [CHR 0xE2, CHR 0x80, CHR 0xA6] else ''retry'')]"

text \<open>Every time the API sends is readable, so the panel renders the history of a delivery line by line.\<close>

lemma ts_text_json_date:
  "four_digit_year (date_of_ts t) \<Longrightarrow> ts_text n other (toISOString (date_of_ts t)) = Some (take n (replace_T (toISOString (date_of_ts t))))"
  by (simp add: ts_text_def)

lemma render_detail_transitions:
  assumes "\<forall>t \<in> set (dt_transitions dt). four_digit_year (date_of_ts (t_created_at t))"
  shows "list_all2 (\<lambda>cells t. \<exists>fr reason created. cells = Some [fr, status_name (t_to_status t), actor_name (t_actor t), reason, created])
    (pv_transitions (render_detail other (json_of_detail dt))) (dt_transitions dt)"
proof -
  have "elements (member ''transitions'' (json_of_detail dt)) = map json_of_transition (dt_transitions dt)"
    by (simp add: json_of_detail_def member_def obj_get_def Let_def)
  moreover have "\<exists>fr reason created. transition_cells other (json_of_transition t) =
      Some [fr, status_name (t_to_status t), actor_name (t_actor t), reason, created]" if "t \<in> set (dt_transitions dt)" for t
    using assms that
    by (simp add: transition_cells_def json_of_transition_def text_member_def member_def obj_get_def json_date_def ts_text_json_date)
  ultimately show ?thesis by (simp add: render_detail_def list_all2_map1 list.rel_refl_strong)
qed

subsection \<open>\<open>App\<close>\<close>

datatype tab = Deliveries_tab | Dlq_tab

record app =
  ap_tab :: tab
  ap_filters :: filters
  ap_selectedId :: "string option"

definition app_init :: app where
  "app_init = \<lparr>ap_tab = Deliveries_tab, ap_filters = EMPTY_FILTERS, ap_selectedId = None\<rparr>"

datatype app_event =
    Tab_clicked tab
  | Filters_changed filters
  | Row_clicked string
  | Panel_closed
  | Detail_done nat "api_error + json"

definition app_update :: "app_event \<Rightarrow> app \<Rightarrow> app" where
  "app_update e a = (case e of
     Tab_clicked t \<Rightarrow> a\<lparr>ap_tab := t\<rparr>
   | Filters_changed f \<Rightarrow> a\<lparr>ap_filters := f, ap_selectedId := None\<rparr>
   | Row_clicked i \<Rightarrow> a\<lparr>ap_selectedId := Some i\<rparr>
   | Panel_closed \<Rightarrow> a\<lparr>ap_selectedId := None\<rparr>
   | Detail_done _ _ \<Rightarrow> a)"

text \<open>The panel that is rendered.\<close>

definition panel_key :: "app \<Rightarrow> string option" where
  "panel_key a = (if ap_tab a = Deliveries_tab \<and> truthy (ap_selectedId a) then ap_selectedId a else None)"

record app_sys =
  as_app :: app
  as_panel :: "panel option"
  as_instance :: nat
  as_requests :: "(nat \<times> string) list"

text \<open>Rendering: the panel stays, goes, or is mounted anew and sends its request.\<close>

definition render_panel :: "app_sys \<Rightarrow> app_sys" where
  "render_panel s = (case panel_key (as_app s) of
     None \<Rightarrow> s\<lparr>as_panel := None\<rparr>
   | Some i \<Rightarrow>
       if map_option pn_deliveryId (as_panel s) = Some i then s
       else s\<lparr>as_panel := Some (panel_mount i), as_instance := Suc (as_instance s),
              as_requests := as_requests s @ [(Suc (as_instance s), i)]\<rparr>)"

definition detail_arrives :: "nat \<Rightarrow> api_error + json \<Rightarrow> app_sys \<Rightarrow> app_sys" where
  "detail_arrives k res s =
     (if k < length (as_requests s) then
        let s' = s\<lparr>as_requests := drop_nth k (as_requests s)\<rparr> in
        (if fst (as_requests s ! k) = as_instance s
         then s'\<lparr>as_panel := map_option (panel_settled res) (as_panel s)\<rparr> else s')
      else s)"

definition app_step :: "app_event \<Rightarrow> app_sys \<Rightarrow> app_sys" where
  "app_step e s = (case e of
     Detail_done k res \<Rightarrow> detail_arrives k res s
   | _ \<Rightarrow> render_panel (s\<lparr>as_app := app_update e (as_app s)\<rparr>))"

definition app_start :: app_sys where
  "app_start = \<lparr>as_app = app_init, as_panel = None, as_instance = 0, as_requests = []\<rparr>"

text \<open>Each detail that arrives is one of the delivery its request names.\<close>

fun detail_answers :: "(string \<Rightarrow> json \<Rightarrow> bool) \<Rightarrow> app_event list \<Rightarrow> app_sys \<Rightarrow> bool" where
  "detail_answers about [] s = True"
| "detail_answers about (e # es) s =
     ((case e of Detail_done k (Inr d) \<Rightarrow> k < length (as_requests s) \<longrightarrow> about (snd (as_requests s ! k)) d | _ \<Rightarrow> True) \<and>
      detail_answers about es (app_step e s))"

definition app_inv :: "(string \<Rightarrow> json \<Rightarrow> bool) \<Rightarrow> app_sys \<Rightarrow> bool" where
  "app_inv about s \<longleftrightarrow>
     map_option pn_deliveryId (as_panel s) = panel_key (as_app s) \<and>
     (\<forall>x \<in> set (as_requests s). fst x \<le> as_instance s) \<and>
     (case as_panel s of None \<Rightarrow> True | Some p \<Rightarrow>
        (\<forall>x \<in> set (as_requests s). fst x = as_instance s \<longrightarrow> snd x = pn_deliveryId p) \<and>
        (case pn_detail p of None \<Rightarrow> True | Some d \<Rightarrow> about (pn_deliveryId p) d))"

lemma app_inv_render:
  assumes "app_inv about s"
  shows "app_inv about (render_panel (s\<lparr>as_app := a\<rparr>))"
  using assms by (fastforce simp: app_inv_def render_panel_def panel_mount_def split: option.splits)

lemma app_inv_detail:
  assumes inv: "app_inv about s" and ok: "\<And>d. res = Inr d \<Longrightarrow> k < length (as_requests s) \<Longrightarrow> about (snd (as_requests s ! k)) d"
  shows "app_inv about (detail_arrives k res s)"
proof (cases "k < length (as_requests s)")
  case True
  let ?rs = "drop_nth k (as_requests s)"
  have rs: "x \<in> set ?rs \<Longrightarrow> x \<in> set (as_requests s)" for x by (rule in_drop_nth)
  show ?thesis
  proof (cases "as_panel s")
    case None
    then show ?thesis using inv True rs by (simp add: app_inv_def detail_arrives_def Let_def)
  next
    case (Some p)
    have req: "as_requests s ! k \<in> set (as_requests s)" using True by simp
    show ?thesis
    proof (cases "fst (as_requests s ! k) = as_instance s")
      case cur: True
      then have "snd (as_requests s ! k) = pn_deliveryId p" using inv Some req by (simp add: app_inv_def)
      then have "about (pn_deliveryId p) d" if "res = Inr d" for d using ok [OF that True] by simp
      then show ?thesis
        using inv True cur rs Some by (cases res) (auto simp: app_inv_def detail_arrives_def Let_def panel_settled_def split: option.splits)
    next
      case False
      then show ?thesis using inv True rs Some by (simp add: app_inv_def detail_arrives_def Let_def)
    qed
  qed
qed (use inv in \<open>simp add: detail_arrives_def\<close>)

lemma app_inv_fold:
  assumes "app_inv about s" and "detail_answers about es s"
  shows "app_inv about (fold app_step es s)"
  using assms
proof (induction es arbitrary: s)
  case (Cons e es)
  have "app_inv about (app_step e s)"
  proof (cases e)
    case (Detail_done k res)
    then show ?thesis using Cons.prems app_inv_detail [of about s res k] by (cases res) (simp_all add: app_step_def)
  qed (use Cons.prems(1) in \<open>simp_all add: app_step_def app_inv_render\<close>)
  then show ?case using Cons by simp
qed simp

subsection \<open>The status tiles\<close>

definition STATUSES :: "string list" where
  "STATUSES = [''PENDING'', ''DELIVERING'', ''DELIVERED'', ''FAILED'', ''DLQ'']"

text \<open>\<open>toFixed(1)\<close> of a number picks the larger of two equally near decimals.\<close>

definition toFixed1 :: "numeric \<Rightarrow> string" where
  "toFixed1 v = (case v of
     Finite x \<Rightarrow> let m = \<lfloor>10 * x + 1 / 2\<rfloor> in string_of_int (m div 10) @ ''.'' @ string_of_int (m mod 10)
   | Infinite \<Rightarrow> ''Infinity''
   | NaN \<Rightarrow> ''NaN'')"

definition fmt :: "int \<Rightarrow> string" where
  "fmt n =
     (if 1000000 \<le> n then toFixed1 (to_double (of_int n / 1000000)) @ ''M''
      else if 1000 \<le> n then toFixed1 (to_double (of_int n / 1000)) @ ''k''
      else string_of_int n)"

text \<open>\<open>counts[s] ?? 0\<close> of \<open>stats?.deliveries ?? {}\<close>, the texts of the five tiles and of the queue lines.\<close>

definition count_text :: "json option \<Rightarrow> string \<Rightarrow> string" where
  "count_text counts k = (case Option.bind counts (member k) of Some (JNum n) \<Rightarrow> n | _ \<Rightarrow> ''0'')"

definition tiles :: "json option \<Rightarrow> (string \<times> string) list" where
  "tiles stats = map (\<lambda>s. (s, fmt (the (js_number (count_text (Option.bind stats (member ''deliveries'')) s))))) STATUSES"

definition queue_lines :: "json option \<Rightarrow> string list" where
  "queue_lines stats =
     (let queues = Option.bind stats (member ''queues'');
          delivery = Option.bind queues (member ''webhook-delivery'');
          dlqQueue = Option.bind queues (member ''webhook-dlq'')
      in [count_text delivery ''wait'', count_text delivery ''active'', count_text delivery ''delayed'', count_text dlqQueue ''wait''])"

definition shows_backpressure :: "json option \<Rightarrow> bool" where
  "shows_backpressure stats \<longleftrightarrow> Option.bind stats (member ''backpressure_active'') = Some (JBool True)"

lemma tiles_counts:
  assumes "sr_deliveries r = st_counts (getDbStats now s)"
  shows "tiles (Some (json_of_stats print r)) =
    map (\<lambda>st. (status_name st, fmt (status_count s st))) [PENDING, DELIVERING, DELIVERED, FAILED, DLQ]"
  using assms
  by (simp add: tiles_def STATUSES_def count_text_def json_of_stats_def member_def obj_get_def getDbStats_def)

lemma backpressure_shown: "shows_backpressure (Some (json_of_stats print r)) \<longleftrightarrow> sr_backpressure_active r"
  by (simp add: shows_backpressure_def json_of_stats_def member_def obj_get_def)

subsection \<open>Properties\<close>

text \<open>
  C30: the detail panel never shows another delivery than the selected one, in whatever order the answers to
  its requests arrive and however the user selects, closes and switches tabs meanwhile; and it is there
  exactly when a delivery is selected on the deliveries tab.
\<close>

theorem panel_shows_selected:
  assumes "detail_answers about es app_start"
  shows "(let s = fold app_step es app_start in
     map_option pn_deliveryId (as_panel s) = panel_key (as_app s) \<and>
     (case as_panel s of None \<Rightarrow> True | Some p \<Rightarrow>
        (case pn_detail p of None \<Rightarrow> True | Some d \<Rightarrow> about (pn_deliveryId p) d)))"
proof -
  have "app_inv about app_start" by (simp add: app_inv_def app_start_def app_init_def panel_key_def truthy_def)
  from app_inv_fold [OF this assms] show ?thesis by (auto simp: app_inv_def Let_def split: option.splits)
qed

theorem panel_shows_selected_witness:
  "map_option pn_detail (as_panel (fold app_step
     [Row_clicked ''d1'', Row_clicked ''d2'', Detail_done 0 (Inr (JStr ''d1''))] app_start)) = Some None"
proof -
  have "detail_answers (\<lambda>i d. d = JStr i) [Row_clicked ''d1'', Row_clicked ''d2'', Detail_done 0 (Inr (JStr ''d1''))] app_start"
    by (simp add: app_step_def app_update_def render_panel_def app_start_def app_init_def panel_key_def truthy_def panel_mount_def)
  from panel_shows_selected [OF this] show ?thesis
    by (auto simp: Let_def app_step_def app_update_def render_panel_def app_start_def app_init_def panel_key_def truthy_def
        panel_mount_def detail_arrives_def split: option.splits)
qed

end
