(* ===== verification/Dashboard_Live.thy ===== *)
theory Dashboard_Live
  imports Api_App Dashboard_App
begin

text \<open>
  The dashboard on the running API: the proxy of \<open>src/dashboard/vite.config.ts\<close> between the requests of the
  components and the routes of \<open>Api_App\<close>; the effect of \<open>usePoll\<close> (\<open>src/dashboard/src/api.ts\<close>) with its
  timer and its listener; and what the status tiles, the endpoint drop-down and the DLQ tab show.
\<close>

subsection \<open>Through the proxy\<close>

text \<open>\<open>p.replace(/^\/api/, '')\<close>.\<close>

definition proxy_rewrite :: "string \<Rightarrow> string" where
  "proxy_rewrite p = (if take 4 p = ''/api'' then drop 4 p else p)"

text \<open>Header names reach the handlers in lower case.\<close>

definition lower :: "char \<Rightarrow> char" where
  "lower c = (if 65 \<le> (of_char c :: nat) \<and> (of_char c :: nat) \<le> 90 then char_of ((of_char c :: nat) + 32) else c)"

definition to_api :: "Dashboard_Api.http_request \<Rightarrow> api_request" where
  "to_api r = \<lparr>rq_method = hr_method r, rq_path = proxy_rewrite (hr_path r), rq_query = query_of (hr_params r),
     rq_headers = map_of (map (\<lambda>(k, v). (map lower k, v)) (hr_headers r)),
     rq_body = (case hr_body r of None \<Rightarrow> [] | Some b \<Rightarrow> b)\<rparr>"

text \<open>A request of the dashboard: what \<open>apiFetch\<close> makes of the API's answer, and the state after it.\<close>

definition fetch_api ::
  "'r redis_api \<Rightarrow> 'q queue_api \<Rightarrow> config \<Rightarrow> pg_readers \<Rightarrow> (json \<Rightarrow> string) \<Rightarrow> string \<Rightarrow> api_env \<Rightarrow>
   Dashboard_Api.http_request \<Rightarrow> ('r, 'q) api_state \<Rightarrow> (api_error + json) \<times> ('r, 'q) api_state" where
  "fetch_api R Q cfg pg to_string stText env r st =
     (case handle R Q cfg pg (env, to_api r) st of
        (None, st') \<Rightarrow> (apiFetch to_string (Fetch_failed ''Failed to fetch''), st')
      | (Some rep, st') \<Rightarrow> (apiFetch to_string (fetched_reply stText rep), st'))"

subsection \<open>The effect of \<open>usePoll\<close>\<close>

text \<open>
  \<open>po_sent\<close> are the times at which the polled function was called, \<open>po_due\<close> is when the interval fires next.
\<close>

record 'd poller =
  po_poll :: "'d poll"
  po_hidden :: bool
  po_mounted :: bool
  po_due :: ms
  po_sent :: "ms list"

datatype 'd poll_event =
    Interval ms
  | Turned_visible ms
  | Turned_hidden
  | Answered "api_error + 'd"
  | Unmounted

definition run_poll :: "ms \<Rightarrow> 'd poller \<Rightarrow> 'd poller" where
  "run_poll now s = (case poll_run (po_hidden s) now of None \<Rightarrow> s | Some t \<Rightarrow> s\<lparr>po_sent := po_sent s @ [t]\<rparr>)"

definition poll_mount :: "ms \<Rightarrow> bool \<Rightarrow> ms \<Rightarrow> 'd poller" where
  "poll_mount intervalMs hidden now =
     run_poll now \<lparr>po_poll = poll_init, po_hidden = hidden, po_mounted = True, po_due = now + intervalMs, po_sent = []\<rparr>"

primrec poll_step :: "ms \<Rightarrow> 'd poll_event \<Rightarrow> 'd poller \<Rightarrow> 'd poller" where
  "poll_step intervalMs (Interval now) s =
     (if po_mounted s \<and> po_due s \<le> now then run_poll now (s\<lparr>po_due := po_due s + intervalMs\<rparr>) else s)"
| "poll_step intervalMs (Turned_visible now) s =
     (let s' = s\<lparr>po_hidden := False\<rparr> in if po_mounted s then run_poll now s' else s')"
| "poll_step intervalMs Turned_hidden s = s\<lparr>po_hidden := True\<rparr>"
| "poll_step intervalMs (Answered res) s = (if po_mounted s then s\<lparr>po_poll := poll_settled res (po_poll s)\<rparr> else s)"
| "poll_step intervalMs Unmounted s = s\<lparr>po_mounted := False\<rparr>"

text \<open>A hidden tab sends nothing until it is visible again, an unmounted component never.\<close>

lemma poll_silent:
  assumes "po_hidden s \<and> (\<forall>t. Turned_visible t \<notin> set es) \<or> \<not> po_mounted s"
  shows "po_sent (fold (poll_step n) es s) = po_sent s"
  using assms
proof (induction es arbitrary: s)
  case (Cons e es)
  have "po_hidden (poll_step n e s) \<and> (\<forall>t. Turned_visible t \<notin> set es) \<or> \<not> po_mounted (poll_step n e s)"
    "po_sent (poll_step n e s) = po_sent s"
    using Cons.prems by (cases e; auto simp: run_poll_def poll_run_def Let_def)+
  then show ?case using Cons.IH [of "poll_step n e s"] by simp
qed simp

text \<open>What is shown is the answer that arrived last, not the answer to the request that was sent last.\<close>

lemma poll_shows_last_answer:
  assumes "po_mounted s" and "Unmounted \<notin> set es"
  shows "po_data (po_poll (fold (poll_step n) (es @ [Answered (Inr d)]) s)) = Some d"
proof -
  have "po_mounted (fold (poll_step n) es s)" using assms
  proof (induction es arbitrary: s)
    case (Cons e es)
    have "po_mounted (poll_step n e s)" using Cons.prems by (cases e) (auto simp: run_poll_def Let_def split: option.splits)
    then show ?case using Cons by simp
  qed simp
  then show ?thesis by (simp add: poll_settled_def)
qed

subsection \<open>The status tiles\<close>

text \<open>\<open>x.toFixed(1)\<close> of a number below \<open>10 ^ 21\<close>.\<close>

definition signed_toFixed1 :: "numeric \<Rightarrow> string" where
  "signed_toFixed1 v = (case v of Finite x \<Rightarrow> if x < 0 then ''-'' @ toFixed1 (Finite (- x)) else toFixed1 v | _ \<Rightarrow> toFixed1 v)"

datatype tiles_screen =
    Stats_error string
  | Stats_shown "(string \<times> string) list" "string list" "string option" bool

definition oldest_pending :: "json option \<Rightarrow> string option" where
  "oldest_pending stats = (case Option.bind stats (member ''oldest_pending_age_s'') of
     Some (JNum n) \<Rightarrow> Some (''oldest pending: '' @ signed_toFixed1 (toNumber n) @ ''s'')
   | _ \<Rightarrow> None)"

definition StatusTiles :: "json poll \<Rightarrow> tiles_screen" where
  "StatusTiles p =
     (if truthy (po_error p) then Stats_error (''stats error: '' @ the (po_error p))
      else Stats_shown (tiles (po_data p)) (queue_lines (po_data p)) (oldest_pending (po_data p)) (shows_backpressure (po_data p)))"

subsection \<open>The endpoint drop-down\<close>

definition endpoints_request :: Dashboard_Api.http_request where
  "endpoints_request = apiGet ''/endpoints'' []"

text \<open>A failed request leaves the list as it is.\<close>

definition endpoints_settled :: "api_error + json \<Rightarrow> json list \<Rightarrow> json list" where
  "endpoints_settled res eps = (case res of
     Inl _ \<Rightarrow> eps
   | Inr r \<Rightarrow> (case member ''data'' r of Some (JArr xs) \<Rightarrow> xs | _ \<Rightarrow> eps))"

text \<open>The options: value and text.\<close>

definition endpoint_options :: "json list \<Rightarrow> (string \<times> string) list" where
  "endpoint_options eps = ([], em_dash @ '' all endpoints '' @ em_dash) #
     map (\<lambda>ep. (text_or [] ''id'' ep, text_or [] ''url'' ep)) eps"

subsection \<open>The DLQ tab\<close>

record dlq_line =
  dl_cells :: "string option list"
  dl_disabled :: bool

record dlq_screen =
  dq_toast :: "string option"
  dq_error :: "string option"
  dq_lines :: "dlq_line list"
  dq_empty :: bool
  dq_more :: "(string \<times> bool) option"

text \<open>The cells, the last one with the text of the button, and whether the button is disabled.\<close>

definition dlq_line_of :: "(string \<Rightarrow> ms option) \<Rightarrow> string set \<Rightarrow> json \<Rightarrow> dlq_line" where
  "dlq_line_of other retrying row =
     \<lparr>dl_cells = dlq_row_cells other retrying row, dl_disabled = (text_member ''id'' row \<in> retrying)\<rparr>"

definition DlqView :: "(string \<Rightarrow> ms option) \<Rightarrow> json dlq_view \<Rightarrow> dlq_screen" where
  "DlqView other v =
     \<lparr>dq_toast = (if truthy (dv_toast v) then dv_toast v else None),
      dq_error = (if truthy (dv_error v) then map_option (\<lambda>e. ''error: '' @ e) (dv_error v) else None),
      dq_lines = map (dlq_line_of other (dv_retrying v)) (dv_rows v),
      dq_empty = (dv_rows v = []),
      dq_more = (if truthy (dv_nextCursor v)
        then Some (if dv_loadingMore v then ''loading'' @ [CHR 0xE2, CHR 0x80, CHR 0xA6] else ''load more'', dv_loadingMore v) else None)\<rparr>"

text \<open>
  In every run of the tab the button of a row is disabled exactly while a retry of it is under way.
\<close>

lemma retry_buttons:
  assumes "row \<in> set (dv_rows (ds_view (dlq_run id_of es)))"
  shows "dl_disabled (dlq_line_of other (dv_retrying (ds_view (dlq_run id_of es))) row) \<longleftrightarrow>
    text_member ''id'' row \<in> set (ds_retries (dlq_run id_of es))"
  using retries_inv_run [of id_of es] by (simp add: dlq_line_of_def retries_inv_def)

subsection \<open>The requests of the dashboard have routes\<close>

lemma split_on_slash_free: "CHR ''/'' \<notin> set i \<Longrightarrow> split_on (CHR ''/'') i = [i]"
  by (rule split_on_word)

lemma detail_path:
  assumes "CHR ''/'' \<notin> set i"
  shows "split_on (CHR ''/'') (''/v1/deliveries/'' @ i) = [[], ''v1'', ''deliveries'', i]"
  using split_on_slash_free [OF assms] by simp

lemma retry_path:
  assumes "CHR ''/'' \<notin> set i"
  shows "split_on (CHR ''/'') (''/v1/dlq/'' @ i @ ''/retry'') = [[], ''v1'', ''dlq'', i, ''retry'']"
  using split_on_sep [OF assms, of "''retry''"] by simp

lemma dashboard_requests_routed:
  assumes "CHR ''/'' \<notin> set i"
  shows "find_route (rq_method (to_api (apiGet ''/stats'' []))) (rq_path (to_api (apiGet ''/stats'' []))) = Some R_stats"
    and "find_route (rq_method (to_api (apiGet ''/deliveries'' ps))) (rq_path (to_api (apiGet ''/deliveries'' ps))) = Some R_deliveries"
    and "find_route (rq_method (to_api (fetchPage cur))) (rq_path (to_api (fetchPage cur))) = Some R_dlq"
    and "find_route (rq_method (to_api endpoints_request)) (rq_path (to_api endpoints_request)) = Some R_list_endpoints"
    and "find_route (rq_method (to_api (detail_request i))) (rq_path (to_api (detail_request i))) = Some (R_delivery i)"
    and "find_route (rq_method (to_api (retry_request i))) (rq_path (to_api (retry_request i))) = Some (R_retry i)"
  using detail_path [OF assms] retry_path [OF assms]
  by (simp_all add: to_api_def apiGet_def apiPost_def BASE_def proxy_rewrite_def find_route_def Let_def fetchPage_def
      endpoints_request_def detail_request_def retry_request_def)

lemma fetch_stats:
  assumes "get_stats cfg (ev_db_stats env) (ev_queue_counts env) = Inr r"
  shows "fetch_api R Q cfg pg to_string stText env (apiGet ''/stats'' []) st = (Inr (json_of_stats (ev_print env) r), st)"
  using assms dashboard_requests_routed(1) [of "[]"]
  by (simp add: fetch_api_def handle_def fetched_reply_def apiFetch_def json_reply_def)

text \<open>A count that \<open>getJobCounts\<close> did not report is shown as 0.\<close>

definition count_shown :: "(job_state \<Rightarrow> nat option) \<Rightarrow> job_state \<Rightarrow> string" where
  "count_shown counts st = (case counts st of None \<Rightarrow> ''0'' | Some n \<Rightarrow> string_of_nat n)"

lemma count_text_of_counts:
  "member k (json_of_counts names counts) = map_option JNum x \<Longrightarrow>
    count_text (Some (json_of_counts names counts)) k = (case x of None \<Rightarrow> ''0'' | Some n \<Rightarrow> n)"
  by (auto simp: count_text_def split: option.splits)

lemma delivery_queue_texts:
  fixes counts :: "job_state \<Rightarrow> nat option"
  defines "j \<equiv> json_of_counts [(''wait'', Waiting), (''active'', Active), (''delayed'', Delayed), (''failed'', Failed_job)] counts"
  shows "count_text (Some j) ''wait'' = count_shown counts Waiting"
    and "count_text (Some j) ''active'' = count_shown counts Active"
    and "count_text (Some j) ''delayed'' = count_shown counts Delayed"
  unfolding j_def
  by (cases "counts Waiting"; cases "counts Active"; cases "counts Delayed"; cases "counts Failed_job";
      simp add: json_of_counts_def List.map_filter_def count_text_def count_shown_def member_def obj_get_def)+

lemma dlq_queue_text:
  "count_text (Some (json_of_counts [(''wait'', Waiting), (''active'', Active)] counts)) ''wait'' = count_shown counts Waiting"
  by (cases "counts Waiting"; cases "counts Active";
      simp add: json_of_counts_def List.map_filter_def count_text_def count_shown_def member_def obj_get_def)

lemma queue_lines_counts:
  "queue_lines (Some (json_of_stats print r)) =
    [count_shown (sr_delivery_queue r) Waiting, count_shown (sr_delivery_queue r) Active,
     count_shown (sr_delivery_queue r) Delayed, count_shown (sr_dlq_queue r) Waiting]"
  using delivery_queue_texts dlq_queue_text
  by (simp add: queue_lines_def json_of_stats_def member_def obj_get_def Let_def)

subsection \<open>Properties\<close>

text \<open>
  The tiles show the database. The dashboard's request for the statistics goes through the proxy to its
  route, changes nothing, and once its answer has arrived the tiles show the number of deliveries in each
  status, the queue lines the counts of the two queues, and the banner is there exactly when POST
  /v1/events sheds load for these counts.
\<close>

lemma tiles_show_database:
  fixes R :: "'r redis_api" and Q :: "'q queue_api" and st :: "('r, 'q) api_state"
  assumes "ev_db_stats env = Inr (getDbStats now (ap_db st))" and "ev_queue_counts env = Inr (delivery, dlq)"
  shows "\<exists>body. fetch_api R Q cfg pg to_string stText env (apiGet ''/stats'' []) st = (Inr body, st) \<and>
    (\<exists>age. StatusTiles (poll_settled (Inr body) p) = Stats_shown
       (map (\<lambda>x. (status_name x, fmt (status_count (ap_db st) x))) [PENDING, DELIVERING, DELIVERED, FAILED, DLQ])
       [count_shown delivery Waiting, count_shown delivery Active, count_shown delivery Delayed, count_shown dlq Waiting]
       age (isOverloaded cfg (Inr delivery) = Inr True))"
proof -
  obtain r where r: "get_stats cfg (ev_db_stats env) (ev_queue_counts env) = Inr r"
      "sr_deliveries r = st_counts (getDbStats now (ap_db st))" "sr_delivery_queue r = delivery" "sr_dlq_queue r = dlq"
      "sr_backpressure_active r \<longleftrightarrow> depth_over_limit cfg delivery"
    using assms by (simp add: get_stats_def depth_over_limit_def)
  show ?thesis
    using tiles_counts [OF r(2)] r(3-5)
    by (intro exI [of _ "json_of_stats (ev_print env) r"])
      (simp add: fetch_stats [OF r(1)] StatusTiles_def poll_settled_def truthy_def queue_lines_counts backpressure_shown isOverloaded_def)
qed

end
