(* ===== verification/Migrations.thy ===== *)
theory Migrations
  imports Deliveries_Repo
begin

text \<open>
  \<open>src/migrations/\<close>: the two migrations as lists of statements on a catalog of tables and indexes, with
  the errors PostgreSQL raises (a name that is taken, a table that is missing or still referenced). The
  columns and row constraints of the tables are in \<open>Database\<close>; here a table has its references and its
  unique constraints. A migration runs in one transaction, so a failing statement undoes all of it.
\<close>

subsection \<open>The catalog\<close>

text \<open>Conditions of partial indexes on \<open>deliveries\<close>.\<close>

datatype cond =
    Enqueued_is bool
  | Status_is status
  | Next_attempt_not_null
  | Both cond cond

fun cond_holds :: "cond \<Rightarrow> delivery_row \<Rightarrow> bool" where
  "cond_holds (Enqueued_is b) d = (d_enqueued d = b)"
| "cond_holds (Status_is st) d = (d_status d = st)"
| "cond_holds Next_attempt_not_null d = (d_next_attempt_at d \<noteq> None)"
| "cond_holds (Both c c') d = (cond_holds c d \<and> cond_holds c' d)"

datatype access_method = Btree | Brin

text \<open>A column of an index and whether it is descending.\<close>

type_synonym index_column = "string \<times> bool"

record index =
  ix_name :: string
  ix_table :: string
  ix_method :: access_method
  ix_columns :: "index_column list"
  ix_where :: "cond option"

record table_def =
  tb_name :: string
  tb_references :: "string list"
  tb_unique :: "(string \<times> string list) list"

record catalog =
  cat_tables :: "table_def list"
  cat_indexes :: "index list"

datatype ddl =
    Create_table table_def
  | Create_index index
  | Drop_table_if_exists string
  | Drop_index_if_exists string

text \<open>Tables, indexes and the indexes behind primary keys and unique constraints share one name space.\<close>

definition table_relations :: "table_def \<Rightarrow> string list" where
  "table_relations t = tb_name t # (tb_name t @ ''_pkey'') # map fst (tb_unique t)"

definition relations :: "catalog \<Rightarrow> string list" where
  "relations c = concat (map table_relations (cat_tables c)) @ map ix_name (cat_indexes c)"

definition has_table :: "string \<Rightarrow> catalog \<Rightarrow> bool" where
  "has_table n c \<longleftrightarrow> n \<in> set (map tb_name (cat_tables c))"

definition referenced :: "string \<Rightarrow> catalog \<Rightarrow> bool" where
  "referenced n c \<longleftrightarrow> (\<exists>t \<in> set (cat_tables c). tb_name t \<noteq> n \<and> n \<in> set (tb_references t))"

fun exec_ddl :: "ddl \<Rightarrow> catalog \<Rightarrow> string + catalog" where
  "exec_ddl (Create_table t) c =
     (if \<exists>n \<in> set (table_relations t). n \<in> set (relations c) then Inl ''relation already exists''
      else if \<exists>n \<in> set (tb_references t). \<not> has_table n c then Inl ''relation does not exist''
      else Inr (c\<lparr>cat_tables := cat_tables c @ [t]\<rparr>))"
| "exec_ddl (Create_index x) c =
     (if \<not> has_table (ix_table x) c then Inl ''relation does not exist''
      else if ix_name x \<in> set (relations c) then Inl ''relation already exists''
      else Inr (c\<lparr>cat_indexes := cat_indexes c @ [x]\<rparr>))"
| "exec_ddl (Drop_table_if_exists n) c =
     (if \<not> has_table n c then Inr c
      else if referenced n c then Inl ''other objects depend on it''
      else Inr (c\<lparr>cat_tables := filter (\<lambda>t. tb_name t \<noteq> n) (cat_tables c),
                 cat_indexes := filter (\<lambda>x. ix_table x \<noteq> n) (cat_indexes c)\<rparr>))"
| "exec_ddl (Drop_index_if_exists n) c = Inr (c\<lparr>cat_indexes := filter (\<lambda>x. ix_name x \<noteq> n) (cat_indexes c)\<rparr>)"

fun run_migration :: "ddl list \<Rightarrow> catalog \<Rightarrow> string + catalog" where
  "run_migration [] c = Inr c"
| "run_migration (s # ss) c = (case exec_ddl s c of Inl e \<Rightarrow> Inl e | Inr c' \<Rightarrow> run_migration ss c')"

subsection \<open>The initial schema\<close>

definition endpoints_table :: table_def where
  "endpoints_table = \<lparr>tb_name = ''endpoints'', tb_references = [], tb_unique = []\<rparr>"

definition events_table :: table_def where
  "events_table = \<lparr>tb_name = ''events'', tb_references = [],
     tb_unique = [(''uq_events_client_idem'', [''client_id'', ''idempotency_key''])]\<rparr>"

definition deliveries_table :: table_def where
  "deliveries_table = \<lparr>tb_name = ''deliveries'', tb_references = [''events'', ''endpoints''],
     tb_unique = [(''uq_deliveries_event_endpoint'', [''event_id'', ''endpoint_id''])]\<rparr>"

definition attempts_table :: table_def where
  "attempts_table = \<lparr>tb_name = ''delivery_attempts'', tb_references = [''deliveries''],
     tb_unique = [(''uq_attempts'', [''delivery_id'', ''attempt_number''])]\<rparr>"

definition transitions_table :: table_def where
  "transitions_table = \<lparr>tb_name = ''delivery_transitions'', tb_references = [''deliveries''], tb_unique = []\<rparr>"

definition btree :: "string \<Rightarrow> string \<Rightarrow> index_column list \<Rightarrow> cond option \<Rightarrow> index" where
  "btree n t cols w = \<lparr>ix_name = n, ix_table = t, ix_method = Btree, ix_columns = cols, ix_where = w\<rparr>"

definition brin :: "string \<Rightarrow> string \<Rightarrow> string \<Rightarrow> index" where
  "brin n t col = \<lparr>ix_name = n, ix_table = t, ix_method = Brin, ix_columns = [(col, False)], ix_where = None\<rparr>"

definition idx_endpoints_client :: index where
  "idx_endpoints_client = btree ''idx_endpoints_client'' ''endpoints'' [(''client_id'', False)] None"

definition idx_deliveries_unenqueued :: index where
  "idx_deliveries_unenqueued =
     btree ''idx_deliveries_unenqueued'' ''deliveries'' [(''created_at'', False)] (Some (Enqueued_is False))"

definition idx_deliveries_status_updated :: index where
  "idx_deliveries_status_updated =
     btree ''idx_deliveries_status_updated'' ''deliveries'' [(''status'', False), (''updated_at'', True)] None"

definition idx_deliveries_endpoint_created :: index where
  "idx_deliveries_endpoint_created =
     btree ''idx_deliveries_endpoint_created'' ''deliveries'' [(''endpoint_id'', False), (''created_at'', True)] None"

definition idx_deliveries_event :: index where
  "idx_deliveries_event = btree ''idx_deliveries_event'' ''deliveries'' [(''event_id'', False)] None"

definition idx_attempts_delivery :: index where
  "idx_attempts_delivery =
     btree ''idx_attempts_delivery'' ''delivery_attempts'' [(''delivery_id'', False), (''attempt_number'', False)] None"

definition idx_attempts_brin :: index where
  "idx_attempts_brin = brin ''idx_attempts_brin'' ''delivery_attempts'' ''started_at''"

definition idx_transitions_delivery :: index where
  "idx_transitions_delivery =
     btree ''idx_transitions_delivery'' ''delivery_transitions'' [(''delivery_id'', False), (''id'', False)] None"

definition idx_transitions_brin :: index where
  "idx_transitions_brin = brin ''idx_transitions_brin'' ''delivery_transitions'' ''created_at''"

definition initial_up :: "ddl list" where
  "initial_up =
     [Create_table endpoints_table, Create_index idx_endpoints_client,
      Create_table events_table,
      Create_table deliveries_table, Create_index idx_deliveries_unenqueued,
      Create_index idx_deliveries_status_updated, Create_index idx_deliveries_endpoint_created,
      Create_index idx_deliveries_event,
      Create_table attempts_table, Create_index idx_attempts_delivery, Create_index idx_attempts_brin,
      Create_table transitions_table, Create_index idx_transitions_delivery, Create_index idx_transitions_brin]"

definition initial_down :: "ddl list" where
  "initial_down =
     [Drop_table_if_exists ''delivery_transitions'', Drop_table_if_exists ''delivery_attempts'',
      Drop_table_if_exists ''deliveries'', Drop_table_if_exists ''events'', Drop_table_if_exists ''endpoints'']"

subsection \<open>The indexes of the reconciler\<close>

definition idx_deliveries_pending_stuck :: index where
  "idx_deliveries_pending_stuck =
     btree ''idx_deliveries_pending_stuck'' ''deliveries'' [(''updated_at'', False)] (Some (Status_is PENDING))"

definition idx_deliveries_failed_overdue :: index where
  "idx_deliveries_failed_overdue =
     btree ''idx_deliveries_failed_overdue'' ''deliveries'' [(''next_attempt_at'', False)]
       (Some (Both (Status_is FAILED) Next_attempt_not_null))"

definition reconciler_up :: "ddl list" where
  "reconciler_up =
     [Drop_index_if_exists ''idx_deliveries_unenqueued'',
      Create_index idx_deliveries_pending_stuck, Create_index idx_deliveries_failed_overdue]"

definition reconciler_down :: "ddl list" where
  "reconciler_down =
     [Drop_index_if_exists ''idx_deliveries_pending_stuck'', Drop_index_if_exists ''idx_deliveries_failed_overdue'',
      Create_index idx_deliveries_unenqueued]"

subsection \<open>Frame: what else is in the database\<close>

definition beside :: "catalog \<Rightarrow> catalog \<Rightarrow> catalog" where
  "beside c d = \<lparr>cat_tables = cat_tables c @ cat_tables d, cat_indexes = cat_indexes c @ cat_indexes d\<rparr>"

definition empty_catalog :: catalog where
  "empty_catalog = \<lparr>cat_tables = [], cat_indexes = []\<rparr>"

text \<open>References and indexes of a catalog are about its own tables.\<close>

definition closed :: "catalog \<Rightarrow> bool" where
  "closed c \<longleftrightarrow> list_all (\<lambda>t. list_all (\<lambda>n. has_table n c) (tb_references t)) (cat_tables c) \<and>
     list_all (\<lambda>x. has_table (ix_table x) c) (cat_indexes c)"

fun ddl_names :: "ddl \<Rightarrow> string list" where
  "ddl_names (Create_table t) = table_relations t @ tb_references t"
| "ddl_names (Create_index x) = [ix_name x, ix_table x]"
| "ddl_names (Drop_table_if_exists n) = [n]"
| "ddl_names (Drop_index_if_exists n) = [n]"

lemma beside_simps [simp]:
  "cat_tables (beside c d) = cat_tables c @ cat_tables d" "cat_indexes (beside c d) = cat_indexes c @ cat_indexes d"
  "set (relations (beside c d)) = set (relations c) \<union> set (relations d)"
  "has_table n (beside c d) \<longleftrightarrow> has_table n c \<or> has_table n d"
  "beside c empty_catalog = c"
  by (auto simp: beside_def relations_def has_table_def empty_catalog_def)

lemma has_table_relation: "has_table n c \<Longrightarrow> n \<in> set (relations c)"
  by (auto simp: has_table_def relations_def table_relations_def)

lemma fresh_parts:
  assumes "n \<notin> set (relations c)" and "closed c"
  shows "\<not> has_table n c" and "referenced n (beside c d) \<longleftrightarrow> referenced n d"
    and "filter (\<lambda>t. tb_name t \<noteq> n) (cat_tables c) = cat_tables c"
    and "filter (\<lambda>x. ix_table x \<noteq> n) (cat_indexes c) = cat_indexes c"
    and "filter (\<lambda>x. ix_name x \<noteq> n) (cat_indexes c) = cat_indexes c"
proof -
  show no: "\<not> has_table n c" using assms(1) has_table_relation by blast
  then show "referenced n (beside c d) \<longleftrightarrow> referenced n d"
    using assms(2) by (auto simp: referenced_def closed_def list_all_iff)
  show "filter (\<lambda>t. tb_name t \<noteq> n) (cat_tables c) = cat_tables c"
    using no by (auto simp: has_table_def intro!: filter_True)
  show "filter (\<lambda>x. ix_table x \<noteq> n) (cat_indexes c) = cat_indexes c"
    using no assms(2) by (auto simp: closed_def list_all_iff intro!: filter_True)
  show "filter (\<lambda>x. ix_name x \<noteq> n) (cat_indexes c) = cat_indexes c"
    using assms(1) by (auto simp: relations_def intro!: filter_True)
qed

lemma exec_frame:
  assumes "closed c" and "set (ddl_names s) \<inter> set (relations c) = {}"
  shows "exec_ddl s (beside c d) = map_sum id (beside c) (exec_ddl s d)"
proof (cases s)
  case (Create_table t)
  have "(\<exists>n \<in> set (table_relations t). n \<in> set (relations (beside c d)))
      \<longleftrightarrow> (\<exists>n \<in> set (table_relations t). n \<in> set (relations d))"
    and "(\<exists>n \<in> set (tb_references t). \<not> has_table n (beside c d)) \<longleftrightarrow> (\<exists>n \<in> set (tb_references t). \<not> has_table n d)"
    using assms(2) Create_table has_table_relation [of _ c] by auto
  then show ?thesis using Create_table by (simp add: beside_def)
next
  case (Create_index x)
  have "\<not> has_table (ix_table x) c" "ix_name x \<notin> set (relations c)"
    using assms(2) Create_index has_table_relation by auto
  then have "has_table (ix_table x) (beside c d) \<longleftrightarrow> has_table (ix_table x) d"
      "ix_name x \<in> set (relations (beside c d)) \<longleftrightarrow> ix_name x \<in> set (relations d)" by simp_all
  then show ?thesis using Create_index by (simp add: beside_def)
next
  case (Drop_table_if_exists n)
  with assms have "n \<notin> set (relations c)" by simp
  note fresh = fresh_parts [OF this assms(1)]
  have "has_table n (beside c d) \<longleftrightarrow> has_table n d" using fresh(1) by simp
  then show ?thesis using Drop_table_if_exists fresh by (simp add: beside_def)
next
  case (Drop_index_if_exists n)
  with assms have "n \<notin> set (relations c)" by simp
  from fresh_parts(5) [OF this assms(1)] show ?thesis using Drop_index_if_exists by (simp add: beside_def)
qed

lemma migration_frame:
  assumes "closed c" and "set (concat (map ddl_names ss)) \<inter> set (relations c) = {}"
  shows "run_migration ss (beside c d) = map_sum id (beside c) (run_migration ss d)"
  using assms(2)
proof (induction ss arbitrary: d)
  case (Cons s ss)
  have "exec_ddl s (beside c d) = map_sum id (beside c) (exec_ddl s d)"
    using exec_frame [OF assms(1), of s d] Cons.prems by auto
  then show ?case using Cons by (auto split: sum.splits)
qed simp

subsection \<open>The schema of the program\<close>

definition initial_schema :: catalog where
  "initial_schema = projr (run_migration initial_up empty_catalog)"

definition current_schema :: catalog where
  "current_schema = projr (run_migration reconciler_up initial_schema)"

definition all_statements :: "ddl list" where
  "all_statements = initial_up @ reconciler_up @ reconciler_down @ initial_down"

lemma schema_steps:
  "run_migration initial_up empty_catalog = Inr initial_schema"
  "run_migration reconciler_up initial_schema = Inr current_schema"
  "run_migration initial_down initial_schema = Inr empty_catalog"
  by code_simp+

text \<open>
  The second migration can be undone: the old index comes back, behind the others.
\<close>

definition reverted_schema :: catalog where
  "reverted_schema = projr (run_migration reconciler_down current_schema)"

lemma reverted_steps:
  "run_migration reconciler_down current_schema = Inr reverted_schema"
  "cat_tables reverted_schema = cat_tables initial_schema"
  "set (cat_indexes reverted_schema) = set (cat_indexes initial_schema) \<and> distinct (map ix_name (cat_indexes reverted_schema))"
  "run_migration initial_down reverted_schema = Inr empty_catalog"
  by code_simp+

lemma current_partial_indexes:
  "filter (\<lambda>x. ix_where x \<noteq> None) (cat_indexes current_schema) = [idx_deliveries_pending_stuck, idx_deliveries_failed_overdue]"
  "filter (\<lambda>x. ix_where x \<noteq> None) (cat_indexes initial_schema) = [idx_deliveries_unenqueued]"
  by code_simp+

text \<open>The rows an index has an entry for, and those of the indexes that are there for the reconciler.\<close>

definition indexed :: "index \<Rightarrow> delivery_row \<Rightarrow> bool" where
  "indexed x d \<longleftrightarrow> (case ix_where x of None \<Rightarrow> True | Some c \<Rightarrow> cond_holds c d)"

definition partial_indexes :: "catalog \<Rightarrow> index list" where
  "partial_indexes c = filter (\<lambda>x. ix_where x \<noteq> None) (cat_indexes c)"

lemma partial_indexes_schema:
  "partial_indexes current_schema = [idx_deliveries_pending_stuck, idx_deliveries_failed_overdue]"
  "partial_indexes initial_schema = [idx_deliveries_unenqueued]"
  unfolding partial_indexes_def by (rule current_partial_indexes)+

subsection \<open>Properties\<close>

text \<open>
  C33: the migrations apply and can be undone, in any database that does not use their names. Each of them
  succeeds beside whatever tables are there, the second one undone gives the tables and indexes of the
  first back, and both undone leave the database as it was: tables are dropped before what they refer to.
\<close>

theorem migrations_reversible:
  assumes "closed c" and "set (concat (map ddl_names all_statements)) \<inter> set (relations c) = {}"
  shows "run_migration initial_up c = Inr (beside c initial_schema) \<and>
    run_migration reconciler_up (beside c initial_schema) = Inr (beside c current_schema) \<and>
    run_migration reconciler_down (beside c current_schema) = Inr (beside c reverted_schema) \<and>
    cat_tables reverted_schema = cat_tables initial_schema \<and>
    set (cat_indexes reverted_schema) = set (cat_indexes initial_schema) \<and>
    run_migration initial_down (beside c reverted_schema) = Inr c"
proof -
  have frame: "run_migration ss (beside c d) = map_sum id (beside c) (run_migration ss d)"
    if "set ss \<subseteq> set all_statements" for ss d
    using assms that by (intro migration_frame) auto
  then have "run_migration initial_up (beside c d) = map_sum id (beside c) (run_migration initial_up d)"
      "run_migration reconciler_up (beside c d) = map_sum id (beside c) (run_migration reconciler_up d)"
      "run_migration reconciler_down (beside c d) = map_sum id (beside c) (run_migration reconciler_down d)"
      "run_migration initial_down (beside c d) = map_sum id (beside c) (run_migration initial_down d)" for d
    by (auto simp: all_statements_def)
  from this(1) [of empty_catalog] this(2-4) show ?thesis using schema_steps reverted_steps by simp
qed

theorem migrations_reversible_witness:
  "run_migration initial_down (beside \<lparr>cat_tables = [\<lparr>tb_name = ''pgmigrations'', tb_references = [], tb_unique = []\<rparr>], cat_indexes = []\<rparr>
     reverted_schema) = Inr \<lparr>cat_tables = [\<lparr>tb_name = ''pgmigrations'', tb_references = [], tb_unique = []\<rparr>], cat_indexes = []\<rparr>"
proof -
  let ?c = "\<lparr>cat_tables = [\<lparr>tb_name = ''pgmigrations'', tb_references = [], tb_unique = []\<rparr>], cat_indexes = []\<rparr>"
  have "closed ?c" by code_simp
  moreover have "set (concat (map ddl_names all_statements)) \<inter> set (relations ?c) = {}" by code_simp
  ultimately show ?thesis using migrations_reversible by blast
qed

text \<open>
  The second migration gives the reconciler the indexes of its query. Every row the sweep selects has an
  entry in one of the two partial indexes, by the arm of the condition it satisfies, and these have no
  entries for deliveries that are DELIVERING, DELIVERED or in the DLQ; the index of the first schema has no
  entry for a PENDING delivery that was marked as enqueued, which the sweep selects too.
\<close>

lemma reconciler_rows_indexed:
  "(needs_recovery cfg now d \<longrightarrow> (\<exists>x \<in> set (partial_indexes current_schema). indexed x d)) \<and>
   (\<forall>x \<in> set (partial_indexes current_schema). indexed x d \<longrightarrow> d_status d \<in> {PENDING, FAILED}) \<and>
   (d_status d = PENDING \<and> d_enqueued d \<and> d_updated_at d < now - RECONCILER_GRACE_SECONDS cfg * 1000000 \<longrightarrow>
      needs_recovery cfg now d \<and> (\<forall>x \<in> set (partial_indexes initial_schema). \<not> indexed x d))"
  by (auto simp: partial_indexes_schema indexed_def needs_recovery_def idx_deliveries_pending_stuck_def
      idx_deliveries_failed_overdue_def idx_deliveries_unenqueued_def btree_def split: option.splits)

end
