(* ===== verification/Start_Up.thy ===== *)
theory Start_Up
  imports Config Errors Js_Text
begin

text \<open>
  How a process starts: \<open>src/src/shared/config.ts\<close> reads the environment through its schema or ends the
  process, \<open>src/src/queue/queues.ts\<close> and \<open>src/src/worker/index.ts\<close> make the connection of BullMQ,
  \<open>src/src/redis/client.ts\<close>, \<open>src/src/db/pool.ts\<close> and \<open>src/src/shared/logger.ts\<close> set their libraries up, and
  \<open>src/src/api/index.ts\<close> connects and listens. The URL parser of the engine is a parameter.
\<close>

subsection \<open>The schema\<close>

type_synonym process_env = "string \<Rightarrow> string option"

text \<open>The fields \<open>z.coerce.number().int().positive().default(d)\<close>, in the order of the schema.\<close>

definition number_fields :: "(string \<times> int) list" where
  "number_fields =
     [(''PORT'', 3000),
      (''WORKER_CONCURRENCY'', 50),
      (''HTTP_TIMEOUT_MS'', 10000),
      (''LOCK_TTL_MS'', 60000),
      (''LOCK_HEARTBEAT_INTERVAL_MS'', 20000),
      (''BULLMQ_LOCK_DURATION_MS'', 90000),
      (''BULLMQ_STALLED_INTERVAL_MS'', 30000),
      (''RECONCILER_INTERVAL_MS'', 30000),
      (''RECONCILER_GRACE_SECONDS'', 60),
      (''RECONCILER_BATCH_SIZE'', 500),
      (''REMOVE_ON_COMPLETE_AGE_S'', 3600),
      (''REMOVE_ON_COMPLETE_COUNT'', 10000),
      (''BACKPRESSURE_QUEUE_LIMIT'', 50000),
      (''QUEUE_DEPTH_CACHE_MS'', 1000),
      (''CB_FAIL_THRESHOLD'', 20),
      (''CB_WINDOW_SECONDS'', 300),
      (''CB_OPEN_SECONDS'', 60),
      (''CB_PROBE_SECONDS'', 10),
      (''RL_MAX_INFLIGHT'', 50),
      (''RL_TTL_SECONDS'', 120),
      (''RL_RATE_LIMITED_DELAY_MS'', 5000),
      (''IDEM_TTL_SECONDS'', 86400),
      (''MAX_PAYLOAD_BYTES'', 256 * 1024),
      (''MAX_RESPONSE_BODY_BYTES'', 4 * 1024)]"

text \<open>A default stands for a variable that is not set; \<open>None\<close> is an issue of the field.\<close>

definition z_number :: "process_env \<Rightarrow> string \<times> int \<Rightarrow> int option" where
  "z_number env f = (case env (fst f) of
     None \<Rightarrow> Some (snd f)
   | Some s \<Rightarrow> (case z_int (toNumber s) of Some n \<Rightarrow> if 0 < n then Some n else None | None \<Rightarrow> None))"

definition z_NODE_ENV :: "process_env \<Rightarrow> string option" where
  "z_NODE_ENV env = (case env ''NODE_ENV'' of
     None \<Rightarrow> Some ''development''
   | Some s \<Rightarrow> if s \<in> {''development'', ''test'', ''production''} then Some s else None)"

definition z_DATABASE_URL :: "process_env \<Rightarrow> string option" where
  "z_DATABASE_URL env = (case env ''DATABASE_URL'' of
     None \<Rightarrow> None
   | Some s \<Rightarrow> if 1 \<le> length s then Some s else None)"

definition z_REDIS_URL :: "process_env \<Rightarrow> string option" where
  "z_REDIS_URL env = (case env ''REDIS_URL'' of
     None \<Rightarrow> Some ''redis://localhost:6379''
   | Some s \<Rightarrow> if 1 \<le> length s then Some s else None)"

definition z_BACKOFF_BASE_MS :: "process_env \<Rightarrow> numeric list" where
  "z_BACKOFF_BASE_MS env =
     map toNumber (split_on (CHR '','')
       (case env ''BACKOFF_BASE_MS'' of None \<Rightarrow> ''10000,30000,120000,600000,3600000'' | Some s \<Rightarrow> s))"

definition z_ALERT_WEBHOOK_URL :: "(string \<Rightarrow> bool) \<Rightarrow> process_env \<Rightarrow> string option option" where
  "z_ALERT_WEBHOOK_URL is_url env = (case env ''ALERT_WEBHOOK_URL'' of
     None \<Rightarrow> Some None
   | Some s \<Rightarrow> if is_url s then Some (Some s) else None)"

record loaded =
  ld_NODE_ENV :: string
  ld_DATABASE_URL :: string
  ld_REDIS_URL :: string
  ld_numbers :: "(string \<times> int) list"
  ld_BACKOFF_BASE_MS :: "numeric list"
  ld_ALERT_WEBHOOK_URL :: "string option"

text \<open>The keys of \<open>fieldErrors\<close>, in the order of the schema.\<close>

definition fieldErrors :: "(string \<Rightarrow> bool) \<Rightarrow> process_env \<Rightarrow> string list" where
  "fieldErrors is_url env =
     (if z_NODE_ENV env = None then [''NODE_ENV''] else []) @
     (if z_DATABASE_URL env = None then [''DATABASE_URL''] else []) @
     (if z_REDIS_URL env = None then [''REDIS_URL''] else []) @
     map fst (filter (\<lambda>f. z_number env f = None) number_fields) @
     (if z_ALERT_WEBHOOK_URL is_url env = None then [''ALERT_WEBHOOK_URL''] else [])"

definition safeParse :: "(string \<Rightarrow> bool) \<Rightarrow> process_env \<Rightarrow> string list + loaded" where
  "safeParse is_url env =
     (if fieldErrors is_url env \<noteq> [] then Inl (fieldErrors is_url env)
      else Inr \<lparr>ld_NODE_ENV = the (z_NODE_ENV env), ld_DATABASE_URL = the (z_DATABASE_URL env),
        ld_REDIS_URL = the (z_REDIS_URL env), ld_numbers = map (\<lambda>f. (fst f, the (z_number env f))) number_fields,
        ld_BACKOFF_BASE_MS = z_BACKOFF_BASE_MS env, ld_ALERT_WEBHOOK_URL = the (z_ALERT_WEBHOOK_URL is_url env)\<rparr>)"

text \<open>The module either ends the process with status 1, having printed the fields, or exports the result.\<close>

datatype 'a started = Exit int "string list" | Up 'a

definition load_config :: "(string \<Rightarrow> bool) \<Rightarrow> process_env \<Rightarrow> loaded started" where
  "load_config is_url env = (case safeParse is_url env of Inl bad \<Rightarrow> Exit 1 bad | Inr ld \<Rightarrow> Up ld)"

definition number_of :: "loaded \<Rightarrow> string \<Rightarrow> int" where
  "number_of ld k = the (map_of (ld_numbers ld) k)"

text \<open>
  The configuration of the other theories; its backoff times are whole numbers, which the schema does not
  demand.
\<close>

definition config_of :: "loaded \<Rightarrow> config option" where
  "config_of ld = (case those (map z_int (ld_BACKOFF_BASE_MS ld)) of
     None \<Rightarrow> None
   | Some bs \<Rightarrow> Some \<lparr>
       NODE_ENV = ld_NODE_ENV ld,
       WORKER_CONCURRENCY = number_of ld ''WORKER_CONCURRENCY'',
       HTTP_TIMEOUT_MS = number_of ld ''HTTP_TIMEOUT_MS'',
       LOCK_TTL_MS = number_of ld ''LOCK_TTL_MS'',
       LOCK_HEARTBEAT_INTERVAL_MS = number_of ld ''LOCK_HEARTBEAT_INTERVAL_MS'',
       BULLMQ_LOCK_DURATION_MS = number_of ld ''BULLMQ_LOCK_DURATION_MS'',
       BULLMQ_STALLED_INTERVAL_MS = number_of ld ''BULLMQ_STALLED_INTERVAL_MS'',
       RECONCILER_INTERVAL_MS = number_of ld ''RECONCILER_INTERVAL_MS'',
       RECONCILER_GRACE_SECONDS = number_of ld ''RECONCILER_GRACE_SECONDS'',
       RECONCILER_BATCH_SIZE = number_of ld ''RECONCILER_BATCH_SIZE'',
       REMOVE_ON_COMPLETE_AGE_S = number_of ld ''REMOVE_ON_COMPLETE_AGE_S'',
       REMOVE_ON_COMPLETE_COUNT = number_of ld ''REMOVE_ON_COMPLETE_COUNT'',
       BACKOFF_BASE_MS = bs,
       BACKPRESSURE_QUEUE_LIMIT = number_of ld ''BACKPRESSURE_QUEUE_LIMIT'',
       QUEUE_DEPTH_CACHE_MS = number_of ld ''QUEUE_DEPTH_CACHE_MS'',
       CB_FAIL_THRESHOLD = number_of ld ''CB_FAIL_THRESHOLD'',
       CB_WINDOW_SECONDS = number_of ld ''CB_WINDOW_SECONDS'',
       CB_OPEN_SECONDS = number_of ld ''CB_OPEN_SECONDS'',
       CB_PROBE_SECONDS = number_of ld ''CB_PROBE_SECONDS'',
       RL_MAX_INFLIGHT = number_of ld ''RL_MAX_INFLIGHT'',
       RL_TTL_SECONDS = number_of ld ''RL_TTL_SECONDS'',
       RL_RATE_LIMITED_DELAY_MS = number_of ld ''RL_RATE_LIMITED_DELAY_MS'',
       IDEM_TTL_SECONDS = number_of ld ''IDEM_TTL_SECONDS'',
       MAX_PAYLOAD_BYTES = number_of ld ''MAX_PAYLOAD_BYTES'',
       MAX_RESPONSE_BODY_BYTES = number_of ld ''MAX_RESPONSE_BODY_BYTES'',
       ALERT_WEBHOOK_URL = ld_ALERT_WEBHOOK_URL ld\<rparr>)"

subsection \<open>Connections and logging\<close>

record url =
  hostname :: string
  port :: string
  username :: string
  password :: string
  pathname :: string

record bull_connection =
  bc_host :: string
  bc_port :: numeric
  bc_maxRetriesPerRequest :: "int option"
  bc_enableReadyCheck :: bool

text \<open>\<open>URL\<close> stands for \<open>new URL(s)\<close>, \<open>None\<close> for the error it throws.\<close>

definition makeBullConnection :: "(string \<Rightarrow> url option) \<Rightarrow> loaded \<Rightarrow> exn + bull_connection" where
  "makeBullConnection URL ld = (case URL (ld_REDIS_URL ld) of
     None \<Rightarrow> Inl (ErrorExn ''Invalid URL'')
   | Some u \<Rightarrow> Inr \<lparr>bc_host = hostname u,
       bc_port = (if port u \<noteq> [] then toNumber (port u) else Finite 6379),
       bc_maxRetriesPerRequest = None, bc_enableReadyCheck = False\<rparr>)"

record redis_options =
  ro_url :: string
  ro_maxRetriesPerRequest :: "int option"
  ro_lazyConnect :: bool
  ro_enableReadyCheck :: bool

definition redis_client :: "loaded \<Rightarrow> redis_options" where
  "redis_client ld = \<lparr>ro_url = ld_REDIS_URL ld, ro_maxRetriesPerRequest = None, ro_lazyConnect = True,
     ro_enableReadyCheck = True\<rparr>"

record pool_options =
  connectionString :: string
  max_clients :: int
  idleTimeoutMillis :: int
  connectionTimeoutMillis :: int

definition pg_pool :: "loaded \<Rightarrow> pool_options" where
  "pg_pool ld = \<lparr>connectionString = ld_DATABASE_URL ld, max_clients = 10, idleTimeoutMillis = 30000,
     connectionTimeoutMillis = 3000\<rparr>"

record logger_options =
  level :: string
  service :: string

definition logger :: "process_env \<Rightarrow> logger_options" where
  "logger env =
     \<lparr>level = (case env ''LOG_LEVEL'' of None \<Rightarrow> ''info'' | Some l \<Rightarrow> l),
      service = (case env ''SERVICE_NAME'' of None \<Rightarrow> ''unknown'' | Some n \<Rightarrow> n)\<rparr>"

subsection \<open>The API process\<close>

text \<open>
  \<open>connect\<close> is the result of \<open>redis.connect()\<close>, \<open>listen\<close> that of \<open>app.listen\<close> on a port of all interfaces;
  the API that is up has its port.
\<close>

definition api_start :: "(exn + unit) \<Rightarrow> (string \<Rightarrow> int \<Rightarrow> exn + unit) \<Rightarrow> loaded \<Rightarrow> int started" where
  "api_start connect listen ld = (case connect of
     Inl e \<Rightarrow> Exit 1 []
   | Inr _ \<Rightarrow> (case listen ''0.0.0.0'' (number_of ld ''PORT'') of
       Inl e \<Rightarrow> Exit 1 []
     | Inr _ \<Rightarrow> Up (number_of ld ''PORT'')))"

text \<open>The modules in the order of their imports: the configuration, the queues, then the start.\<close>

definition api_process ::
  "(string \<Rightarrow> bool) \<Rightarrow> (string \<Rightarrow> url option) \<Rightarrow> (exn + unit) \<Rightarrow> (string \<Rightarrow> int \<Rightarrow> exn + unit) \<Rightarrow> process_env \<Rightarrow> int started"
where
  "api_process is_url URL connect listen env = (case load_config is_url env of
     Exit n bad \<Rightarrow> Exit n bad
   | Up ld \<Rightarrow> (case makeBullConnection URL ld of
       Inl e \<Rightarrow> Exit 1 []
     | Inr _ \<Rightarrow> api_start connect listen ld))"

subsection \<open>What a loaded configuration guarantees\<close>

lemma number_fields_facts:
  "distinct (map fst number_fields)" "(k, d) \<in> set number_fields \<Longrightarrow> 0 < d"
  by (simp_all add: number_fields_def) auto

lemma load_config_Up:
  assumes "load_config is_url env = Up ld"
  shows "fieldErrors is_url env = []" and "safeParse is_url env = Inr ld"
  using assms by (auto simp: load_config_def safeParse_def split: sum.splits if_splits)

lemma number_of_loaded:
  assumes "load_config is_url env = Up ld" and "(k, d) \<in> set number_fields"
  shows "z_number env (k, d) = Some (number_of ld k)"
proof -
  have some: "z_number env (k, d) \<noteq> None"
    using load_config_Up(1) [OF assms(1)] assms(2) by (auto simp: fieldErrors_def filter_empty_conv)
  have "ld_numbers ld = map (\<lambda>f. (fst f, the (z_number env f))) number_fields"
    using load_config_Up [OF assms(1)] by (auto simp: safeParse_def)
  then have "map_of (ld_numbers ld) k = Some (the (z_number env (k, d)))"
    using assms(2) number_fields_facts(1) by (intro map_of_is_SomeI) (force simp: comp_def)+
  with some show ?thesis by (simp add: number_of_def)
qed

lemma number_of_pos:
  assumes "load_config is_url env = Up ld" and "(k, d) \<in> set number_fields"
  shows "0 < number_of ld k"
  using number_of_loaded [OF assms] number_fields_facts(2) [OF assms(2)]
  by (auto simp: z_number_def split: option.splits if_splits)

lemma split_on_nonempty: "split_on c s \<noteq> []"
  by (induction s) (auto split: list.splits)

lemma those_length: "those xs = Some ys \<Longrightarrow> length ys = length xs"
  by (induction xs arbitrary: ys) (auto split: option.splits)

lemma loaded_backoff:
  assumes "load_config is_url env = Up ld" and "config_of ld = Some cfg"
  shows "those (map z_int (z_BACKOFF_BASE_MS env)) = Some (BACKOFF_BASE_MS cfg)"
  using load_config_Up [OF assms(1)] assms(2) by (auto simp: safeParse_def config_of_def split: option.splits)

lemma config_of_ok:
  assumes "load_config is_url env = Up ld" and "config_of ld = Some cfg"
  shows "config_ok cfg"
proof -
  have "BACKOFF_BASE_MS cfg \<noteq> []"
    using those_length [OF loaded_backoff [OF assms]] split_on_nonempty by (auto simp: z_BACKOFF_BASE_MS_def)
  moreover have "list_all (\<lambda>f. 0 < number_of ld (fst f)) number_fields"
    using number_of_pos [OF assms(1)] by (auto simp: list_all_iff)
  ultimately show ?thesis
    using assms(2) by (auto simp: config_of_def config_ok_def number_fields_def split: option.splits)
qed

subsection \<open>Writing a configuration into the environment\<close>

definition numbers_of :: "int \<Rightarrow> config \<Rightarrow> (string \<times> int) list" where
  "numbers_of p cfg =
     [(''PORT'', p),
      (''WORKER_CONCURRENCY'', WORKER_CONCURRENCY cfg),
      (''HTTP_TIMEOUT_MS'', HTTP_TIMEOUT_MS cfg),
      (''LOCK_TTL_MS'', LOCK_TTL_MS cfg),
      (''LOCK_HEARTBEAT_INTERVAL_MS'', LOCK_HEARTBEAT_INTERVAL_MS cfg),
      (''BULLMQ_LOCK_DURATION_MS'', BULLMQ_LOCK_DURATION_MS cfg),
      (''BULLMQ_STALLED_INTERVAL_MS'', BULLMQ_STALLED_INTERVAL_MS cfg),
      (''RECONCILER_INTERVAL_MS'', RECONCILER_INTERVAL_MS cfg),
      (''RECONCILER_GRACE_SECONDS'', RECONCILER_GRACE_SECONDS cfg),
      (''RECONCILER_BATCH_SIZE'', RECONCILER_BATCH_SIZE cfg),
      (''REMOVE_ON_COMPLETE_AGE_S'', REMOVE_ON_COMPLETE_AGE_S cfg),
      (''REMOVE_ON_COMPLETE_COUNT'', REMOVE_ON_COMPLETE_COUNT cfg),
      (''BACKPRESSURE_QUEUE_LIMIT'', BACKPRESSURE_QUEUE_LIMIT cfg),
      (''QUEUE_DEPTH_CACHE_MS'', QUEUE_DEPTH_CACHE_MS cfg),
      (''CB_FAIL_THRESHOLD'', CB_FAIL_THRESHOLD cfg),
      (''CB_WINDOW_SECONDS'', CB_WINDOW_SECONDS cfg),
      (''CB_OPEN_SECONDS'', CB_OPEN_SECONDS cfg),
      (''CB_PROBE_SECONDS'', CB_PROBE_SECONDS cfg),
      (''RL_MAX_INFLIGHT'', RL_MAX_INFLIGHT cfg),
      (''RL_TTL_SECONDS'', RL_TTL_SECONDS cfg),
      (''RL_RATE_LIMITED_DELAY_MS'', RL_RATE_LIMITED_DELAY_MS cfg),
      (''IDEM_TTL_SECONDS'', IDEM_TTL_SECONDS cfg),
      (''MAX_PAYLOAD_BYTES'', MAX_PAYLOAD_BYTES cfg),
      (''MAX_RESPONSE_BODY_BYTES'', MAX_RESPONSE_BODY_BYTES cfg)]"

text \<open>The environment an operator writes for a configuration, with the two URLs and the port.\<close>

definition env_of :: "string \<Rightarrow> string \<Rightarrow> int \<Rightarrow> config \<Rightarrow> process_env" where
  "env_of db redis p cfg =
     map_of (map (\<lambda>(k, n). (k, string_of_int n)) (numbers_of p cfg) @
       [(''NODE_ENV'', NODE_ENV cfg), (''DATABASE_URL'', db), (''REDIS_URL'', redis),
        (''BACKOFF_BASE_MS'', join_comma (map string_of_int (BACKOFF_BASE_MS cfg)))] @
       (case ALERT_WEBHOOK_URL cfg of None \<Rightarrow> [] | Some u \<Rightarrow> [(''ALERT_WEBHOOK_URL'', u)]))"

lemma numbers_of_keys: "map fst (numbers_of p cfg) = map fst number_fields"
  by (simp add: numbers_of_def number_fields_def)

lemma other_keys:
  "{''NODE_ENV'', ''DATABASE_URL'', ''REDIS_URL'', ''BACKOFF_BASE_MS'', ''ALERT_WEBHOOK_URL''} \<inter> fst ` set number_fields = {}"
  by (simp add: number_fields_def)

lemma map_of_numbers:
  "map_of (map (\<lambda>(k, n). (k, string_of_int n)) (numbers_of p cfg)) k = map_option string_of_int (map_of (numbers_of p cfg) k)"
  by (simp add: map_of_map)

lemma env_of_number: "(k, n) \<in> set (numbers_of p cfg) \<Longrightarrow> env_of db redis p cfg k = Some (string_of_int n)"
  using number_fields_facts(1)
  by (simp add: env_of_def map_add_def map_of_numbers numbers_of_keys split: option.split)

lemma numbers_of_other: "k \<notin> fst ` set number_fields \<Longrightarrow> map_of (numbers_of p cfg) k = None"
  using numbers_of_keys by (metis list.set_map map_of_eq_None_iff)

lemma env_of_other:
  "env_of db redis p cfg ''NODE_ENV'' = Some (NODE_ENV cfg)"
  "env_of db redis p cfg ''DATABASE_URL'' = Some db"
  "env_of db redis p cfg ''REDIS_URL'' = Some redis"
  "env_of db redis p cfg ''BACKOFF_BASE_MS'' = Some (join_comma (map string_of_int (BACKOFF_BASE_MS cfg)))"
  "env_of db redis p cfg ''ALERT_WEBHOOK_URL'' = ALERT_WEBHOOK_URL cfg"
  using other_keys
  by (simp_all add: env_of_def map_add_def map_of_numbers numbers_of_other split: option.split)

text \<open>A configuration whose numbers are positive and exact as doubles, and whose other fields pass the schema.\<close>

definition writable :: "(string \<Rightarrow> bool) \<Rightarrow> int \<Rightarrow> config \<Rightarrow> bool" where
  "writable is_url p cfg \<longleftrightarrow>
     list_all (\<lambda>(k, n). 0 < n \<and> n < 2 ^ 53) (numbers_of p cfg) \<and>
     BACKOFF_BASE_MS cfg \<noteq> [] \<and> list_all (\<lambda>b. 0 \<le> b \<and> b < 2 ^ 53) (BACKOFF_BASE_MS cfg) \<and>
     NODE_ENV cfg \<in> {''development'', ''test'', ''production''} \<and> pred_option is_url (ALERT_WEBHOOK_URL cfg)"

lemma z_int_string_of_int:
  assumes "0 \<le> n" and "n < 2 ^ 53"
  shows "z_int (toNumber (string_of_int n)) = Some n"
  using assms string_of_nat_digits [of "nat n"] z_int_digits [of "string_of_nat (nat n)"]
  by (simp add: string_of_int_def)

lemma z_number_env_of:
  assumes "(k, n) \<in> set (numbers_of p cfg)" and "0 < n" and "n < 2 ^ 53"
  shows "z_number (env_of db redis p cfg) (k, d) = Some n"
  using assms z_int_string_of_int [of n] by (simp add: z_number_def env_of_number)

lemma z_numbers_env_of:
  assumes "list_all (\<lambda>(k, n). 0 < n \<and> n < 2 ^ 53) (numbers_of p cfg)"
  shows "map (\<lambda>f. (fst f, z_number (env_of db redis p cfg) f)) number_fields = map (\<lambda>(k, n). (k, Some n)) (numbers_of p cfg)"
proof -
  let ?z = "\<lambda>k. z_number (env_of db redis p cfg) (k, 0)"
  have val: "z_number (env_of db redis p cfg) (k, d) = Some n" if "(k, n) \<in> set (numbers_of p cfg)" for k n d
    using z_number_env_of [OF that] assms that by (auto simp: list_all_iff)
  have "z_number (env_of db redis p cfg) f = ?z (fst f)" if f: "f \<in> set number_fields" for f
  proof -
    have "fst f \<in> set (map fst (numbers_of p cfg))" using f by (simp add: numbers_of_keys)
    then obtain n where "(fst f, n) \<in> set (numbers_of p cfg)" by auto
    from val [OF this, of "snd f"] val [OF this, of 0] show ?thesis by simp
  qed
  then have "map (\<lambda>f. (fst f, z_number (env_of db redis p cfg) f)) number_fields
      = map (\<lambda>k. (k, ?z k)) (map fst (numbers_of p cfg))"
    by (simp add: numbers_of_keys)
  then show ?thesis using val by (auto simp: comp_def)
qed

lemma backoff_env_of:
  assumes "writable is_url p cfg"
  shows "those (map z_int (z_BACKOFF_BASE_MS (env_of db redis p cfg))) = Some (BACKOFF_BASE_MS cfg)"
proof -
  have "CHR '','' \<notin> set (string_of_int b)" if "0 \<le> b" for b
    using that string_of_nat_digits [of "nat b"] by (auto simp: string_of_int_def list_all_iff is_digit_def)
  then have "split_on (CHR '','') (join_comma (map string_of_int (BACKOFF_BASE_MS cfg))) = map string_of_int (BACKOFF_BASE_MS cfg)"
    using assms by (intro split_join_comma) (auto simp: writable_def list_all_iff)
  then have "map z_int (z_BACKOFF_BASE_MS (env_of db redis p cfg)) = map Some (BACKOFF_BASE_MS cfg)"
    using assms z_int_string_of_int by (simp add: z_BACKOFF_BASE_MS_def env_of_other writable_def list_all_iff)
  moreover have "those (map Some xs) = Some xs" for xs :: "int list" by (induction xs) simp_all
  ultimately show ?thesis by simp
qed

lemma numbers_of_lookup:
  assumes "ld_numbers ld = numbers_of p cfg" and "those (map z_int (ld_BACKOFF_BASE_MS ld)) = Some (BACKOFF_BASE_MS cfg)"
    and "ld_NODE_ENV ld = NODE_ENV cfg" and "ld_ALERT_WEBHOOK_URL ld = ALERT_WEBHOOK_URL cfg"
  shows "config_of ld = Some cfg" and "number_of ld ''PORT'' = p"
  by (simp_all add: config_of_def number_of_def assms) (simp_all add: numbers_of_def)

text \<open>The configuration the schema fills in when only \<open>DATABASE_URL\<close> is set.\<close>

lemma z_int_default_backoff:
  "map z_int (map toNumber [''10000'', ''30000'', ''120000'', ''600000'', ''3600000'']) = map Some [10000, 30000, 120000, 600000, 3600000]"
  by (simp add: z_int_digits is_digit_def digits_val_def digit_val_def)

lemma load_defaults:
  assumes "db \<noteq> []" and "load_config is_url [''DATABASE_URL'' \<mapsto> db] = Up ld"
  shows "config_of ld = Some default_config"
proof -
  have nums: "ld_numbers ld = numbers_of 3000 default_config"
    using load_config_Up [OF assms(2)]
    by (auto simp: safeParse_def z_number_def number_fields_def numbers_of_def default_config_def)
  have "those (map z_int (ld_BACKOFF_BASE_MS ld)) = Some (BACKOFF_BASE_MS default_config)"
    using load_config_Up [OF assms(2)] z_int_default_backoff
    by (auto simp: safeParse_def z_BACKOFF_BASE_MS_def default_config_def)
  moreover have "ld_NODE_ENV ld = NODE_ENV default_config" "ld_ALERT_WEBHOOK_URL ld = ALERT_WEBHOOK_URL default_config"
    using load_config_Up [OF assms(2)]
    by (auto simp: safeParse_def z_NODE_ENV_def z_ALERT_WEBHOOK_URL_def default_config_def)
  ultimately show ?thesis using numbers_of_lookup(1) [OF nums] by simp
qed

text \<open>
  \<open>BACKOFF_BASE_MS\<close> is split and converted but not checked: a text that is no number is loaded as \<open>NaN\<close>,
  and a variable that is set to nothing is the schedule \<open>[0]\<close>, one attempt without a retry.
\<close>

definition backoff_env :: "string \<Rightarrow> process_env" where
  "backoff_env s = [''DATABASE_URL'' \<mapsto> ''postgres://db'', ''BACKOFF_BASE_MS'' \<mapsto> s]"

lemma backoff_unchecked:
  "\<exists>ld. load_config is_url (backoff_env ''10s'') = Up ld \<and> ld_BACKOFF_BASE_MS ld = [NaN]"
  "\<exists>ld. load_config is_url (backoff_env []) = Up ld \<and> ld_BACKOFF_BASE_MS ld = [Finite 0]"
proof -
  have up: "fieldErrors is_url (backoff_env s) = []" for s
    by (simp add: fieldErrors_def backoff_env_def z_NODE_ENV_def z_DATABASE_URL_def z_REDIS_URL_def
        z_ALERT_WEBHOOK_URL_def z_number_def number_fields_def)
  have "toNumber ''10s'' = NaN" by code_simp
  then show "\<exists>ld. load_config is_url (backoff_env ''10s'') = Up ld \<and> ld_BACKOFF_BASE_MS ld = [NaN]"
    using up [of "''10s''"] by (simp add: load_config_def safeParse_def z_BACKOFF_BASE_MS_def backoff_env_def)
  have "toNumber [] = Finite 0" by code_simp
  then show "\<exists>ld. load_config is_url (backoff_env []) = Up ld \<and> ld_BACKOFF_BASE_MS ld = [Finite 0]"
    using up [of "[]"] by (simp add: load_config_def safeParse_def z_BACKOFF_BASE_MS_def backoff_env_def)
qed

text \<open>The connection of BullMQ knows host and port only: user, password and database of the URL are lost.\<close>

lemma bull_connection_host_port:
  assumes "URL (ld_REDIS_URL ld) = Some u" and "URL (ld_REDIS_URL ld') = Some u'"
    and "hostname u = hostname u'" and "port u = port u'"
  shows "makeBullConnection URL ld = makeBullConnection URL ld'"
  using assms by (simp add: makeBullConnection_def)

subsection \<open>Properties\<close>

text \<open>
  C32: the environment carries a configuration exactly. Written out variable by variable, every
  configuration with positive numbers that are exact as doubles is read back by the schema as it was, with
  the two URLs and the port.
\<close>

theorem config_roundtrip:
  assumes "writable is_url p cfg" and "db \<noteq> []" and "redis \<noteq> []"
  shows "\<exists>ld. load_config is_url (env_of db redis p cfg) = Up ld \<and> config_of ld = Some cfg \<and>
    number_of ld ''PORT'' = p \<and> ld_DATABASE_URL ld = db \<and> ld_REDIS_URL ld = redis"
proof -
  let ?env = "env_of db redis p cfg"
  have nums: "map (\<lambda>f. (fst f, z_number ?env f)) number_fields = map (\<lambda>(k, n). (k, Some n)) (numbers_of p cfg)"
    using assms(1) z_numbers_env_of by (simp add: writable_def)
  then have "(fst f, z_number ?env f) \<in> set (map (\<lambda>(k, n). (k, Some n)) (numbers_of p cfg))"
    if "f \<in> set number_fields" for f
    using that by (metis (no_types, lifting) image_eqI list.set_map)
  then have "filter (\<lambda>f. z_number ?env f = None) number_fields = []" by (fastforce simp: filter_empty_conv)
  moreover have others: "z_NODE_ENV ?env = Some (NODE_ENV cfg)" "z_DATABASE_URL ?env = Some db"
      "z_REDIS_URL ?env = Some redis" "z_ALERT_WEBHOOK_URL is_url ?env = Some (ALERT_WEBHOOK_URL cfg)"
    using assms by (auto simp: z_NODE_ENV_def z_DATABASE_URL_def z_REDIS_URL_def z_ALERT_WEBHOOK_URL_def
        env_of_other writable_def Suc_le_eq split: option.splits)
  ultimately have ok: "fieldErrors is_url ?env = []" by (simp add: fieldErrors_def)
  define ld where "ld = projr (safeParse is_url ?env)"
  have ld: "load_config is_url ?env = Up ld" "ld_NODE_ENV ld = NODE_ENV cfg" "ld_DATABASE_URL ld = db"
      "ld_REDIS_URL ld = redis" "ld_ALERT_WEBHOOK_URL ld = ALERT_WEBHOOK_URL cfg"
      "ld_BACKOFF_BASE_MS ld = z_BACKOFF_BASE_MS ?env"
    using ok others by (simp_all add: ld_def load_config_def safeParse_def)
  have "ld_numbers ld = map (map_prod id the) (map (\<lambda>f. (fst f, z_number ?env f)) number_fields)"
    using ok by (simp add: ld_def safeParse_def)
  then have "ld_numbers ld = numbers_of p cfg" unfolding nums by (simp add: comp_def case_prod_beta)
  from numbers_of_lookup [OF this] show ?thesis
    using ld backoff_env_of [OF assms(1)] by (intro exI [of _ ld]) simp
qed

theorem config_roundtrip_witness:
  "\<exists>ld. load_config (\<lambda>_. False) (env_of ''postgres://db'' ''redis://r'' 3001 default_config) = Up ld \<and>
     config_of ld = Some default_config \<and> number_of ld ''PORT'' = 3001"
proof -
  have "writable (\<lambda>_. False) 3001 default_config"
    by (simp add: writable_def numbers_of_def default_config_def)
  from config_roundtrip [OF this, of "''postgres://db''" "''redis://r''"] show ?thesis by auto
qed

text \<open>
  The API serves only with a valid configuration. When the process is up, the environment passed the
  schema, Redis was connected before, it listens on the configured port, and every number of the
  configuration is positive; otherwise the process has ended with status 1.
\<close>

lemma api_up_configured:
  "(case api_process is_url URL connect listen env of
      Exit n bad \<Rightarrow> n = 1 \<and> (bad \<noteq> [] \<longleftrightarrow> fieldErrors is_url env \<noteq> [])
    | Up q \<Rightarrow> 0 < q \<and> connect = Inr () \<and> listen ''0.0.0.0'' q = Inr () \<and>
        (\<exists>ld. load_config is_url env = Up ld \<and> z_number env (''PORT'', 3000) = Some q \<and>
           (case config_of ld of None \<Rightarrow> True | Some cfg \<Rightarrow> config_ok cfg)))"
proof (cases "load_config is_url env")
  case (Exit n bad)
  then show ?thesis by (auto simp: api_process_def load_config_def safeParse_def split: sum.splits if_splits)
next
  case (Up ld)
  have port: "(''PORT'', 3000) \<in> set number_fields" by (simp add: number_fields_def)
  have "z_number env (''PORT'', 3000) = Some (number_of ld ''PORT'')" "0 < number_of ld ''PORT''"
    using number_of_loaded [OF Up port] number_of_pos [OF Up port] by auto
  then show ?thesis
    using Up config_of_ok [OF Up] load_config_Up(1) [OF Up]
    by (auto simp: api_process_def api_start_def split: sum.splits option.splits)
qed

end
