(* ===== verification/Explain_Check.thy ===== *)
theory Explain_Check
  imports Start_Up
begin

text \<open>
  \<open>src/scripts/explain-check.ts\<close>: the check of the query plans. The connection and the plans come from
  PostgreSQL and are arguments; modelled are the choice of the URL, the hot queries by their clauses, the
  walk over a plan tree, which collects into a shared array, the loop with what it prints, and the exit code.
\<close>

datatype plan_node = Plan_node (node_type: string) (relation_name: "string option") (plans: "plan_node list")

definition SEQ_SCAN_ALERT_TABLES :: "string set" where
  "SEQ_SCAN_ALERT_TABLES = {''deliveries'', ''delivery_attempts''}"

text \<open>The test of one node; an empty relation name is falsy.\<close>

definition alerting :: "string \<Rightarrow> string option \<Rightarrow> string list" where
  "alerting ty rel = (case rel of
     None \<Rightarrow> []
   | Some r \<Rightarrow> if ty = ''Seq Scan'' \<and> r \<noteq> [] \<and> r \<in> SEQ_SCAN_ALERT_TABLES then [r] else [])"

text \<open>\<open>found\<close> is the array the recursive calls push to.\<close>

fun findSeqScans :: "plan_node \<Rightarrow> string list \<Rightarrow> string list" where
  "findSeqScans (Plan_node ty rel children) found =
     fold (\<lambda>child acc. findSeqScans child acc) children (found @ alerting ty rel)"

record explain_state =
  xs_failed :: bool
  xs_log :: "string list"

definition dash :: string where
  "dash = [CHR 0xE2, CHR 0x80, CHR 0x94]"

fun join_sep :: "string \<Rightarrow> string list \<Rightarrow> string" where
  "join_sep sep [] = []"
| "join_sep sep [x] = x"
| "join_sep sep (x # y # zs) = x @ sep @ join_sep sep (y # zs)"

text \<open>A statement that is explained: its label, its clauses as texts, and its parameters.\<close>

record hot_query =
  hq_label :: string
  hq_from :: "string list"
  hq_where :: "string list"
  hq_order_by :: "string list"
  hq_for_update :: bool
  hq_limit :: "nat option"
  hq_params :: "json list"

definition nil_uuid :: string where
  "nil_uuid = ''00000000-0000-0000-0000-000000000000''"

definition HOT_QUERIES :: "hot_query list" where
  "HOT_QUERIES =
     [\<lparr>hq_label = ''list deliveries '' @ dash @ '' default (status filter)'',
       hq_from = [''deliveries d'', ''events ev''],
       hq_where = [''ev.id = d.event_id'', ''d.status = ANY($1::text[])''],
       hq_order_by = [''d.updated_at DESC'', ''d.id DESC''], hq_for_update = False, hq_limit = Some 51,
       hq_params = [JArr (map JStr [''PENDING'', ''DELIVERING'', ''DELIVERED'', ''FAILED'', ''DLQ''])]\<rparr>,
      \<lparr>hq_label = ''list deliveries '' @ dash @ '' by endpoint_id'',
       hq_from = [''deliveries d'', ''events ev''],
       hq_where = [''ev.id = d.event_id'', ''d.endpoint_id = $1::uuid''],
       hq_order_by = [''d.updated_at DESC'', ''d.id DESC''], hq_for_update = False, hq_limit = Some 51,
       hq_params = [JStr nil_uuid]\<rparr>,
      \<lparr>hq_label = ''getDetail '' @ dash @ '' delivery_attempts lookup'',
       hq_from = [''delivery_attempts''], hq_where = [''delivery_id = $1::uuid''],
       hq_order_by = [''attempt_number ASC''], hq_for_update = False, hq_limit = None,
       hq_params = [JStr nil_uuid]\<rparr>,
      \<lparr>hq_label = ''reconciler claimUnenqueued sweep'',
       hq_from = [''deliveries''],
       hq_where = [''enqueued = false'', ''created_at < now() - make_interval(secs => $1)''],
       hq_order_by = [], hq_for_update = True, hq_limit = Some 500,
       hq_params = [JNum ''60'']\<rparr>]"

text \<open>One query with the plan that came back.\<close>

definition explain_query :: "string \<Rightarrow> plan_node option \<Rightarrow> explain_state \<Rightarrow> explain_state" where
  "explain_query label plan st =
     (case plan of
        None \<Rightarrow> st\<lparr>xs_log := xs_log st @ [''  SKIP (no plan returned): '' @ label]\<rparr>
      | Some p \<Rightarrow>
          let seqScans = findSeqScans p [] in
          if seqScans \<noteq> [] then
            st\<lparr>xs_failed := True,
               xs_log := xs_log st @ [''  FAIL '' @ dash @ '' Seq Scan on ['' @ join_sep '', '' seqScans @ '']: '' @ label]\<rparr>
          else st\<lparr>xs_log := xs_log st @ [''  OK: '' @ label]\<rparr>)"

text \<open>The loop: the answer to an EXPLAIN may be an error, which ends the script.\<close>

fun explain_loop :: "(hot_query \<Rightarrow> exn + plan_node option) \<Rightarrow> hot_query list \<Rightarrow> explain_state \<Rightarrow> (exn + unit) \<times> explain_state" where
  "explain_loop explain [] st = (Inr (), st)"
| "explain_loop explain (q # qs) st = (case explain q of
     Inl e \<Rightarrow> (Inl e, st)
   | Inr plan \<Rightarrow> explain_loop explain qs (explain_query (hq_label q) plan st))"

definition DB_URL :: "process_env \<Rightarrow> string option" where
  "DB_URL env = (case env ''DATABASE_URL'' of Some u \<Rightarrow> Some u | None \<Rightarrow> env ''PGBOUNCER_URL'')"

text \<open>
  The session with the database: connecting to a URL, \<open>SET enable_seqscan = off\<close>, EXPLAIN and the end
  of the connection, each of which may throw.
\<close>

record pg_session =
  pg_connect :: "string \<Rightarrow> exn + unit"
  pg_set :: "exn + unit"
  pg_explain :: "hot_query \<Rightarrow> exn + plan_node option"
  pg_end :: "exn + unit"

text \<open>The script: its exit code and what it printed. An uncaught error ends it with 1.\<close>

definition explain_check :: "process_env \<Rightarrow> pg_session \<Rightarrow> nat \<times> string list" where
  "explain_check env pg = (case DB_URL env of
     None \<Rightarrow> (1, [''ERROR: DATABASE_URL or PGBOUNCER_URL must be set''])
   | Some u \<Rightarrow>
       if u = [] then (1, [''ERROR: DATABASE_URL or PGBOUNCER_URL must be set''])
       else case (pg_connect pg u, pg_set pg) of
         (Inr _, Inr _) \<Rightarrow>
           (case explain_loop (pg_explain pg) HOT_QUERIES \<lparr>xs_failed = False, xs_log = []\<rparr> of
              (Inl e, st) \<Rightarrow> (1, xs_log st)
            | (Inr _, st) \<Rightarrow>
                (case pg_end pg of
                   Inl e \<Rightarrow> (1, xs_log st)
                 | Inr _ \<Rightarrow>
                     if xs_failed st
                     then (1, xs_log st @ [CHR 0x0A # ''explain-check: one or more hot queries will seq-scan '' @ dash @ '' add missing indexes''])
                     else (0, xs_log st @ [CHR 0x0A # ''explain-check: all hot queries use indexes '' @ [CHR 0xE2, CHR 0x9C, CHR 0x93]])))
       | _ \<Rightarrow> (1, []))"

subsection \<open>Reference definitions\<close>

text \<open>The nodes of a plan in the order of the walk.\<close>

fun preorder :: "plan_node \<Rightarrow> plan_node list" where
  "preorder (Plan_node ty rel children) = Plan_node ty rel children # concat (map preorder children)"

definition seq_scan_on_hot_table :: "plan_node \<Rightarrow> bool" where
  "seq_scan_on_hot_table p \<longleftrightarrow>
     node_type p = ''Seq Scan'' \<and> (relation_name p = Some ''deliveries'' \<or> relation_name p = Some ''delivery_attempts'')"

lemma alerting_filter:
  "alerting ty rel = map (\<lambda>p. the (relation_name p)) (filter seq_scan_on_hot_table [Plan_node ty rel children])"
  by (auto simp: alerting_def seq_scan_on_hot_table_def SEQ_SCAN_ALERT_TABLES_def split: option.splits)

lemma fold_append:
  assumes "\<And>x acc. x \<in> set xs \<Longrightarrow> f x acc = acc @ g x"
  shows "fold f xs acc = acc @ concat (map g xs)"
  using assms by (induction xs arbitrary: acc) simp_all

lemma findSeqScans_preorder:
  "findSeqScans p found = found @ map (\<lambda>p. the (relation_name p)) (filter seq_scan_on_hot_table (preorder p))"
proof (induction p arbitrary: found)
  case (Plan_node ty rel children)
  let ?h = "\<lambda>p. map (\<lambda>p. the (relation_name p)) (filter seq_scan_on_hot_table (preorder p))"
  have "fold (\<lambda>child acc. findSeqScans child acc) children (found @ alerting ty rel) =
      (found @ alerting ty rel) @ concat (map ?h children)"
    by (rule fold_append) (rule Plan_node)
  moreover have "concat (map ?h children) =
      map (\<lambda>p. the (relation_name p)) (filter seq_scan_on_hot_table (concat (map preorder children)))"
    by (induction children) simp_all
  ultimately show ?case by (simp add: alerting_filter [of ty rel children])
qed

definition scans_hot_table :: "plan_node option \<Rightarrow> bool" where
  "scans_hot_table plan \<longleftrightarrow> (case plan of None \<Rightarrow> False | Some p \<Rightarrow> list_ex seq_scan_on_hot_table (preorder p))"

lemma explain_query_failed:
  "xs_failed (explain_query label plan st) \<longleftrightarrow> xs_failed st \<or> scans_hot_table plan"
  by (cases plan) (auto simp: explain_query_def Let_def findSeqScans_preorder filter_empty_conv scans_hot_table_def list_ex_iff)

lemma explain_loop_ok:
  "fst (explain_loop explain qs st) = Inr () \<longleftrightarrow> list_all (\<lambda>q. \<not> isl (explain q)) qs"
  by (induction qs arbitrary: st) (auto split: sum.splits)

lemma explain_loop_failed:
  "list_all (\<lambda>q. \<not> isl (explain q)) qs \<Longrightarrow>
    xs_failed (snd (explain_loop explain qs st)) \<longleftrightarrow> xs_failed st \<or> list_ex (\<lambda>q. scans_hot_table (projr (explain q))) qs"
  by (induction qs arbitrary: st) (auto simp: explain_query_failed split: sum.splits)

subsection \<open>Properties\<close>

text \<open>
  The plan check reports exactly what it is meant to. The recursive walk that pushes into a shared array
  finds the sequential scans on the two hot tables, in the preorder of the plan tree; and the script
  succeeds exactly when a URL is set, no call of the database fails, and no plan that came back for a hot
  query has such a scan anywhere in its tree.
\<close>

lemma explain_check_exact:
  "findSeqScans p [] = map (\<lambda>n. the (relation_name n)) (filter seq_scan_on_hot_table (preorder p)) \<and>
   (fst (explain_check env pg) = 0 \<longleftrightarrow>
      (\<exists>u. DB_URL env = Some u \<and> u \<noteq> [] \<and> \<not> isl (pg_connect pg u)) \<and> \<not> isl (pg_set pg) \<and> \<not> isl (pg_end pg) \<and>
      list_all (\<lambda>q. \<not> isl (pg_explain pg q) \<and> \<not> scans_hot_table (projr (pg_explain pg q))) HOT_QUERIES)"
proof -
  let ?init = "\<lparr>xs_failed = False, xs_log = []\<rparr>"
  obtain r st where loop: "explain_loop (pg_explain pg) HOT_QUERIES ?init = (r, st)" by fastforce
  have r: "r = Inr () \<longleftrightarrow> list_all (\<lambda>q. \<not> isl (pg_explain pg q)) HOT_QUERIES"
    using explain_loop_ok [of "pg_explain pg" HOT_QUERIES ?init] loop by simp
  have st: "xs_failed st \<longleftrightarrow> list_ex (\<lambda>q. scans_hot_table (projr (pg_explain pg q))) HOT_QUERIES" if "r = Inr ()"
    using explain_loop_failed [of "pg_explain pg" HOT_QUERIES ?init] loop r that by simp
  have "fst (explain_check env pg) = 0 \<longleftrightarrow>
      (\<exists>u. DB_URL env = Some u \<and> u \<noteq> [] \<and> \<not> isl (pg_connect pg u)) \<and> \<not> isl (pg_set pg) \<and> \<not> isl (pg_end pg) \<and> r = Inr () \<and> \<not> xs_failed st"
    by (auto simp: explain_check_def loop split: option.splits sum.splits)
  then show ?thesis using r st by (auto simp: findSeqScans_preorder list_all_iff list_ex_iff)
qed

end
