(* ===== verification/Load_Test.thy ===== *)
theory Load_Test
  imports Api_Types
begin

text \<open>
  The k6 scripts of \<open>src/loadtest/\<close>: their options, the requests their iterations send, the checks they make
  on the replies, the metrics they keep and their set-up. k6 itself (how it runs an executor and judges a
  threshold) and the uuid generator are arguments or left out.
\<close>

subsection \<open>\<open>lib.js\<close>\<close>

record k6_env =
  k6_base_url :: string
  k6_endpoint_id :: string
  k6_client_id :: string

definition uniqueIdemKey :: "nat \<Rightarrow> nat \<Rightarrow> string \<Rightarrow> string" where
  "uniqueIdemKey vu iter uuid = string_of_nat vu @ ''-'' @ string_of_nat iter @ ''-'' @ uuid"

definition buildEventBody :: "k6_env \<Rightarrow> string \<Rightarrow> json option \<Rightarrow> ms \<Rightarrow> string" where
  "buildEventBody env eventType payload now = json_stringify (JObj
     [(''client_id'', JStr (k6_client_id env)), (''event_type'', JStr eventType),
      (''payload'', case payload of None \<Rightarrow> JObj [(''ts'', JNum (string_of_int now))] | Some p \<Rightarrow> p),
      (''endpoint_id'', JStr (k6_endpoint_id env))])"

record k6_params =
  kp_headers :: "(string \<times> string) list"
  kp_tags :: "(string \<times> string) list"

definition postParams :: "string \<Rightarrow> (string \<times> string) list \<Rightarrow> k6_params" where
  "postParams idemKey tags =
     \<lparr>kp_headers = [(''Content-Type'', ''application/json''), (''Idempotency-Key'', idemKey)], kp_tags = tags\<rparr>"

text \<open>\<open>params.headers['Idempotency-Key'] = key\<close>\<close>

definition set_idem_key :: "string \<Rightarrow> k6_params \<Rightarrow> k6_params" where
  "set_idem_key key p = p\<lparr>kp_headers := map (\<lambda>(k, v). (k, if k = ''Idempotency-Key'' then key else v)) (kp_headers p)\<rparr>"

record k6_response =
  kr_status :: int
  kr_headers :: "(string \<times> string) list"
  kr_body :: string

definition k6_env_of :: "(string \<Rightarrow> string option) \<Rightarrow> k6_env" where
  "k6_env_of env = (let or = (\<lambda>k dflt. case env k of None \<Rightarrow> dflt | Some v \<Rightarrow> if v = [] then dflt else v) in
     \<lparr>k6_base_url = or ''BASE_URL'' ''http://localhost:3000'', k6_endpoint_id = or ''ENDPOINT_ID'' [],
      k6_client_id = or ''CLIENT_ID'' ''loadtest''\<rparr>)"

subsection \<open>Options\<close>

text \<open>Executors with their parameters, durations as k6 writes them; and thresholds by metric.\<close>

datatype executor =
    Ramping_vus nat "(string \<times> nat) list" string
  | Constant_arrival_rate "int option" string string nat nat
  | Constant_vus nat string string

record k6_options =
  ko_scenarios :: "(string \<times> executor) list"
  ko_thresholds :: "(string \<times> string list) list"

definition baseline_options :: k6_options where
  "baseline_options =
     \<lparr>ko_scenarios = [(''baseline'', Ramping_vus 0 [(''5m'', 2000), (''10m'', 2000), (''30s'', 0)] ''30s'')],
      ko_thresholds =
        [(''http_req_duration{scenario:baseline}'', [''p(95)<500'']), (''http_req_failed{scenario:baseline}'', [''rate<0.01'']),
         (''event_post_duration'', [''p(95)<500'']), (''event_post_errors'', [''rate<0.01''])]\<rparr>"

definition saturation_stages :: "(string \<times> nat) list" where
  "saturation_stages =
     [(''1m'', 500), (''2m'', 500), (''1m'', 1000), (''2m'', 1000), (''1m'', 2000), (''2m'', 2000),
      (''1m'', 3000), (''2m'', 3000), (''1m'', 4000), (''2m'', 4000), (''30s'', 0)]"

definition saturation_options :: k6_options where
  "saturation_options =
     \<lparr>ko_scenarios = [(''saturation'', Ramping_vus 0 saturation_stages ''30s'')],
      ko_thresholds = [(''saturation_req_errors'', [''rate<0.20''])]\<rparr>"

definition abuse_options :: k6_options where
  "abuse_options =
     \<lparr>ko_scenarios = [(''abuse'', Ramping_vus 0 [(''2m'', 200), (''5m'', 200), (''30s'', 0)] ''30s'')],
      ko_thresholds =
        [(''http_req_duration{scenario:abuse}'', [''p(95)<500'']), (''http_req_failed{scenario:abuse}'', [''rate<0.01'']),
         (''abuse_ingest_errors'', [''rate<0.01''])]\<rparr>"

text \<open>\<open>parseInt(__ENV.BURST_RATE || '2000', 10)\<close>, and a template with a number that may be \<open>NaN\<close>.\<close>

definition burst_number :: "(string \<Rightarrow> string option) \<Rightarrow> string \<Rightarrow> string \<Rightarrow> int option" where
  "burst_number env k dflt = parseInt (case env k of None \<Rightarrow> dflt | Some v \<Rightarrow> if v = [] then dflt else v)"

definition template_number :: "int option \<Rightarrow> string" where
  "template_number n = (case n of None \<Rightarrow> ''NaN'' | Some x \<Rightarrow> string_of_int x)"

definition backpressure_options :: "(string \<Rightarrow> string option) \<Rightarrow> k6_options" where
  "backpressure_options env = (let secs = template_number (burst_number env ''BURST_SECONDS'' ''30'') @ ''s'' in
     \<lparr>ko_scenarios =
        [(''burst'', Constant_arrival_rate (burst_number env ''BURST_RATE'' ''2000'') ''1s'' secs 500 2000),
         (''drain'', Constant_vus 10 ''90s'' secs)],
      ko_thresholds = [(''backpressure_429s'', [''count>0''])]\<rparr>)"

subsection \<open>Checks\<close>

definition status_2xx :: "k6_response \<Rightarrow> bool" where
  "status_2xx r \<longleftrightarrow> 200 \<le> kr_status r \<and> kr_status r < 300"

text \<open>\<open>typeof\<close> of a missing member is \<open>undefined\<close>; on \<open>null\<close> the access throws and the check is false.\<close>

definition has_delivery_id :: "k6_response \<Rightarrow> bool" where
  "has_delivery_id r = (case json_parse (kr_body r) of
     None \<Rightarrow> False
   | Some j \<Rightarrow> has ''delivery_id'' is_string j \<or> has ''id'' is_string j)"

definition baseline_ok :: "k6_response \<Rightarrow> bool" where
  "baseline_ok r \<longleftrightarrow> status_2xx r \<and> has_delivery_id r"

definition accepted_or_shed :: "k6_response \<Rightarrow> bool" where
  "accepted_or_shed r \<longleftrightarrow> kr_status r = 202 \<or> kr_status r = 200 \<or> kr_status r = 429"

definition shed_has_retry_after :: "k6_response \<Rightarrow> bool" where
  "shed_has_retry_after r \<longleftrightarrow> kr_status r \<noteq> 429 \<or> map_of (kr_headers r) ''Retry-After'' \<noteq> None"

subsection \<open>Iterations\<close>

definition baseline_request :: "k6_env \<Rightarrow> ms \<Rightarrow> string \<Rightarrow> string \<times> k6_params" where
  "baseline_request env now key =
     (buildEventBody env ''payment.completed'' (Some (JObj [(''amount'', JNum ''100''), (''currency'', JStr ''USD'')])) now,
      postParams key [(''name'', ''post_event'')])"

text \<open>The key of \<open>postParams\<close> is replaced by a second one.\<close>

definition backpressure_request :: "k6_env \<Rightarrow> ms \<Rightarrow> string \<Rightarrow> string \<Rightarrow> string \<times> k6_params" where
  "backpressure_request env now key key' =
     (buildEventBody env ''backpressure.probe'' None now, set_idem_key key' (postParams key [(''name'', ''bp_event'')]))"

record bp_counters =
  bp_429s :: nat
  bp_202s :: nat
  bp_errors :: "bool list"

definition backpressure_count :: "k6_response \<Rightarrow> bp_counters \<Rightarrow> bp_counters" where
  "backpressure_count r c = c\<lparr>
     bp_429s := (if kr_status r = 429 then Suc (bp_429s c) else bp_429s c),
     bp_202s := (if kr_status r \<noteq> 429 \<and> (kr_status r = 202 \<or> kr_status r = 200) then Suc (bp_202s c) else bp_202s c),
     bp_errors := bp_errors c @ [\<not> (accepted_or_shed r \<and> shed_has_retry_after r)]\<rparr>"

definition backpressure_sleep :: "k6_response \<Rightarrow> nat" where
  "backpressure_sleep r = (if kr_status r = 429 then 5 else 0)"

definition vuBucket :: "nat \<Rightarrow> string" where
  "vuBucket vu =
     (if vu \<le> 500 then ''0500'' else if vu \<le> 1000 then ''1000'' else if vu \<le> 2000 then ''2000''
      else if vu \<le> 3000 then ''3000'' else ''4000'')"

definition saturation_request :: "k6_env \<Rightarrow> ms \<Rightarrow> nat \<Rightarrow> string \<Rightarrow> string \<Rightarrow> string \<times> k6_params" where
  "saturation_request env now vu key key' =
     (buildEventBody env ''saturation.probe'' (Some (JObj [(''ts'', JNum (string_of_int now)), (''vu'', JNum (string_of_nat vu)),
        (''bucket'', JStr (vuBucket vu))])) now,
      set_idem_key key' (postParams key [(''name'', ''saturation_event''), (''vu_bucket'', vuBucket vu)]))"

definition abuse_request :: "k6_env \<Rightarrow> string \<Rightarrow> ms \<Rightarrow> nat \<Rightarrow> string \<Rightarrow> string \<Rightarrow> string \<times> k6_params" where
  "abuse_request env endpointId now vu key key' =
     (buildEventBody (env\<lparr>k6_endpoint_id := endpointId\<rparr>) ''abuse.test''
        (Some (JObj [(''ts'', JNum (string_of_int now)), (''vu'', JNum (string_of_nat vu))])) now,
      set_idem_key key' (postParams key [(''name'', ''abuse_ingest'')]))"

text \<open>What the iterations add to their rates; the saturation script tags it with the bucket.\<close>

definition baseline_error :: "k6_response \<Rightarrow> bool" where
  "baseline_error r \<longleftrightarrow> \<not> baseline_ok r"

definition saturation_error :: "nat \<Rightarrow> k6_response \<Rightarrow> bool \<times> string" where
  "saturation_error vu r = (\<not> status_2xx r, vuBucket vu)"

definition abuse_error :: "k6_response \<Rightarrow> bool" where
  "abuse_error r \<longleftrightarrow> \<not> status_2xx r"

subsection \<open>Set-up\<close>

definition healthy_setup :: "string \<Rightarrow> k6_env \<Rightarrow> int \<Rightarrow> string + unit" where
  "healthy_setup missing env status =
     (if k6_endpoint_id env = [] then Inl missing
      else if status \<noteq> 200 then Inl (''Stack not healthy: '' @ string_of_int status)
      else Inr ())"

definition saturation_setup :: "k6_env \<Rightarrow> int \<Rightarrow> string + unit" where
  "saturation_setup = healthy_setup ''ENDPOINT_ID env var is required for saturation test.''"

definition backpressure_setup :: "k6_env \<Rightarrow> int \<Rightarrow> string + unit" where
  "backpressure_setup = healthy_setup ''ENDPOINT_ID env var is required''"

text \<open>The endpoint of the abuse test: the chaos route of the test receiver with its rates in the query.\<close>

definition chaos_url :: "(string \<Rightarrow> string option) \<Rightarrow> string" where
  "chaos_url env = (case env ''RECEIVER_URL'' of None \<Rightarrow> ''http://test-receiver:4000''
     | Some u \<Rightarrow> if u = [] then ''http://test-receiver:4000'' else u) @ ''/chaos?error_rate=0.30&timeout_rate=0.05''"

definition abuse_endpoint_body :: "k6_env \<Rightarrow> string \<Rightarrow> string" where
  "abuse_endpoint_body env url = json_stringify (JObj
     [(''client_id'', JStr (k6_client_id env)), (''url'', JStr url), (''signing_secret'', JStr ''whsec_test_receiver_secret'')])"

text \<open>
  The baseline waits for the stack, up to 30 tries two seconds apart: \<open>Inr\<close> the number of tries that
  failed, \<open>Inl\<close> the last status.
\<close>

fun wait_healthy :: "nat \<Rightarrow> (nat \<Rightarrow> int) \<Rightarrow> nat \<Rightarrow> int + nat" where
  "wait_healthy 0 status i = Inl (status (i - 1))"
| "wait_healthy (Suc n) status i = (if status i = 200 then Inr i else wait_healthy n status (Suc i))"

definition baseline_setup :: "(nat \<Rightarrow> int) \<Rightarrow> int + nat" where
  "baseline_setup status = wait_healthy 30 status 0"

definition abuse_setup :: "k6_response \<Rightarrow> string + string" where
  "abuse_setup r =
     (if kr_status r < 200 \<or> 300 \<le> kr_status r then Inl ''Failed to create chaos endpoint''
      else case json_parse (kr_body r) of
             None \<Rightarrow> Inl ''SyntaxError''
           | Some j \<Rightarrow> (case member ''id'' j of Some (JStr i) \<Rightarrow> Inr i | _ \<Rightarrow> Inr ''undefined''))"

subsection \<open>What the checks see of the API\<close>

definition k6_of_reply :: "reply \<Rightarrow> k6_response" where
  "k6_of_reply r = \<lparr>kr_status = rp_code r, kr_headers = rp_headers r, kr_body = json_stringify (rp_body r)\<rparr>"

text \<open>Iterations never share an idempotency key, whatever the generated uuids are.\<close>

lemma uniqueIdemKey_inject:
  assumes "uniqueIdemKey vu iter u = uniqueIdemKey vu' iter' u'"
  shows "vu = vu' \<and> iter = iter'"
proof -
  have dash: "CHR ''-'' \<notin> set (string_of_nat n)" for n by (rule string_of_nat_no_char) (simp add: is_digit_def)
  have inj: "string_of_nat m = string_of_nat n \<Longrightarrow> m = n" for m n by (metis digits_val_string_of_nat)
  have "string_of_nat vu = string_of_nat vu' \<and> string_of_nat iter @ ''-'' @ u = string_of_nat iter' @ ''-'' @ u'"
    using assms dash append_sep_inject [of "string_of_nat vu" "CHR ''-''"] by (simp add: uniqueIdemKey_def)
  then show ?thesis
    using dash inj append_sep_inject [of "string_of_nat iter" "CHR ''-''" u "string_of_nat iter'" u'] by auto
qed

text \<open>An accepted event passes the checks of the baseline, and every shed one names its delay.\<close>

lemma event_reply_passes: "baseline_ok (k6_of_reply (event_reply res))"
proof -
  have "json_ok (rp_body (event_reply res))" by (simp add: event_reply_def json_reply_def)
  then show ?thesis
    by (auto simp: baseline_ok_def status_2xx_def has_delivery_id_def k6_of_reply_def json_parse_printed)
      (simp_all add: event_reply_def json_reply_def has_def member_def obj_get_def)
qed

lemma shed_reply_has_retry_after: "shed_has_retry_after (k6_of_reply (errorHandler e))"
  by (cases e) (auto simp: shed_has_retry_after_def k6_of_reply_def errorHandler_def)

lemma post_events_passes:
  assumes "post_events R Q cfg pg schema now env req r q s = (Replied res, r', q', s')"
  shows "shed_has_retry_after (k6_of_reply (respond res))" and "\<And>rp. res = Inr rp \<Longrightarrow> baseline_ok (k6_of_reply rp)"
proof -
  have rep: "\<exists>x. rp = event_reply x" if "res = Inr rp" for rp
    using assms that by (auto simp: post_events_def split: sum.splits prod.splits if_splits)
  show "baseline_ok (k6_of_reply rp)" if "res = Inr rp" for rp using rep [OF that] event_reply_passes by blast
  show "shed_has_retry_after (k6_of_reply (respond res))"
  proof (cases res)
    case (Inr rp)
    then obtain x where "rp = event_reply x" using rep by blast
    then show ?thesis using Inr by (simp add: shed_has_retry_after_def k6_of_reply_def event_reply_def json_reply_def)
  qed (simp add: shed_reply_has_retry_after)
qed

text \<open>The wait ends: it tries at most 30 times and reports a healthy stack only after a 200.\<close>

lemma wait_healthy_Inr: "wait_healthy n status i = Inr k \<Longrightarrow> status k = 200 \<and> i \<le> k \<and> k < i + n"
  by (induction n status i rule: wait_healthy.induct) (auto split: if_splits)

lemma wait_healthy_Inl: "wait_healthy n status i = Inl st \<Longrightarrow> \<forall>k. i \<le> k \<and> k < i + n \<longrightarrow> status k \<noteq> 200"
proof (induction n status i rule: wait_healthy.induct)
  case (2 n status i)
  then show ?case by (auto split: if_splits) (metis Suc_leI add_Suc add_Suc_right le_neq_implies_less)
qed simp

text \<open>
  The buckets of the saturation test are its steps: a virtual user is counted under the smallest number of
  users of a stage that is at least its own number.
\<close>

lemma bucket_is_stage:
  assumes "1 \<le> vu" and "vu \<le> 4000"
  shows "\<exists>n \<in> snd ` set saturation_stages. vu \<le> n \<and> digits_val (vuBucket vu) = n \<and>
    (\<forall>m \<in> snd ` set saturation_stages. vu \<le> m \<longrightarrow> n \<le> m)"
  using assms by (auto simp: vuBucket_def saturation_stages_def digits_val_def digit_val_def)

end
