(* ===== verification/Spec2Isabelle.thy ===== *)
theory Spec2Isabelle
  imports System_Leased Job_Life Test_Receiver Dashboard_Live Migrations Explain_Check Load_Test
begin

text \<open>
  \<^bold>\<open>A verification development for the webhook delivery engine.\<close>

  \<^bold>\<open>The program.\<close> Clients register endpoints and post events to an HTTP API. Each event becomes one
  delivery in PostgreSQL and one job in a BullMQ queue. Workers take jobs, send a signed HTTP request
  to the endpoint and record the attempt; a failed attempt is retried with backoff by the queue, and
  a job that used up its attempts is moved to a dead letter queue (DLQ), from where an operator can
  retry it. Redis holds, per delivery, a lock with a heartbeat and, per endpoint, a circuit breaker and
  a bucket of in-flight tokens. A reconciler re-enqueues deliveries whose job was lost. The database
  is the truth; five audit queries (\<open>src/scripts/invariants.sql\<close>) say what must hold of it. A dashboard
  in the browser polls the read routes of the API.

  \<^bold>\<open>The theories and the code.\<close> Paths are under \<open>src/src/\<close> unless they start with \<open>src/\<close>.
  \<^item> \<open>Prelude\<close>, \<open>Js_Lib\<close>: time (milliseconds in JavaScript, microseconds in PostgreSQL), JSON values,
    decimal and hexadecimal strings, \<open>JSON.stringify\<close>, \<open>toISOString\<close>, tables as lists of rows.
    \<open>Json_Parse\<close>, \<open>Js_Date\<close>, \<open>Js_Text\<close>: the parts of the JavaScript library that read texts back
    (\<open>JSON.parse\<close>, \<open>new Date\<close>, \<open>Number\<close>, \<open>split\<close>, \<open>trim\<close>, \<open>toUpperCase\<close>), with the inverse laws and the
    rounding to doubles.
  \<^item> \<open>Config\<close> (\<open>shared/config.ts\<close>), \<open>Errors\<close> (\<open>api/errors.ts\<close> and the error handler of \<open>api/app.ts\<close>):
    the exceptions as values of \<open>exn\<close>; a function that can throw returns \<open>exn + 'a\<close>.
  \<^item> \<open>Start_Up\<close>: \<open>shared/config.ts\<close> again, as it reads the environment field by field or ends the process; the
    options of BullMQ's connection, of \<open>redis/client.ts\<close>, \<open>db/pool.ts\<close> and \<open>shared/logger.ts\<close>; and the start
    of \<open>api/index.ts\<close>.
  \<^item> \<open>Migrations\<close> (\<open>src/migrations/\<close>): both migrations, up and down, as statements on a catalog of tables
    and indexes with PostgreSQL's errors.
  \<^item> \<open>Database\<close> (\<open>src/migrations/\<close>, \<open>withTx\<close> of \<open>db/pool.ts\<close>): the five tables with their keys,
    references and checks; a transaction is applied as a whole or not at all, and what the network does
    to it (\<open>tx_fate\<close>: no connection, failed COMMIT, applied COMMIT with a lost answer) is an argument.
  \<^item> \<open>Deliveries_Repo\<close> (\<open>db/attempts.repo.ts\<close>, the writes and the worker's read of
    \<open>db/deliveries.repo.ts\<close>, \<open>queue/enqueue.ts\<close>), \<open>Delivery_Reads\<close> (its list, DLQ list and detail
    queries), \<open>Stats\<close> (\<open>api/routes/stats.ts\<close> and GET /v1/endpoints).
  \<^item> \<open>Cursor\<close> (\<open>api/cursor.ts\<close>: base64url, UTF-8 and JSON of the opaque cursor) and \<open>Read_Routes\<close> (the
    list routes of \<open>api/routes/deliveries.ts\<close> and \<open>dlq.ts\<close>, from the query string to the reply, and
    \<open>crawl\<close>, a client that follows the cursors).
  \<^item> \<open>Invariants\<close>: the audit queries, and \<open>db_inv\<close>, the invariant every write keeps. The locale
    \<open>db_writer\<close> is the contract of a writer (keeps \<open>db_inv\<close>, only extends the logs); it is interpreted for
    every operation of the program that writes, in the theory of that operation.
  \<^item> \<open>Bull_Queue\<close> (\<open>queue/queues.ts\<close>): BullMQ is a parameter (\<open>queue_api\<close>) with its documented laws in
    the locale \<open>bull_queue\<close> (an \<open>add\<close> under a known job id changes nothing); \<open>mem_queue\<close> satisfies them.
  \<^item> \<open>Redis_Service\<close> (\<open>redis/scripts.ts\<close>, \<open>redis/scripts/*.lua\<close>): Redis is a parameter (\<open>redis_api\<close>)
    with the documented effect of its commands on the keyspace in the locale \<open>redis_service\<close>;
    \<open>mem_redis\<close> satisfies it. The Lua scripts and the NOSCRIPT reload are translated over the commands.
  \<^item> \<open>Lock\<close> (\<open>redis/lock.ts\<close>), \<open>Circuit_Breaker\<close> (\<open>redis/circuitBreaker.ts\<close>), \<open>Token_Bucket\<close>
    (\<open>redis/tokenBucket.ts\<close>): each operation, its effect in \<open>redis_service\<close>, and an abstract
    specification. The lock's is a table of leases; the locale \<open>lease_lock\<close> derives exclusion and the
    heartbeat property from the refinement of leases, and \<open>redis_service\<close> is a sublocale of it.
  \<^item> \<open>Outbound\<close> (\<open>worker/signature.ts\<close>, \<open>worker/httpClient.ts\<close>, \<open>shared/headers.ts\<close>, \<open>queue/backoff.ts\<close>),
    \<open>Worker\<close> (\<open>worker/processor.ts\<close>, \<open>worker/heartbeat.ts\<close>): \<open>processDelivery\<close> branch by branch. The
    world it works on has the database, the Redis client, the clock, the requests sent and the jobs
    delayed; \<open>run_env\<close> has everything that is not the program's choice (faults at each call site, fates
    of the transactions, the endpoint's answer, the heartbeats with what others did to Redis before
    each of them, the random numbers). A rejected heartbeat promise is \<open>Crash\<close>.
  \<^item> \<open>Worker_Safety\<close>, \<open>Worker_Redis\<close>: what a run of the processor does and does not do, for an
    arbitrary Redis and for one that keeps its contract.
  \<^item> \<open>Dlq_Handler\<close> (\<open>worker/dlqHandler.ts\<close>, \<open>shared/alerts.ts\<close>, the backoff strategy of
    \<open>worker/index.ts\<close>), \<open>Reconciler\<close> (\<open>reconciler/index.ts\<close>), \<open>Ingest\<close> (\<open>db/ingest.ts\<close>), \<open>Memo_Ttl\<close>
    (\<open>shared/memo.ts\<close>, \<open>api/backpressure.ts\<close>), \<open>Api_Write\<close> (the routes that write, in
    \<open>api/routes/\<close>, and the health checks of \<open>api/app.ts\<close>), \<open>Test_Receiver\<close> (\<open>test-receiver/index.ts\<close>).
  \<^item> \<open>Job_Life\<close> (\<open>worker/index.ts\<close>, options of \<open>queue/queues.ts\<close>): the pickups of one job one after the other.
    How BullMQ settles a job after a run is a parameter with its documented laws (locale \<open>bull_worker\<close>);
    between pickups others may do anything to the database, to Redis and to the clock.
  \<^item> \<open>Api_App\<close> (\<open>api/app.ts\<close>): the routes of \<open>buildApp\<close> with all their handlers and the error handler, on
    arbitrary requests. Fastify's body parser, its reading of path parameters and its answer to an
    unknown route are arguments.
  \<^item> \<open>Api_Types\<close> (\<open>src/dashboard/src/types.ts\<close>): the dashboard's interfaces as predicates on the JSON the
    routes send. \<open>Dashboard_Api\<close> (\<open>src/dashboard/src/api.ts\<close>) with the locale \<open>load_more_view\<close>, the
    contract of a list with a "load more" button, interpreted in \<open>Dashboard_Table\<close>
    (\<open>components/DeliveryTable.tsx\<close>, \<open>Filters.tsx\<close>) and \<open>Dashboard_Dlq\<close> (\<open>DlqView.tsx\<close>);
    \<open>Dashboard_App\<close> (\<open>App.tsx\<close>, \<open>DetailPanel.tsx\<close>, \<open>StatusTiles.tsx\<close>). A component is its React state,
    its handlers and the requests under way; an effect that is cleaned up is a generation that ended.
    \<open>Dashboard_Live\<close> puts them on the API: the proxy of \<open>src/dashboard/vite.config.ts\<close>, the timer of
    \<open>usePoll\<close>, and the tiles, the endpoint drop-down and the DLQ tab as they are rendered.
  \<^item> \<open>Explain_Check\<close> (\<open>src/scripts/explain-check.ts\<close>), \<open>Load_Test\<close> (\<open>src/loadtest/*.js\<close>: the options,
    requests, checks and metrics of the k6 scripts).
  \<^item> \<open>System\<close>, \<open>System_Exclusive\<close>, \<open>System_Leased\<close>: all of them on one database. A worker's run is cut at its database
    awaits into the actions Pickup, Circuit, Start, Finish and Stop of a slot; the other processes act
    with their whole operation. \<open>reachable\<close> is the closure under all actions. In mode \<open>Unguarded\<close>
    nothing restricts the interleaving; in mode \<open>Guarded\<close> a delivery is picked up by one slot at a time,
    and a final failure is handled when no slot has the delivery and it is not DELIVERED. In
    \<open>System_Leased\<close> the lock itself takes the place of the mode: slots acquire, extend and release it,
    time passes and processes die at any point (\<open>leased_act\<close>); \<open>timely\<close> says which steps have to come
    before the lease runs out. The system over \<open>lock.ts\<close> refines the one over the table of leases.

  \<^bold>\<open>What is shown.\<close> Every interleaving keeps the audit queries I2, I3 and I5 empty. I1 holds in the
  guarded mode and, with the lock of \<open>lock.ts\<close>, whenever workers commit DELIVERING and record successes
  before their lease runs out: every other late write is fenced off by the attempt numbers. It fails
  for a worker that stalls past its lease. A processor run is a run of these actions, and so is any
  sequence of HTTP requests to the API, which never writes an attempt and changes a status only from DLQ to
  PENDING. A job that is picked up without infrastructure faults comes to its end, DELIVERED or in the
  DLQ with one alert, after at most as many pickups as it has attempts; whatever fails, it sends at most
  one request more than that. The processor delivers on the healthy path, marks DELIVERED only on a 2xx answer under the lock, sends
  only after its DELIVERING transition is committed, leaves finished deliveries alone and does not
  use up attempts on contention or rate limits. The lock excludes, refines leases and survives with
  punctual heartbeats; the breaker opens at its threshold, elects one probe and follows its result; the
  bucket stays within its bounds. Ingestion is exactly once per client and key (for keys without a
  colon), an acknowledged event is durable and the reconciler finds it. DLQ moves, manual retries,
  the detail view, signatures, backoff and the memoised backpressure check behave as stated.

  On the read side, a cursor survives its encoding, a client that follows cursors gets every matching
  delivery exactly once and comes to an end, the DLQ route is the list route with a status filter, and
  every reply has the type the dashboard declares. The filter bar's choice is what the API selects; the
  table shows rows of the current filters only and the panel the selected delivery only, in whatever
  order answers arrive; every request of the dashboard has its route and the tiles show the database; the
  plan check equals its reference definition.

  A configuration survives the environment, a process that serves has a valid one; the migrations can be
  undone beside whatever else is in the database, and every row the reconciler's sweep selects is in one of
  the partial indexes of the second one. These theorems show defects:
  \<open>stalled_worker_breaks_I1\<close>, \<open>stalled_delivery_lost\<close>, \<open>idempotency_key_collision\<close>, \<open>delivered_moved_to_dlq\<close>,
  \<open>listing_skips_rows\<close>, \<open>reconciler_keeps_known_jobs\<close>, \<open>dashboard_retry_refused\<close>,
  \<open>load_more_anomalies\<close>, \<open>dlq_retries_tracked\<close>, \<open>detail_lacks_list_members\<close>, \<open>backoff_unchecked\<close>,
  \<open>bull_connection_host_port\<close>, \<open>unreadable_body_500\<close>, \<open>poll_shows_last_answer\<close>.

  \<^bold>\<open>Bounds and fuel.\<close> The loops of the program run over lists (batch rows, heartbeats, ticks). The
  reconciler's endless loop and the heartbeat timer are functions of the list of their iterations, so
  statements hold for every length; a job's life is a function of the list of its pickups, and
  \<open>job_comes_to_end\<close> says how many suffice. The descent of \<open>JSON.parse\<close> has fuel, twice the length of the text
  and two; \<open>json_parse_enough\<close> shows that it never runs out. \<open>crawl\<close> has a number of requests and answers
  \<open>None\<close> when they do not suffice; \<open>listing_complete\<close> shows that one per row and one more are enough.

  \<^bold>\<open>Idealisations.\<close> Strings are lists of UTF-8 bytes. Backoff and jitter are exact rationals instead of
  floating point; where the rounding of a double decides (configuration numbers, the limit of a list,
  \<open>toFixed\<close>), it is modelled. A configuration whose backoff times are not whole numbers is loaded
  (\<open>Start_Up\<close>) but has no counterpart in \<open>Config\<close>. \<open>new URL\<close>, zod schemas other than those of the
  configuration, the cursor and the list queries, PostgreSQL's readings of uuid, timestamptz
  and jsonb texts, HMAC-SHA256, Redis, BullMQ, undici, Fastify's body parser and the engine's reading of
  dates that are not ISO texts are parameters. The delivery id in a job is the canonical text of the
  uuid. \<open>int\<close> columns are bounded where they count attempts. A route's queries outside a transaction see
  one database state. The query string of a request is its list of names and values. In \<open>System_Leased\<close>
  the workers share one Redis connection, and what the breaker and the bucket do to other keys is left out.

  \<^bold>\<open>Not modelled.\<close> What the libraries do with the options they are given (pools, reconnection, log
  lines), signals and shutdown; the styles of the dashboard; how k6 runs an executor and judges a
  threshold; the texts of the statements that are only explained; shell and SQL scripts other than the
  audit queries, build files and the test suites: they drive a running installation.
\<close>

subsection \<open>The processes together\<close>

text \<open>
  C1: in every interleaving of the workers, the API, the reconciler and the DLQ handler, with crashes,
  lost locks, duplicate jobs and lost acknowledgements anywhere, the audit queries I2, I3 and I5 find
  nothing: attempt numbers have no gaps, \<open>attempt_count\<close> is the number of attempts, and a DELIVERED
  delivery has a SUCCESS attempt.
\<close>

theorem every_interleaving_audited:
  assumes "reachable mode cfg hm pg y"
  shows "audit_I2 (sy_db y) = [] \<and> audit_I3 (sy_db y) = [] \<and> audit_I5 (sy_db y) = []"
  using reachable_inv [OF assms] audit_I2_ok audit_I3_ok audit_I5_ok by (simp add: sys_inv_def)

theorem every_interleaving_audited_witness:
  "\<exists>y. sys_run Unguarded default_config (\<lambda>_ _. []) demo_pg stalled_worker_trace (sys_init 2) = Some y \<and>
     audit_I3 (sy_db y) = []"
proof -
  obtain y where y: "sys_run Unguarded default_config (\<lambda>_ _. []) demo_pg stalled_worker_trace (sys_init 2) = Some y"
    using stalled_worker_delivers_twice_t by (auto split: option.splits)
  have "reachable Unguarded default_config (\<lambda>_ _. []) demo_pg y"
    by (rule sys_run_reachable [OF reachable.init y])
  from every_interleaving_audited [OF this] y show ?thesis by blast
qed






end
